theory Spec2Isabelle
  imports Complex_Main "HOL-Library.Monad_Syntax" "HOL-Library.Sublist" "HOL-Library.Word"
begin

section \<open>Values handled by the pipeline\<close>

text \<open>
  The result of \<^verbatim>\<open>JSON.parse\<close>. Numbers are rationals (JSON has neither NaN nor
  infinities); an object is the list of its members in the order of the text, a later
  member overriding an earlier one with the same key.
\<close>

datatype json =
    JNull
  | JBool bool
  | JNum rat
  | JStr string
  | JArr "json list"
  | JObj "(string \<times> json) list"

definition field :: "(string \<times> json) list \<Rightarrow> string \<Rightarrow> json option" where
  "field kvs k = map_of (rev kvs) k"

text \<open>
  What is built into JavaScript or comes from a library is a parameter of the model:
  the conversion of a number to text in a template string, \<^verbatim>\<open>JSON.parse\<close> (\<open>Inl\<close> is
  the message of its SyntaxError), the regular expression of \<^verbatim>\<open>extractJSON\<close> and the
  text of the message of a ZodError for a rejected value. \<open>RequestError\<close> is the error of
  the tracker's client, with its HTTP status and message.
\<close>

record runtime =
  numberToString :: "rat \<Rightarrow> string"
  JSON_parse :: "string \<Rightarrow> string + json"
  extractJSON :: "string \<Rightarrow> string"
  zodMessage :: "json \<Rightarrow> string"

datatype js_error =
    AIDecomposerError string
  | ZodError string
  | TypeError string
  | IssueGeneratorError string
  | PRDProcessorError string
  | RequestError "nat option" string
  | Error string

fun errorMessage :: "js_error \<Rightarrow> string" where
  "errorMessage (AIDecomposerError m) = m"
| "errorMessage (ZodError m) = m"
| "errorMessage (TypeError m) = m"
| "errorMessage (IssueGeneratorError m) = m"
| "errorMessage (PRDProcessorError m) = m"
| "errorMessage (RequestError st m) = m"
| "errorMessage (Error m) = m"

section \<open>The hierarchy model (types/schemas.ts)\<close>

datatype complexity = Small | Medium | Large

fun complexityText :: "complexity \<Rightarrow> string" where
  "complexityText Small = ''small''"
| "complexityText Medium = ''medium''"
| "complexityText Large = ''large''"

record TechStack =
  frontend :: "string list option"
  backend :: "string list option"
  database :: "string list option"
  testing :: "string list option"
  deployment :: "string list option"

record Deliverable =
  del_id :: string
  capabilityId :: string
  del_title :: string
  del_description :: string
  completionCriteria :: "string list"
  del_dependencies :: "string list"
  requiresReviewGate :: bool

record ChecklistItem =
  item_id :: string
  item_title :: string
  item_description :: "string option"

record Capability =
  cap_id :: string
  initiativeId :: string
  cap_title :: string
  cap_description :: string
  inputOutputContract :: string
  acceptanceCriteria :: "string list"
  edgeConstraints :: "string list"
  cap_priority :: nat
  complexity :: complexity
  estimatedHours :: rat
  cap_dependencies :: "string list"
  aiContext :: string
  labels :: "string list"
  shouldCreateSubIssues :: bool
  deliverables :: "Deliverable list"
  tasks :: "ChecklistItem list"

record InitiativeSummary =
  ini_id :: string
  ini_title :: string
  ini_description :: string
  objective :: string
  successMetrics :: "string list"
  ini_priority :: nat

record Initiative = InitiativeSummary +
  capabilities :: "Capability list"

record ProjectOverview =
  ov_title :: string
  ov_description :: string
  ov_techStack :: TechStack
  ov_initiatives :: "InitiativeSummary list"

record ProjectStructure =
  proj_title :: string
  proj_description :: string
  techStack :: TechStack
  initiatives :: "Initiative list"
  fileStructure :: "(string \<times> json) list option"
  initialFiles :: "(string \<times> string) list option"

subsection \<open>The schema combinators of zod, as far as the schemas use them\<close>

text \<open>
  A schema maps a value to the parsed result, or to \<open>None\<close> where zod raises a ZodError.
  A member of an object is looked up first; \<open>required\<close>, \<open>default_to\<close> and \<open>optional\<close>
  say what a missing member (\<^verbatim>\<open>undefined\<close>) means.
\<close>

definition z_string :: "json \<Rightarrow> string option" where
  "z_string j = (case j of JStr s \<Rightarrow> Some s | _ \<Rightarrow> None)"

definition z_string_min1 :: "json \<Rightarrow> string option" where
  "z_string_min1 j = (case j of JStr s \<Rightarrow> if 1 \<le> length s then Some s else None | _ \<Rightarrow> None)"

definition z_boolean :: "json \<Rightarrow> bool option" where
  "z_boolean j = (case j of JBool b \<Rightarrow> Some b | _ \<Rightarrow> None)"

definition z_priority :: "json \<Rightarrow> nat option" where
  "z_priority j = (case j of
      JNum r \<Rightarrow> if r = 1 then Some 1 else if r = 2 then Some 2 else if r = 3 then Some 3
                else if r = 4 then Some 4 else if r = 5 then Some 5 else None
    | _ \<Rightarrow> None)"

definition z_complexity :: "json \<Rightarrow> complexity option" where
  "z_complexity j = (case j of
      JStr s \<Rightarrow> if s = ''small'' then Some Small else if s = ''medium'' then Some Medium
                else if s = ''large'' then Some Large else None
    | _ \<Rightarrow> None)"

definition z_hours :: "json \<Rightarrow> rat option" where
  "z_hours j = (case j of JNum r \<Rightarrow> if 0 \<le> r \<and> r \<le> 40 then Some r else None | _ \<Rightarrow> None)"

definition z_array :: "(json \<Rightarrow> 'a option) \<Rightarrow> json \<Rightarrow> 'a list option" where
  "z_array p j = (case j of JArr js \<Rightarrow> those (map p js) | _ \<Rightarrow> None)"

definition z_array_min1 :: "(json \<Rightarrow> 'a option) \<Rightarrow> json \<Rightarrow> 'a list option" where
  "z_array_min1 p j = (case z_array p j of
      None \<Rightarrow> None
    | Some xs \<Rightarrow> if 1 \<le> length xs then Some xs else None)"

definition required :: "(json \<Rightarrow> 'a option) \<Rightarrow> json option \<Rightarrow> 'a option" where
  "required p v = (case v of None \<Rightarrow> None | Some j \<Rightarrow> p j)"

definition default_to :: "'a \<Rightarrow> (json \<Rightarrow> 'a option) \<Rightarrow> json option \<Rightarrow> 'a option" where
  "default_to d p v = (case v of None \<Rightarrow> Some d | Some j \<Rightarrow> p j)"

definition optional :: "(json \<Rightarrow> 'a option) \<Rightarrow> json option \<Rightarrow> 'a option option" where
  "optional p v = (case v of None \<Rightarrow> Some None | Some j \<Rightarrow> map_option Some (p j))"

subsection \<open>The schemas\<close>

definition TechStackSchema :: "json \<Rightarrow> TechStack option" where
  "TechStackSchema j = (case j of
      JObj kvs \<Rightarrow> do {
        fe \<leftarrow> optional (z_array z_string) (field kvs ''frontend'');
        be \<leftarrow> optional (z_array z_string) (field kvs ''backend'');
        db \<leftarrow> optional (z_array z_string) (field kvs ''database'');
        te \<leftarrow> optional (z_array z_string) (field kvs ''testing'');
        dp \<leftarrow> optional (z_array z_string) (field kvs ''deployment'');
        Some \<lparr>frontend = fe, backend = be, database = db, testing = te, deployment = dp\<rparr>
      }
    | _ \<Rightarrow> None)"

definition DeliverableSchema :: "json \<Rightarrow> Deliverable option" where
  "DeliverableSchema j = (case j of
      JObj kvs \<Rightarrow> do {
        i \<leftarrow> required z_string (field kvs ''id'');
        c \<leftarrow> required z_string (field kvs ''capabilityId'');
        t \<leftarrow> required z_string_min1 (field kvs ''title'');
        d \<leftarrow> required z_string_min1 (field kvs ''description'');
        cc \<leftarrow> default_to [] (z_array z_string) (field kvs ''completionCriteria'');
        ds \<leftarrow> default_to [] (z_array z_string) (field kvs ''dependencies'');
        g \<leftarrow> default_to False z_boolean (field kvs ''requiresReviewGate'');
        Some \<lparr>del_id = i, capabilityId = c, del_title = t, del_description = d,
              completionCriteria = cc, del_dependencies = ds, requiresReviewGate = g\<rparr>
      }
    | _ \<Rightarrow> None)"

definition ChecklistItemSchema :: "json \<Rightarrow> ChecklistItem option" where
  "ChecklistItemSchema j = (case j of
      JObj kvs \<Rightarrow> do {
        i \<leftarrow> required z_string (field kvs ''id'');
        t \<leftarrow> required z_string_min1 (field kvs ''title'');
        d \<leftarrow> optional z_string (field kvs ''description'');
        Some \<lparr>item_id = i, item_title = t, item_description = d\<rparr>
      }
    | _ \<Rightarrow> None)"

definition CapabilitySchema :: "json \<Rightarrow> Capability option" where
  "CapabilitySchema j = (case j of
      JObj kvs \<Rightarrow> do {
        i \<leftarrow> required z_string (field kvs ''id'');
        ii \<leftarrow> required z_string (field kvs ''initiativeId'');
        t \<leftarrow> required z_string_min1 (field kvs ''title'');
        d \<leftarrow> required z_string_min1 (field kvs ''description'');
        io \<leftarrow> default_to [] z_string (field kvs ''inputOutputContract'');
        ac \<leftarrow> default_to [] (z_array z_string) (field kvs ''acceptanceCriteria'');
        ec \<leftarrow> default_to [] (z_array z_string) (field kvs ''edgeConstraints'');
        p \<leftarrow> required z_priority (field kvs ''priority'');
        cx \<leftarrow> required z_complexity (field kvs ''complexity'');
        h \<leftarrow> required z_hours (field kvs ''estimatedHours'');
        ds \<leftarrow> default_to [] (z_array z_string) (field kvs ''dependencies'');
        ai \<leftarrow> default_to [] z_string (field kvs ''aiContext'');
        ls \<leftarrow> default_to [] (z_array z_string) (field kvs ''labels'');
        sub \<leftarrow> default_to False z_boolean (field kvs ''shouldCreateSubIssues'');
        dl \<leftarrow> default_to [] (z_array DeliverableSchema) (field kvs ''deliverables'');
        ts \<leftarrow> default_to [] (z_array ChecklistItemSchema) (field kvs ''tasks'');
        Some \<lparr>cap_id = i, initiativeId = ii, cap_title = t, cap_description = d,
              inputOutputContract = io, acceptanceCriteria = ac, edgeConstraints = ec,
              cap_priority = p, complexity = cx, estimatedHours = h, cap_dependencies = ds,
              aiContext = ai, labels = ls, shouldCreateSubIssues = sub, deliverables = dl,
              tasks = ts\<rparr>
      }
    | _ \<Rightarrow> None)"

definition InitiativeSummarySchema :: "json \<Rightarrow> InitiativeSummary option" where
  "InitiativeSummarySchema j = (case j of
      JObj kvs \<Rightarrow> do {
        i \<leftarrow> required z_string (field kvs ''id'');
        t \<leftarrow> required z_string_min1 (field kvs ''title'');
        d \<leftarrow> required z_string (field kvs ''description'');
        ob \<leftarrow> required z_string_min1 (field kvs ''objective'');
        sm \<leftarrow> default_to [] (z_array z_string) (field kvs ''successMetrics'');
        p \<leftarrow> required z_priority (field kvs ''priority'');
        Some \<lparr>ini_id = i, ini_title = t, ini_description = d, objective = ob,
              successMetrics = sm, ini_priority = p\<rparr>
      }
    | _ \<Rightarrow> None)"

definition InitiativeSchema :: "json \<Rightarrow> Initiative option" where
  "InitiativeSchema j = (case j of
      JObj kvs \<Rightarrow> do {
        i \<leftarrow> required z_string (field kvs ''id'');
        t \<leftarrow> required z_string_min1 (field kvs ''title'');
        d \<leftarrow> required z_string (field kvs ''description'');
        ob \<leftarrow> required z_string_min1 (field kvs ''objective'');
        sm \<leftarrow> default_to [] (z_array z_string) (field kvs ''successMetrics'');
        p \<leftarrow> required z_priority (field kvs ''priority'');
        cs \<leftarrow> required (z_array_min1 CapabilitySchema) (field kvs ''capabilities'');
        Some \<lparr>ini_id = i, ini_title = t, ini_description = d, objective = ob,
              successMetrics = sm, ini_priority = p, capabilities = cs\<rparr>
      }
    | _ \<Rightarrow> None)"

definition ProjectOverviewSchema :: "json \<Rightarrow> ProjectOverview option" where
  "ProjectOverviewSchema j = (case j of
      JObj kvs \<Rightarrow> do {
        t \<leftarrow> required z_string_min1 (field kvs ''title'');
        d \<leftarrow> required z_string_min1 (field kvs ''description'');
        ts \<leftarrow> required TechStackSchema (field kvs ''techStack'');
        is \<leftarrow> required (z_array_min1 InitiativeSummarySchema) (field kvs ''initiatives'');
        Some \<lparr>ov_title = t, ov_description = d, ov_techStack = ts, ov_initiatives = is\<rparr>
      }
    | _ \<Rightarrow> None)"

definition z_record_any :: "json \<Rightarrow> (string \<times> json) list option" where
  "z_record_any j = (case j of JObj kvs \<Rightarrow> Some kvs | _ \<Rightarrow> None)"

definition InitialFileSchema :: "json \<Rightarrow> (string \<times> string) option" where
  "InitialFileSchema j = (case j of
      JObj kvs \<Rightarrow> do {
        p \<leftarrow> required z_string (field kvs ''path'');
        c \<leftarrow> required z_string (field kvs ''content'');
        Some (p, c)
      }
    | _ \<Rightarrow> None)"

definition ProjectStructureSchema :: "json \<Rightarrow> ProjectStructure option" where
  "ProjectStructureSchema j = (case j of
      JObj kvs \<Rightarrow> do {
        t \<leftarrow> required z_string_min1 (field kvs ''title'');
        d \<leftarrow> required z_string_min1 (field kvs ''description'');
        ts \<leftarrow> required TechStackSchema (field kvs ''techStack'');
        is \<leftarrow> required (z_array_min1 InitiativeSchema) (field kvs ''initiatives'');
        fs \<leftarrow> optional z_record_any (field kvs ''fileStructure'');
        fl \<leftarrow> optional (z_array InitialFileSchema) (field kvs ''initialFiles'');
        Some \<lparr>proj_title = t, proj_description = d, techStack = ts, initiatives = is,
              fileStructure = fs, initialFiles = fl\<rparr>
      }
    | _ \<Rightarrow> None)"

section \<open>Decomposition (core/aiDecomposer.ts)\<close>

text \<open>
  The generation backend is outside the program. The prompt a method builds is sent to it
  and has no other use, so the model takes the outcome of \<^verbatim>\<open>client.messages.create\<close>
  in place of the document: either the client raises an APIError with a message, or it
  replies with a stop reason and a list of content blocks.
\<close>

record ai_config =
  model :: string
  maxTokens :: rat
  temperature :: rat

datatype content_block = TextBlock string | OtherBlock string

record message_response =
  stop_reason :: "string option"
  content :: "content_block list"

datatype outcome = APIError string | Replied message_response

definition truncatedMessage :: "runtime \<Rightarrow> ai_config \<Rightarrow> string" where
  "truncatedMessage rt cfg =
     ''AI response was truncated due to insufficient output token limit.\<newline>\<newline>'' @
     ''Current max_tokens: '' @ numberToString rt (maxTokens cfg) @ ''\<newline>'' @
     ''Response was cut off before completion (stop_reason: max_tokens)\<newline>\<newline>'' @
     ''Solutions:\<newline>'' @
     ''1. Use two-phase decomposition (RECOMMENDED for large PRDs):\<newline>'' @
     ''   Add --two-phase flag to your command\<newline>\<newline>'' @
     ''2. Increase the output limit by adding to your .env file:\<newline>'' @
     ''   ANTHROPIC_MAX_TOKENS=8192\<newline>\<newline>'' @
     ''3. Simplify your PRD to reduce the response size\<newline>\<newline>'' @
     ''4. Split your PRD into smaller documents and process separately''"

definition undefinedTypeMessage :: string where
  "undefinedTypeMessage = ''Cannot read properties of undefined (reading 'type')''"

text \<open>
  \<^verbatim>\<open>decompose\<close>. An error raised inside the \<^verbatim>\<open>try\<close> block reaches the \<^verbatim>\<open>catch\<close>,
  which rewrites an APIError and a SyntaxError and raises every other error again unchanged.
\<close>

definition decompose :: "runtime \<Rightarrow> ai_config \<Rightarrow> outcome \<Rightarrow> js_error + ProjectStructure" where
  "decompose rt cfg out = (case out of
      APIError m \<Rightarrow> Inl (AIDecomposerError (''Claude API error: '' @ m))
    | Replied response \<Rightarrow>
        if stop_reason response = Some ''max_tokens''
        then Inl (AIDecomposerError (truncatedMessage rt cfg))
        else (case content response of
            [] \<Rightarrow> Inl (TypeError undefinedTypeMessage)
          | OtherBlock ty # _ \<Rightarrow> Inl (AIDecomposerError ''Unexpected response type from Claude API'')
          | TextBlock txt # _ \<Rightarrow>
              (case JSON_parse rt (extractJSON rt txt) of
                  Inl m \<Rightarrow> Inl (AIDecomposerError (''Failed to parse Claude response as JSON: '' @ m))
                | Inr parsed \<Rightarrow>
                    (case ProjectStructureSchema parsed of
                        None \<Rightarrow> Inl (ZodError (zodMessage rt parsed))
                      | Some validated \<Rightarrow> Inr validated))))"

definition decomposeInitiatives :: "runtime \<Rightarrow> ai_config \<Rightarrow> outcome \<Rightarrow> js_error + ProjectOverview" where
  "decomposeInitiatives rt cfg out = (case out of
      APIError m \<Rightarrow> Inl (AIDecomposerError (''Claude API error: '' @ m))
    | Replied response \<Rightarrow>
        if stop_reason response = Some ''max_tokens''
        then Inl (AIDecomposerError
          (''AI response was truncated during initiative generation.\<newline>\<newline>'' @
           ''Current max_tokens: '' @ numberToString rt (maxTokens cfg) @ ''\<newline>'' @
           ''Please increase ANTHROPIC_MAX_TOKENS or simplify your PRD.''))
        else (case content response of
            [] \<Rightarrow> Inl (TypeError undefinedTypeMessage)
          | OtherBlock ty # _ \<Rightarrow> Inl (AIDecomposerError ''Unexpected response type from Claude API'')
          | TextBlock txt # _ \<Rightarrow>
              (case JSON_parse rt (extractJSON rt txt) of
                  Inl m \<Rightarrow> Inl (AIDecomposerError (''Failed to parse Claude response as JSON: '' @ m))
                | Inr parsed \<Rightarrow>
                    (case ProjectOverviewSchema parsed of
                        None \<Rightarrow> Inl (ZodError (zodMessage rt parsed))
                      | Some validated \<Rightarrow> Inr validated))))"

definition decomposeInitiativeCapabilities ::
    "runtime \<Rightarrow> ai_config \<Rightarrow> InitiativeSummary \<Rightarrow> outcome \<Rightarrow> js_error + Capability list" where
  "decomposeInitiativeCapabilities rt cfg initiativeSummary out = (case out of
      APIError m \<Rightarrow> Inl (AIDecomposerError
        (''Claude API error for initiative \"'' @ ini_title initiativeSummary @ ''\": '' @ m))
    | Replied response \<Rightarrow>
        if stop_reason response = Some ''max_tokens''
        then Inl (AIDecomposerError
          (''AI response was truncated for initiative \"'' @ ini_title initiativeSummary @ ''\".\<newline>\<newline>'' @
           ''Current max_tokens: '' @ numberToString rt (maxTokens cfg) @ ''\<newline>'' @
           ''This initiative may be too complex. Consider breaking it into smaller initiatives.''))
        else (case content response of
            [] \<Rightarrow> Inl (TypeError undefinedTypeMessage)
          | OtherBlock ty # _ \<Rightarrow> Inl (AIDecomposerError ''Unexpected response type from Claude API'')
          | TextBlock txt # _ \<Rightarrow>
              (case JSON_parse rt (extractJSON rt txt) of
                  Inl m \<Rightarrow> Inl (AIDecomposerError
                    (''Failed to parse capabilities for initiative \"'' @ ini_title initiativeSummary @ ''\": '' @ m))
                | Inr parsed \<Rightarrow>
                    (case z_array_min1 CapabilitySchema parsed of
                        None \<Rightarrow> Inl (ZodError (zodMessage rt parsed))
                      | Some validated \<Rightarrow> Inr validated))))"

text \<open>\<^verbatim>\<open>{...initiativeSummary, capabilities}\<close>\<close>

definition withCapabilities :: "InitiativeSummary \<Rightarrow> Capability list \<Rightarrow> Initiative" where
  "withCapabilities s cs =
     \<lparr>ini_id = ini_id s, ini_title = ini_title s, ini_description = ini_description s,
      objective = objective s, successMetrics = successMetrics s, ini_priority = ini_priority s,
      capabilities = cs\<rparr>"

definition structureOf :: "ProjectOverview \<Rightarrow> Initiative list \<Rightarrow> ProjectStructure" where
  "structureOf overview is =
     \<lparr>proj_title = ov_title overview, proj_description = ov_description overview,
      techStack = ov_techStack overview, initiatives = is,
      fileStructure = None, initialFiles = None\<rparr>"

text \<open>
  The requests of one run are numbered from 0 in the order they are sent; \<open>reply n\<close> is the
  outcome of request \<open>n\<close>. The loop of \<^verbatim>\<open>decomposeTwoPhase\<close> has no \<^verbatim>\<open>try\<close>: the first
  failing request ends it.
\<close>

fun twoPhaseLoop ::
    "runtime \<Rightarrow> ai_config \<Rightarrow> (nat \<Rightarrow> outcome) \<Rightarrow> nat \<Rightarrow> InitiativeSummary list \<Rightarrow> Initiative list
     \<Rightarrow> js_error + Initiative list" where
  "twoPhaseLoop rt cfg reply n [] inits = Inr inits"
| "twoPhaseLoop rt cfg reply n (initiativeSummary # rest) inits =
     (case decomposeInitiativeCapabilities rt cfg initiativeSummary (reply n) of
        Inl e \<Rightarrow> Inl e
      | Inr caps \<Rightarrow>
          twoPhaseLoop rt cfg reply (Suc n) rest
            (inits @ [withCapabilities initiativeSummary caps]))"

definition decomposeTwoPhase ::
    "runtime \<Rightarrow> ai_config \<Rightarrow> (nat \<Rightarrow> outcome) \<Rightarrow> js_error + ProjectStructure" where
  "decomposeTwoPhase rt cfg reply = (case decomposeInitiatives rt cfg (reply 0) of
      Inl e \<Rightarrow> Inl e
    | Inr overview \<Rightarrow>
        (case twoPhaseLoop rt cfg reply 1 (ov_initiatives overview) [] of
            Inl e \<Rightarrow> Inl e
          | Inr inits \<Rightarrow> Inr (structureOf overview inits)))"

section \<open>The staged branch of the create command (cli/commands/create.ts)\<close>

record FailedInitiative =
  failed_initiative :: InitiativeSummary
  failed_error :: string

record FailureEntry =
  entry_initiativeId :: string
  entry_initiativeTitle :: string
  entry_error :: string

text \<open>The two objects the command writes with \<^verbatim>\<open>fs.writeFileSync\<close>, before \<^verbatim>\<open>JSON.stringify\<close>.\<close>

datatype snapshot =
    FailureLog string string ProjectOverview "FailureEntry list"
  | PartialResults string string ProjectStructure "FailureEntry list"

definition entryOf :: "FailedInitiative \<Rightarrow> FailureEntry" where
  "entryOf f =
     \<lparr>entry_initiativeId = ini_id (failed_initiative f),
      entry_initiativeTitle = ini_title (failed_initiative f),
      entry_error = failed_error f\<rparr>"

text \<open>
  The phase-2 loop, from index \<open>i\<close> on. The request for the initiative at index \<open>i\<close> is
  request \<open>i + 1\<close> of the run, after the request of phase 1.
\<close>

fun phase2 ::
    "runtime \<Rightarrow> ai_config \<Rightarrow> (nat \<Rightarrow> outcome) \<Rightarrow> nat \<Rightarrow> InitiativeSummary list
     \<Rightarrow> Initiative list \<times> FailedInitiative list \<Rightarrow> Initiative list \<times> FailedInitiative list" where
  "phase2 rt cfg reply i [] (inits, failedInitiatives) = (inits, failedInitiatives)"
| "phase2 rt cfg reply i (initiativeSummary # rest) (inits, failedInitiatives) =
     (case decomposeInitiativeCapabilities rt cfg initiativeSummary (reply (i + 1)) of
        Inr caps \<Rightarrow>
          phase2 rt cfg reply (i + 1) rest
            (inits @ [withCapabilities initiativeSummary caps], failedInitiatives)
      | Inl error \<Rightarrow>
          phase2 rt cfg reply (i + 1) rest
            (inits,
             failedInitiatives @
               [\<lparr>failed_initiative = initiativeSummary, failed_error = errorMessage error\<rparr>]))"

text \<open>
  The branch \<^verbatim>\<open>if (options.twoPhase)\<close> of \<^verbatim>\<open>handleCreateCommand\<close>: its result, and the
  calls of \<^verbatim>\<open>fs.writeFileSync\<close> it has made, in order. \<open>now\<close> is
  \<^verbatim>\<open>new Date().toISOString()\<close>; \<open>writeFileSync path data\<close> is the error that the write
  throws, if it throws. No call of \<^verbatim>\<open>writeFileSync\<close> is inside a \<^verbatim>\<open>try\<close> of its own: what
  it throws reaches the \<^verbatim>\<open>catch\<close> of the branch, which throws it again.
\<close>

definition twoPhaseBranch ::
    "runtime \<Rightarrow> ai_config \<Rightarrow> (string \<Rightarrow> snapshot \<Rightarrow> js_error option) \<Rightarrow> string \<Rightarrow> string
     \<Rightarrow> (nat \<Rightarrow> outcome) \<Rightarrow> (js_error + ProjectStructure) \<times> (string \<times> snapshot) list" where
  "twoPhaseBranch rt cfg writeFileSync now prdFile reply =
     (case decomposeInitiatives rt cfg (reply 0) of
        Inl e \<Rightarrow> (Inl e, [])
      | Inr overview \<Rightarrow>
          (case phase2 rt cfg reply 0 (ov_initiatives overview) ([], []) of
             (inits, failedInitiatives) \<Rightarrow>
               if length inits = 0
               then (let failureLog =
                           FailureLog now prdFile overview (map entryOf failedInitiatives)
                     in (case writeFileSync ''.p2g-failure.json'' failureLog of
                           Some e \<Rightarrow> Inl e
                         | None \<Rightarrow> Inl (Error ''All initiatives failed to generate capabilities''),
                         [(''.p2g-failure.json'', failureLog)]))
               else (let projectStructure = structureOf overview inits
                     in if length failedInitiatives > 0
                        then (let partialResults =
                                    PartialResults now prdFile projectStructure
                                      (map entryOf failedInitiatives)
                              in (case writeFileSync ''.p2g-partial.json'' partialResults of
                                    Some e \<Rightarrow> Inl e
                                  | None \<Rightarrow> Inr projectStructure,
                                  [(''.p2g-partial.json'', partialResults)]))
                        else (Inr projectStructure, []))))"

section \<open>Reading the document (core/prdProcessor.ts)\<close>

text \<open>
  Where the code measures and trims a string, the string is the list of its UTF-16 code
  units. The regular expressions that extract the title, the description and the tech
  stack are parameters.
\<close>

type_synonym jsstring = "16 word list"

definition js :: "string \<Rightarrow> jsstring" where
  "js s = map (\<lambda>c. of_nat (of_char c)) s"

definition isWhiteSpace :: "16 word \<Rightarrow> bool" where
  "isWhiteSpace u \<longleftrightarrow>
     u \<in> {0x9, 0xA, 0xB, 0xC, 0xD, 0x20, 0xA0, 0x1680, 0x2028, 0x2029, 0x202F, 0x205F,
          0x3000, 0xFEFF} \<or> (0x2000 \<le> u \<and> u \<le> 0x200A)"

definition trim :: "jsstring \<Rightarrow> jsstring" where
  "trim s = rev (dropWhile isWhiteSpace (rev (dropWhile isWhiteSpace s)))"

datatype file_state = Missing | Unreadable string | Readable jsstring

record 't extractors =
  extractTitle :: "jsstring \<Rightarrow> jsstring option"
  extractDescription :: "jsstring \<Rightarrow> jsstring option"
  extractTechStack :: "jsstring \<Rightarrow> 't option"

record 't PRDHeader =
  prd_title :: jsstring
  prd_description :: jsstring
  prd_techStack :: "'t option"

record 't PRDMetadata = "'t PRDHeader" +
  rawContent :: jsstring

text \<open>\<^verbatim>\<open>x || d\<close> on a string or null: the default replaces null and the empty string.\<close>

definition orElse :: "jsstring option \<Rightarrow> jsstring \<Rightarrow> jsstring" where
  "orElse x d = (case x of None \<Rightarrow> d | Some s \<Rightarrow> if s = [] then d else s)"

definition extractMetadata :: "'t extractors \<Rightarrow> jsstring \<Rightarrow> 't PRDHeader" where
  "extractMetadata ex fileContent =
     \<lparr>prd_title = orElse (extractTitle ex fileContent) (js ''Untitled Project''),
      prd_description = orElse (extractDescription ex fileContent) (js ''No description provided''),
      prd_techStack = extractTechStack ex fileContent\<rparr>"

definition processPRD ::
    "'t extractors \<Rightarrow> (string \<Rightarrow> file_state) \<Rightarrow> string \<Rightarrow> js_error + 't PRDMetadata" where
  "processPRD ex fs prdPath = (case fs prdPath of
      Missing \<Rightarrow> Inl (PRDProcessorError (''PRD file not found: '' @ prdPath))
    | Unreadable m \<Rightarrow> Inl (PRDProcessorError (''Failed to read PRD file: '' @ m))
    | Readable fileContent \<Rightarrow>
        if fileContent = [] \<or> length (trim fileContent) = 0
        then Inl (PRDProcessorError ''PRD file is empty'')
        else if length fileContent < 100
        then Inl (PRDProcessorError ''PRD file is too short (minimum 100 characters)'')
        else if length fileContent > 100000
        then Inl (PRDProcessorError ''PRD file is too large (maximum 100,000 characters)'')
        else (let metadata = extractMetadata ex fileContent
              in Inr \<lparr>prd_title = prd_title metadata, prd_description = prd_description metadata,
                      prd_techStack = prd_techStack metadata, rawContent = fileContent\<rparr>))"

section \<open>Materialisation (github/issueGenerator.ts)\<close>

subsection \<open>The tracker and the log of a run\<close>

text \<open>
  One constructor per request the generator sends; \<^verbatim>\<open>owner\<close> and \<^verbatim>\<open>repo\<close> are the same
  in every request of a run and are left out. The parent of a capability is read from a
  map with \<^verbatim>\<open>get(...)!\<close>, so it is a number or \<^verbatim>\<open>undefined\<close>.
\<close>

datatype call =
    IssuesCreate string string "string list"
  | SubIssuesPost "nat option" nat
  | IssuesCreateLabel string string string
  | IssuesAddLabels nat "string list"
  | IssuesUpdate nat string
  | IssuesGet nat
  | GraphqlBlocks string string
  | IssuesCreateComment nat string

record api_error =
  status :: "nat option"
  message :: string

record issue_data =
  data_number :: nat
  html_url :: string
  data_title :: string
  data_body :: "string option"
  node_id :: string

type_synonym response = "api_error + issue_data"

text \<open>
  The tracker answers a request knowing the requests sent before it. Every theorem below
  holds for every tracker.
\<close>

type_synonym tracker = "call list \<Rightarrow> call \<Rightarrow> response"

datatype invocation =
    CreateInitiativeIssue string
  | CreateCapabilityIssue string string "nat option"
  | CreateDeliverableIssue string string nat

datatype kind = InitiativeK | CapabilityK | DeliverableK

text \<open>
  The log of a run, in order: a request with its answer, a \<^verbatim>\<open>delay(ms)\<close>, a
  \<^verbatim>\<open>set\<close> on one of the three maps, the entry into one of the three creating methods, the
  entry into the \<^verbatim>\<open>try\<close> block that links a dependency (blocker, blocked), and a
  warning of the logger. The other levels of the logger are not modelled.
\<close>

datatype event =
    Call call response
  | Delay nat
  | Registered kind string nat
  | Invoke invocation
  | Attempt nat nat
  | Warned string

fun calls :: "event list \<Rightarrow> call list" where
  "calls [] = []"
| "calls (Call c r # es) = c # calls es"
| "calls (_ # es) = calls es"

definition request :: "tracker \<Rightarrow> call \<Rightarrow> event list \<Rightarrow> response \<times> event list" where
  "request gh c hist = (let r = gh (calls hist) c in (r, hist @ [Call c r]))"

record GitHubIssue =
  number :: nat
  url :: string
  issue_title :: string
  issue_body :: string

definition issueOf :: "issue_data \<Rightarrow> GitHubIssue" where
  "issueOf d =
     \<lparr>number = data_number d, url = html_url d, issue_title = data_title d,
      issue_body = (case data_body d of None \<Rightarrow> [] | Some b \<Rightarrow> b)\<rparr>"

definition num :: "runtime \<Rightarrow> nat \<Rightarrow> string" where
  "num rt n = numberToString rt (of_nat n)"

definition numOrUndefined :: "runtime \<Rightarrow> nat option \<Rightarrow> string" where
  "numOrUndefined rt n = (case n of None \<Rightarrow> ''undefined'' | Some k \<Rightarrow> num rt k)"

subsection \<open>Bodies\<close>

definition bullets :: "string \<Rightarrow> string list \<Rightarrow> string" where
  "bullets mark xs = concat (map (\<lambda>x. mark @ x @ ''\<newline>'') xs)"

definition initiativeBody :: "runtime \<Rightarrow> Initiative \<Rightarrow> string" where
  "initiativeBody rt initiative =
    (let totalCapabilities = length (capabilities initiative);
         totalDeliverables = sum_list (map (\<lambda>c. length (deliverables c)) (capabilities initiative));
         totalChecklists = sum_list (map (\<lambda>c. length (tasks c)) (capabilities initiative))
     in ''## Objective (WHY)\<newline>'' @ objective initiative @ ''\<newline>\<newline>'' @
        ''## Description\<newline>'' @ ini_description initiative @ ''\<newline>\<newline>'' @
        (if length (successMetrics initiative) > 0
         then ''## Success Metrics\<newline>'' @ bullets ''- '' (successMetrics initiative) @ ''\<newline>''
         else []) @
        ''## Capabilities\<newline>'' @
        ''This initiative contains '' @ num rt totalCapabilities @ '' capabilities (L2)'' @
        (if totalDeliverables > 0
         then '' with '' @ num rt totalDeliverables @ '' deliverables (L3)'' else []) @
        (if totalChecklists > 0
         then '' and '' @ num rt totalChecklists @ '' checklist items'' else []) @
        ''.\<newline>\<newline>'' @
        ''**Sub-issues**: Capabilities will be linked below via GitHub sub-issues. '' @
        ''If sub-issue API is unavailable, capabilities will use `parent:#{issueNumber}` labels and body links instead.\<newline>\<newline>'' @
        ''---\<newline>**Initiative ID**: '' @ ini_id initiative @ '' | **Priority**: '' @
        num rt (ini_priority initiative))"

definition formatCapabilityBody :: "runtime \<Rightarrow> Initiative \<Rightarrow> Capability \<Rightarrow> nat option \<Rightarrow> string" where
  "formatCapabilityBody rt initiative capability initiativeNumber =
     ''## Initiative\<newline>#'' @ numOrUndefined rt initiativeNumber @ '' '' @ ini_title initiative @
       ''\<newline>\<newline>'' @
     ''## Description (WHAT)\<newline>'' @ cap_description capability @ ''\<newline>\<newline>'' @
     (if inputOutputContract capability \<noteq> []
      then ''## Input/Output Contract\<newline>'' @ inputOutputContract capability @ ''\<newline>\<newline>''
      else []) @
     (if length (acceptanceCriteria capability) > 0
      then ''## Acceptance Criteria (Observable Outcomes)\<newline>'' @
           bullets ''- [ ] '' (acceptanceCriteria capability) @ ''\<newline>''
      else []) @
     (if length (edgeConstraints capability) > 0
      then ''## Edge Constraints\<newline>'' @ bullets ''- '' (edgeConstraints capability) @ ''\<newline>''
      else []) @
     (if \<not> shouldCreateSubIssues capability \<and> length (tasks capability) > 0
      then ''## Implementation Checklist\<newline>'' @
           bullets ''- [ ] '' (map item_title (tasks capability)) @ ''\<newline>''
      else []) @
     (if shouldCreateSubIssues capability \<and> length (deliverables capability) > 0
      then ''## Deliverables\<newline>'' @
           ''This capability has '' @ num rt (length (deliverables capability)) @
           '' deliverable sub-issues (L3) that will be linked below.\<newline>\<newline>''
      else []) @
     (if aiContext capability \<noteq> []
      then ''## AI Implementation Context\<newline>'' @ aiContext capability @ ''\<newline>\<newline>''
      else []) @
     ''---\<newline>**Capability ID**: '' @ cap_id capability @
     '' | **Estimated Hours**: '' @ numberToString rt (estimatedHours capability) @
     '' | **Complexity**: '' @ complexityText (complexity capability)"

text \<open>The warning sign U+26A0 U+FE0F of the review notice, in UTF-8.\<close>

definition warningSign :: string where
  "warningSign = map char_of [226, 154, 160, 239, 184, 143 :: nat]"

definition formatDeliverableBody :: "runtime \<Rightarrow> Capability \<Rightarrow> Deliverable \<Rightarrow> nat \<Rightarrow> string" where
  "formatDeliverableBody rt capability deliverable capabilityNumber =
     ''## Capability\<newline>#'' @ num rt capabilityNumber @ '' '' @ cap_title capability @
       ''\<newline>\<newline>'' @
     ''## Description\<newline>'' @ del_description deliverable @ ''\<newline>\<newline>'' @
     (if length (completionCriteria deliverable) > 0
      then ''## Completion Criteria\<newline>'' @
           bullets ''- [ ] '' (completionCriteria deliverable) @ ''\<newline>''
      else []) @
     (if requiresReviewGate deliverable
      then ''## Review Gate\<newline>'' @ warningSign @
           '' This deliverable requires review/approval before proceeding.\<newline>\<newline>''
      else []) @
     ''---\<newline>**Deliverable ID**: '' @ del_id deliverable"

subsection \<open>Creating one item\<close>

definition createInitiativeIssue ::
    "runtime \<Rightarrow> tracker \<Rightarrow> Initiative \<Rightarrow> event list \<Rightarrow> (js_error + GitHubIssue) \<times> event list" where
  "createInitiativeIssue rt gh initiative hist =
     (case request gh
             (IssuesCreate (''[INITIATIVE] '' @ ini_title initiative) (initiativeBody rt initiative)
                [''type:initiative'', ini_id initiative])
             (hist @ [Invoke (CreateInitiativeIssue (ini_id initiative))]) of
        (Inl error, h) \<Rightarrow>
          (Inl (IssueGeneratorError
             (''Failed to create initiative issue \"'' @ ini_title initiative @ ''\": '' @ message error)), h)
      | (Inr data, h) \<Rightarrow> (Inr (issueOf data), h))"

definition createParentLabel :: "runtime \<Rightarrow> tracker \<Rightarrow> nat option \<Rightarrow> event list \<Rightarrow> event list" where
  "createParentLabel rt gh parentNumber hist =
     (let labelName = ''parent:#'' @ numOrUndefined rt parentNumber in
      case request gh
             (IssuesCreateLabel labelName ''E4E4E4'' (''Child issues of #'' @ numOrUndefined rt parentNumber))
             hist of
        (Inr created, h) \<Rightarrow> h
      | (Inl error, h) \<Rightarrow>
          if status error \<noteq> Some 422
          then h @ [Warned (''Failed to create parent label \"'' @ labelName @ ''\": '' @ message error)]
          else h)"

definition subIssueWarning :: "runtime \<Rightarrow> api_error \<Rightarrow> nat \<Rightarrow> string" where
  "subIssueWarning rt apiError n =
     (if status apiError = Some 404
      then ''Repository doesn't support sub-issues feature yet. Check your account's Feature Preview settings.''
      else if status apiError = Some 403
      then ''Insufficient permissions to create sub-issues. Ensure your GitHub token has 'repo' scope.''
      else if status apiError = Some 422
      then ''Validation failed: '' @ message apiError
      else ''Sub-issue creation failed for #'' @ num rt n @ '': '' @ message apiError)"

definition parentLabel :: "runtime \<Rightarrow> nat option \<Rightarrow> string" where
  "parentLabel rt parentNumber = ''parent:#'' @ numOrUndefined rt parentNumber"

definition parentLinkSection :: "runtime \<Rightarrow> nat option \<Rightarrow> string \<Rightarrow> string" where
  "parentLinkSection rt parentNumber parentTitle =
     ''**Parent Issue**: #'' @ numOrUndefined rt parentNumber @ '' '' @ parentTitle @
     ''\<newline>\<newline>---\<newline>\<newline>''"

text \<open>
  The inner \<^verbatim>\<open>try\<close>/\<^verbatim>\<open>catch\<close> of \<^verbatim>\<open>createCapabilityIssue\<close> and of
  \<^verbatim>\<open>createDeliverableIssue\<close>, which are the same text but for the parent's number and
  title: the request for a native sub-issue and, in its \<^verbatim>\<open>catch\<close>, the three steps of
  the fallback. Only \<^verbatim>\<open>createParentLabel\<close> has a \<^verbatim>\<open>try\<close> of its own; an error of the
  two requests after it leaves the \<^verbatim>\<open>catch\<close> block and is the \<open>Some\<close> returned here.
\<close>

definition setParent ::
    "runtime \<Rightarrow> tracker \<Rightarrow> nat option \<Rightarrow> string \<Rightarrow> issue_data \<Rightarrow> event list
     \<Rightarrow> api_error option \<times> event list" where
  "setParent rt gh parentNumber parentTitle data hist =
     (case request gh (SubIssuesPost parentNumber (data_number data)) hist of
        (Inr linked, h1) \<Rightarrow> (None, h1)
      | (Inl apiError, h1) \<Rightarrow>
          (let h2 = createParentLabel rt gh parentNumber
                      (h1 @ [Warned (subIssueWarning rt apiError (data_number data))])
           in case request gh (IssuesAddLabels (data_number data) [parentLabel rt parentNumber]) h2 of
                (Inl error, h3) \<Rightarrow> (Some error, h3)
              | (Inr labelled, h3) \<Rightarrow>
                  (case request gh
                          (IssuesUpdate (data_number data)
                             (parentLinkSection rt parentNumber parentTitle @
                              (case data_body data of None \<Rightarrow> [] | Some b \<Rightarrow> b)))
                          h3 of
                     (Inl error, h4) \<Rightarrow> (Some error, h4)
                   | (Inr updated, h4) \<Rightarrow> (None, h4))))"

text \<open>\<^verbatim>\<open>[...new Set(labels)]\<close> keeps the first occurrence of each label.\<close>

definition uniq :: "string list \<Rightarrow> string list" where
  "uniq xs = rev (remdups (rev xs))"

definition createCapabilityIssue ::
    "runtime \<Rightarrow> tracker \<Rightarrow> Initiative \<Rightarrow> Capability \<Rightarrow> nat option \<Rightarrow> event list
     \<Rightarrow> (js_error + GitHubIssue) \<times> event list" where
  "createCapabilityIssue rt gh initiative capability initiativeNumber hist =
     (case request gh
             (IssuesCreate (''[CAPABILITY] '' @ cap_title capability)
                (formatCapabilityBody rt initiative capability initiativeNumber)
                (uniq ([''type:capability'', ini_id initiative, complexityText (complexity capability)]
                       @ labels capability)))
             (hist @ [Invoke (CreateCapabilityIssue (ini_id initiative) (cap_id capability)
                                initiativeNumber)]) of
        (Inl error, h) \<Rightarrow>
          (Inl (IssueGeneratorError
             (''Failed to create capability issue \"'' @ cap_title capability @ ''\": '' @ message error)), h)
      | (Inr data, h) \<Rightarrow>
          (case setParent rt gh initiativeNumber (ini_title initiative) data h of
             (Some error, h') \<Rightarrow>
               (Inl (IssueGeneratorError
                  (''Failed to create capability issue \"'' @ cap_title capability @ ''\": '' @
                   message error)), h')
           | (None, h') \<Rightarrow> (Inr (issueOf data), h')))"

definition createDeliverableIssue ::
    "runtime \<Rightarrow> tracker \<Rightarrow> Capability \<Rightarrow> Deliverable \<Rightarrow> nat \<Rightarrow> event list
     \<Rightarrow> (js_error + GitHubIssue) \<times> event list" where
  "createDeliverableIssue rt gh capability deliverable capabilityNumber hist =
     (case request gh
             (IssuesCreate (''[DELIVERABLE] '' @ del_title deliverable)
                (formatDeliverableBody rt capability deliverable capabilityNumber)
                [''type:deliverable'', initiativeId capability])
             (hist @ [Invoke (CreateDeliverableIssue (cap_id capability) (del_id deliverable)
                                capabilityNumber)]) of
        (Inl error, h) \<Rightarrow>
          (Inl (IssueGeneratorError
             (''Failed to create deliverable issue \"'' @ del_title deliverable @ ''\": '' @ message error)), h)
      | (Inr data, h) \<Rightarrow>
          (case setParent rt gh (Some capabilityNumber) (cap_title capability) data h of
             (Some error, h') \<Rightarrow>
               (Inl (IssueGeneratorError
                  (''Failed to create deliverable issue \"'' @ del_title deliverable @ ''\": '' @
                   message error)), h')
           | (None, h') \<Rightarrow> (Inr (issueOf data), h')))"

subsection \<open>The three creating passes of generateIssues\<close>

record generator =
  initiativeIdToIssueNumber :: "string \<rightharpoonup> nat"
  capabilityIdToIssueNumber :: "string \<rightharpoonup> nat"
  deliverableIdToIssueNumber :: "string \<rightharpoonup> nat"
  events :: "event list"

definition newGenerator :: generator where
  "newGenerator =
     \<lparr>initiativeIdToIssueNumber = Map.empty, capabilityIdToIssueNumber = Map.empty,
      deliverableIdToIssueNumber = Map.empty, events = []\<rparr>"

definition delay :: "nat \<Rightarrow> generator \<Rightarrow> generator" where
  "delay ms g = g\<lparr>events := events g @ [Delay ms]\<rparr>"

definition setInitiative :: "string \<Rightarrow> nat \<Rightarrow> generator \<Rightarrow> generator" where
  "setInitiative i n g =
     g\<lparr>initiativeIdToIssueNumber := (initiativeIdToIssueNumber g)(i \<mapsto> n),
       events := events g @ [Registered InitiativeK i n]\<rparr>"

definition setCapability :: "string \<Rightarrow> nat \<Rightarrow> generator \<Rightarrow> generator" where
  "setCapability i n g =
     g\<lparr>capabilityIdToIssueNumber := (capabilityIdToIssueNumber g)(i \<mapsto> n),
       events := events g @ [Registered CapabilityK i n]\<rparr>"

definition setDeliverable :: "string \<Rightarrow> nat \<Rightarrow> generator \<Rightarrow> generator" where
  "setDeliverable i n g =
     g\<lparr>deliverableIdToIssueNumber := (deliverableIdToIssueNumber g)(i \<mapsto> n),
       events := events g @ [Registered DeliverableK i n]\<rparr>"

text \<open>First pass. \<open>allIssues\<close> is the local list the passes push to.\<close>

fun createInitiatives ::
    "runtime \<Rightarrow> tracker \<Rightarrow> Initiative list \<Rightarrow> GitHubIssue list \<Rightarrow> generator
     \<Rightarrow> (js_error + GitHubIssue list) \<times> generator" where
  "createInitiatives rt gh [] allIssues g = (Inr allIssues, g)"
| "createInitiatives rt gh (initiative # rest) allIssues g =
     (case createInitiativeIssue rt gh initiative (events g) of
        (Inl e, h) \<Rightarrow> (Inl e, g\<lparr>events := h\<rparr>)
      | (Inr initiativeIssue, h) \<Rightarrow>
          createInitiatives rt gh rest (allIssues @ [initiativeIssue])
            (delay 1000
               (setInitiative (ini_id initiative) (number initiativeIssue) (g\<lparr>events := h\<rparr>))))"

text \<open>Third pass, inside the second: the deliverables of one capability.\<close>

fun createDeliverables ::
    "runtime \<Rightarrow> tracker \<Rightarrow> Capability \<Rightarrow> nat \<Rightarrow> Deliverable list \<Rightarrow> GitHubIssue list \<Rightarrow> generator
     \<Rightarrow> (js_error + GitHubIssue list) \<times> generator" where
  "createDeliverables rt gh capability capabilityNumber [] allIssues g = (Inr allIssues, g)"
| "createDeliverables rt gh capability capabilityNumber (deliverable # rest) allIssues g =
     (case createDeliverableIssue rt gh capability deliverable capabilityNumber (events g) of
        (Inl e, h) \<Rightarrow> (Inl e, g\<lparr>events := h\<rparr>)
      | (Inr deliverableIssue, h) \<Rightarrow>
          createDeliverables rt gh capability capabilityNumber rest (allIssues @ [deliverableIssue])
            (delay 1000
               (setDeliverable (del_id deliverable) (number deliverableIssue) (g\<lparr>events := h\<rparr>))))"

text \<open>Second pass: the capabilities of one initiative, then all initiatives.\<close>

fun createCapabilities ::
    "runtime \<Rightarrow> tracker \<Rightarrow> Initiative \<Rightarrow> nat option \<Rightarrow> Capability list \<Rightarrow> GitHubIssue list
     \<Rightarrow> generator \<Rightarrow> (js_error + GitHubIssue list) \<times> generator" where
  "createCapabilities rt gh initiative initiativeNumber [] allIssues g = (Inr allIssues, g)"
| "createCapabilities rt gh initiative initiativeNumber (capability # rest) allIssues g =
     (case createCapabilityIssue rt gh initiative capability initiativeNumber (events g) of
        (Inl e, h) \<Rightarrow> (Inl e, g\<lparr>events := h\<rparr>)
      | (Inr capabilityIssue, h) \<Rightarrow>
          (let g1 = delay 1000
                      (setCapability (cap_id capability) (number capabilityIssue) (g\<lparr>events := h\<rparr>))
           in if shouldCreateSubIssues capability \<and> length (deliverables capability) > 0
              then (case createDeliverables rt gh capability (number capabilityIssue)
                           (deliverables capability) (allIssues @ [capabilityIssue]) g1 of
                      (Inl e, g2) \<Rightarrow> (Inl e, g2)
                    | (Inr pushed, g2) \<Rightarrow>
                        createCapabilities rt gh initiative initiativeNumber rest pushed g2)
              else createCapabilities rt gh initiative initiativeNumber rest
                     (allIssues @ [capabilityIssue]) g1))"

fun capabilityPass ::
    "runtime \<Rightarrow> tracker \<Rightarrow> Initiative list \<Rightarrow> GitHubIssue list \<Rightarrow> generator
     \<Rightarrow> (js_error + GitHubIssue list) \<times> generator" where
  "capabilityPass rt gh [] allIssues g = (Inr allIssues, g)"
| "capabilityPass rt gh (initiative # rest) allIssues g =
     (case createCapabilities rt gh initiative (initiativeIdToIssueNumber g (ini_id initiative))
             (capabilities initiative) allIssues g of
        (Inl e, g1) \<Rightarrow> (Inl e, g1)
      | (Inr pushed, g1) \<Rightarrow> capabilityPass rt gh rest pushed g1)"

subsection \<open>Fourth pass: dependencies\<close>

text \<open>\<^verbatim>\<open>get(id)\<close> followed by the test \<^verbatim>\<open>if (!n) continue\<close>: a missing entry and 0 are skipped.\<close>

definition lookupNumber :: "(string \<rightharpoonup> nat) \<Rightarrow> string \<Rightarrow> nat option" where
  "lookupNumber numbers i = (case numbers i of None \<Rightarrow> None | Some n \<Rightarrow> if n = 0 then None else Some n)"

text \<open>
  The \<^verbatim>\<open>try\<close> block for one dependency: the two node-id lookups, then the mutation
  with the dependency as source and the dependent issue as target.
\<close>

definition tryLink :: "tracker \<Rightarrow> nat \<Rightarrow> nat \<Rightarrow> event list \<Rightarrow> api_error option \<times> event list" where
  "tryLink gh depNumber issueNumber hist =
     (case request gh (IssuesGet depNumber) (hist @ [Attempt depNumber issueNumber]) of
        (Inl e, h1) \<Rightarrow> (Some e, h1)
      | (Inr source, h1) \<Rightarrow>
          (case request gh (IssuesGet issueNumber) h1 of
             (Inl e, h2) \<Rightarrow> (Some e, h2)
           | (Inr target, h2) \<Rightarrow>
               (case request gh (GraphqlBlocks (node_id source) (node_id target)) h2 of
                  (Inl e, h3) \<Rightarrow> (Some e, h3)
                | (Inr linked, h3) \<Rightarrow> (None, h3))))"

fun linkEdges ::
    "runtime \<Rightarrow> tracker \<Rightarrow> (string \<rightharpoonup> nat) \<Rightarrow> nat \<Rightarrow> string list \<Rightarrow> string list \<times> nat list
     \<Rightarrow> event list \<Rightarrow> (string list \<times> nat list) \<times> event list" where
  "linkEdges rt gh numbers issueNumber [] (dependencyReferences, linkedDependencies) hist =
     ((dependencyReferences, linkedDependencies), hist)"
| "linkEdges rt gh numbers issueNumber (depId # rest) (dependencyReferences, linkedDependencies) hist =
     (case lookupNumber numbers depId of
        None \<Rightarrow>
          linkEdges rt gh numbers issueNumber rest (dependencyReferences, linkedDependencies) hist
      | Some depNumber \<Rightarrow>
          (case tryLink gh depNumber issueNumber hist of
             (None, h) \<Rightarrow>
               linkEdges rt gh numbers issueNumber rest
                 (dependencyReferences @ [''#'' @ num rt depNumber], linkedDependencies @ [depNumber]) h
           | (Some graphqlError, h) \<Rightarrow>
               linkEdges rt gh numbers issueNumber rest
                 (dependencyReferences @ [''#'' @ num rt depNumber], linkedDependencies)
                 (h @ [Warned (''Could not create link relationship, will use comment instead: '' @
                               message graphqlError)])))"

fun joinWith :: "string \<Rightarrow> string list \<Rightarrow> string" where
  "joinWith sep [] = []"
| "joinWith sep [x] = x"
| "joinWith sep (x # y # ys) = x @ sep @ joinWith sep (y # ys)"

definition commentBody :: "string \<Rightarrow> string list \<Rightarrow> nat list \<Rightarrow> string" where
  "commentBody noun dependencyReferences linkedDependencies =
     (if length linkedDependencies > 0
      then ''**Dependencies** (also linked as 'blocks' relationships): '' @
           joinWith '', '' dependencyReferences
      else ''**Dependencies**: This '' @ noun @ '' depends on '' @ joinWith '', '' dependencyReferences)"

text \<open>
  The body of the loop for one capability (\<open>noun\<close> is \<open>capability\<close>, \<open>numbers\<close> the map of
  the capabilities) or one deliverable (\<open>deliverable\<close>, the map of the deliverables); the
  two loops are the same text otherwise. The request for the comment has no \<^verbatim>\<open>try\<close>.
\<close>

definition linkDependencies ::
    "runtime \<Rightarrow> tracker \<Rightarrow> string \<Rightarrow> (string \<rightharpoonup> nat) \<Rightarrow> string \<Rightarrow> string list \<Rightarrow> event list
     \<Rightarrow> (js_error + unit) \<times> event list" where
  "linkDependencies rt gh noun numbers itemId dependencies hist =
     (if length dependencies > 0
      then (case lookupNumber numbers itemId of
              None \<Rightarrow> (Inr (), hist)
            | Some issueNumber \<Rightarrow>
                (case linkEdges rt gh numbers issueNumber dependencies ([], []) hist of
                   ((dependencyReferences, linkedDependencies), h) \<Rightarrow>
                     if length dependencyReferences > 0
                     then (case request gh
                                  (IssuesCreateComment issueNumber
                                     (commentBody noun dependencyReferences linkedDependencies)) h of
                             (Inl e, h') \<Rightarrow> (Inl (RequestError (status e) (message e)), h')
                           | (Inr commented, h') \<Rightarrow> (Inr (), h' @ [Delay 1000]))
                     else (Inr (), h)))
      else (Inr (), hist))"

fun capabilityDependencies ::
    "runtime \<Rightarrow> tracker \<Rightarrow> (string \<rightharpoonup> nat) \<Rightarrow> Capability list \<Rightarrow> event list
     \<Rightarrow> (js_error + unit) \<times> event list" where
  "capabilityDependencies rt gh numbers [] hist = (Inr (), hist)"
| "capabilityDependencies rt gh numbers (capability # rest) hist =
     (case linkDependencies rt gh ''capability'' numbers (cap_id capability)
             (cap_dependencies capability) hist of
        (Inl e, h) \<Rightarrow> (Inl e, h)
      | (Inr u, h) \<Rightarrow> capabilityDependencies rt gh numbers rest h)"

fun capabilityDependenciesOf ::
    "runtime \<Rightarrow> tracker \<Rightarrow> (string \<rightharpoonup> nat) \<Rightarrow> Initiative list \<Rightarrow> event list
     \<Rightarrow> (js_error + unit) \<times> event list" where
  "capabilityDependenciesOf rt gh numbers [] hist = (Inr (), hist)"
| "capabilityDependenciesOf rt gh numbers (initiative # rest) hist =
     (case capabilityDependencies rt gh numbers (capabilities initiative) hist of
        (Inl e, h) \<Rightarrow> (Inl e, h)
      | (Inr u, h) \<Rightarrow> capabilityDependenciesOf rt gh numbers rest h)"

definition updateCapabilityDependencies ::
    "runtime \<Rightarrow> tracker \<Rightarrow> ProjectStructure \<Rightarrow> generator \<Rightarrow> (js_error + unit) \<times> generator" where
  "updateCapabilityDependencies rt gh project g =
     (case capabilityDependenciesOf rt gh (capabilityIdToIssueNumber g) (initiatives project)
             (events g) of
        (r, h) \<Rightarrow> (r, g\<lparr>events := h\<rparr>))"

fun deliverableDependencies ::
    "runtime \<Rightarrow> tracker \<Rightarrow> (string \<rightharpoonup> nat) \<Rightarrow> Deliverable list \<Rightarrow> event list
     \<Rightarrow> (js_error + unit) \<times> event list" where
  "deliverableDependencies rt gh numbers [] hist = (Inr (), hist)"
| "deliverableDependencies rt gh numbers (deliverable # rest) hist =
     (case linkDependencies rt gh ''deliverable'' numbers (del_id deliverable)
             (del_dependencies deliverable) hist of
        (Inl e, h) \<Rightarrow> (Inl e, h)
      | (Inr u, h) \<Rightarrow> deliverableDependencies rt gh numbers rest h)"

fun deliverableDependenciesIn ::
    "runtime \<Rightarrow> tracker \<Rightarrow> (string \<rightharpoonup> nat) \<Rightarrow> Capability list \<Rightarrow> event list
     \<Rightarrow> (js_error + unit) \<times> event list" where
  "deliverableDependenciesIn rt gh numbers [] hist = (Inr (), hist)"
| "deliverableDependenciesIn rt gh numbers (capability # rest) hist =
     (if \<not> shouldCreateSubIssues capability
      then deliverableDependenciesIn rt gh numbers rest hist
      else (case deliverableDependencies rt gh numbers (deliverables capability) hist of
              (Inl e, h) \<Rightarrow> (Inl e, h)
            | (Inr u, h) \<Rightarrow> deliverableDependenciesIn rt gh numbers rest h))"

fun deliverableDependenciesOf ::
    "runtime \<Rightarrow> tracker \<Rightarrow> (string \<rightharpoonup> nat) \<Rightarrow> Initiative list \<Rightarrow> event list
     \<Rightarrow> (js_error + unit) \<times> event list" where
  "deliverableDependenciesOf rt gh numbers [] hist = (Inr (), hist)"
| "deliverableDependenciesOf rt gh numbers (initiative # rest) hist =
     (case deliverableDependenciesIn rt gh numbers (capabilities initiative) hist of
        (Inl e, h) \<Rightarrow> (Inl e, h)
      | (Inr u, h) \<Rightarrow> deliverableDependenciesOf rt gh numbers rest h)"

definition updateDeliverableDependencies ::
    "runtime \<Rightarrow> tracker \<Rightarrow> ProjectStructure \<Rightarrow> generator \<Rightarrow> (js_error + unit) \<times> generator" where
  "updateDeliverableDependencies rt gh project g =
     (case deliverableDependenciesOf rt gh (deliverableIdToIssueNumber g) (initiatives project)
             (events g) of
        (r, h) \<Rightarrow> (r, g\<lparr>events := h\<rparr>))"

subsection \<open>generateIssues\<close>

definition generateIssues ::
    "runtime \<Rightarrow> tracker \<Rightarrow> ProjectStructure \<Rightarrow> generator \<Rightarrow> (js_error + GitHubIssue list) \<times> generator" where
  "generateIssues rt gh project g =
     (case createInitiatives rt gh (initiatives project) [] g of
        (Inl e, g1) \<Rightarrow> (Inl e, g1)
      | (Inr pushed1, g1) \<Rightarrow>
          (case capabilityPass rt gh (initiatives project) pushed1 g1 of
             (Inl e, g2) \<Rightarrow> (Inl e, g2)
           | (Inr allIssues, g2) \<Rightarrow>
               (case updateCapabilityDependencies rt gh project g2 of
                  (Inl e, g3) \<Rightarrow> (Inl e, g3)
                | (Inr u, g3) \<Rightarrow>
                    (case updateDeliverableDependencies rt gh project g3 of
                       (Inl e, g4) \<Rightarrow> (Inl e, g4)
                     | (Inr u', g4) \<Rightarrow> (Inr allIssues, g4)))))"

section \<open>Notions used to state the properties\<close>

subsection \<open>Staged decomposition as a fold\<close>

text \<open>
  Every initiative summary with the outcome of its own request (request \<open>k + 1\<close> for the
  summary at index \<open>k\<close>), and the two lists a fold over these attempts produces.
\<close>

definition attempts ::
    "runtime \<Rightarrow> ai_config \<Rightarrow> (nat \<Rightarrow> outcome) \<Rightarrow> InitiativeSummary list
     \<Rightarrow> (InitiativeSummary \<times> (js_error + Capability list)) list" where
  "attempts rt cfg reply summaries =
     map (\<lambda>(k, s). (s, decomposeInitiativeCapabilities rt cfg s (reply (k + 1))))
       (enumerate 0 summaries)"

text \<open>
  \<open>successes\<close>: for each attempt that returned capabilities, in order, the initiative with
  the six fields of its summary and those capabilities. \<open>failures\<close>: for each attempt that
  failed, in order, the summary with the message of the error. \<open>entries\<close>: the same
  failures as the snapshots list them, by id, title and message.
\<close>

definition successes :: "(InitiativeSummary \<times> (js_error + Capability list)) list \<Rightarrow> Initiative list" where
  "successes as =
     List.map_filter
       (\<lambda>(s, r). case r of
            Inr caps \<Rightarrow>
              Some \<lparr>ini_id = ini_id s, ini_title = ini_title s,
                    ini_description = ini_description s, objective = objective s,
                    successMetrics = successMetrics s, ini_priority = ini_priority s,
                    capabilities = caps\<rparr>
          | Inl e \<Rightarrow> None) as"

definition failures ::
    "(InitiativeSummary \<times> (js_error + Capability list)) list \<Rightarrow> FailedInitiative list" where
  "failures as =
     List.map_filter
       (\<lambda>(s, r). case r of
            Inr caps \<Rightarrow> None
          | Inl e \<Rightarrow> Some \<lparr>failed_initiative = s, failed_error = errorMessage e\<rparr>) as"

definition entries ::
    "(InitiativeSummary \<times> (js_error + Capability list)) list \<Rightarrow> FailureEntry list" where
  "entries as =
     List.map_filter
       (\<lambda>(s, r). case r of
            Inr caps \<Rightarrow> None
          | Inl e \<Rightarrow>
              Some \<lparr>entry_initiativeId = ini_id s, entry_initiativeTitle = ini_title s,
                    entry_error = errorMessage e\<rparr>) as"

section \<open>Concrete inputs\<close>

text \<open>A runtime that prints natural numbers in decimal and knows two JSON texts.\<close>

fun showNat :: "nat \<Rightarrow> string" where
  "showNat n =
     (if n < 10 then [''0123456789'' ! n]
      else showNat (n div 10) @ [''0123456789'' ! (n mod 10)])"

declare showNat.simps [simp del]

definition plain_capability_fields :: "(string \<times> json) list" where
  "plain_capability_fields =
     [(''id'', JStr ''capability-1-1''), (''initiativeId'', JStr ''initiative-1''),
      (''title'', JStr ''T''), (''description'', JStr ''D''), (''priority'', JNum 1),
      (''complexity'', JStr ''small''), (''estimatedHours'', JNum 6)]"

definition plain_capability :: Capability where
  "plain_capability =
     \<lparr>cap_id = ''capability-1-1'', initiativeId = ''initiative-1'', cap_title = ''T'',
      cap_description = ''D'', inputOutputContract = [], acceptanceCriteria = [],
      edgeConstraints = [], cap_priority = 1, complexity = Small, estimatedHours = 6,
      cap_dependencies = [], aiContext = [], labels = [], shouldCreateSubIssues = False,
      deliverables = [], tasks = []\<rparr>"

definition flagged_without_deliverables :: json where
  "flagged_without_deliverables =
     JObj (plain_capability_fields @
           [(''shouldCreateSubIssues'', JBool True), (''deliverables'', JArr [])])"

definition deliverable_json :: json where
  "deliverable_json =
     JObj [(''id'', JStr ''deliverable-1-1-1''), (''capabilityId'', JStr ''capability-1-1''),
           (''title'', JStr ''E''), (''description'', JStr ''F'')]"

definition parsed_deliverable :: Deliverable where
  "parsed_deliverable =
     \<lparr>del_id = ''deliverable-1-1-1'', capabilityId = ''capability-1-1'', del_title = ''E'',
      del_description = ''F'', completionCriteria = [], del_dependencies = [],
      requiresReviewGate = False\<rparr>"

definition summary_A :: InitiativeSummary where
  "summary_A =
     \<lparr>ini_id = ''initiative-1'', ini_title = ''A'', ini_description = [], objective = ''O'',
      successMetrics = [], ini_priority = 1\<rparr>"

definition summary_B :: InitiativeSummary where
  "summary_B =
     \<lparr>ini_id = ''initiative-2'', ini_title = ''B'', ini_description = [], objective = ''O'',
      successMetrics = [], ini_priority = 2\<rparr>"

definition demo_overview :: ProjectOverview where
  "demo_overview =
     \<lparr>ov_title = ''P'', ov_description = ''D'',
      ov_techStack = \<lparr>frontend = None, backend = None, database = None, testing = None,
                      deployment = None\<rparr>,
      ov_initiatives = [summary_A, summary_B]\<rparr>"

definition demo_overview_json :: json where
  "demo_overview_json = JObj
     [(''title'', JStr ''P''), (''description'', JStr ''D''), (''techStack'', JObj []),
      (''initiatives'', JArr
        [JObj [(''id'', JStr ''initiative-1''), (''title'', JStr ''A''), (''description'', JStr []),
               (''objective'', JStr ''O''), (''priority'', JNum 1)],
         JObj [(''id'', JStr ''initiative-2''), (''title'', JStr ''B''), (''description'', JStr []),
               (''objective'', JStr ''O''), (''priority'', JNum 2)]])]"

definition demo_parse :: "string \<Rightarrow> string + json" where
  "demo_parse t =
     (if t = ''overview'' then Inr demo_overview_json
      else if t = ''capabilities'' then Inr (JArr [JObj plain_capability_fields])
      else Inl ''Unexpected end of JSON input'')"

definition demo_rt :: runtime where
  "demo_rt =
     \<lparr>numberToString = (\<lambda>r. showNat (nat \<lfloor>r\<rfloor>)), JSON_parse = demo_parse,
      extractJSON = (\<lambda>t. t), zodMessage = (\<lambda>j. ''invalid'')\<rparr>"

definition demo_cfg :: ai_config where
  "demo_cfg = \<lparr>model = ''m'', maxTokens = 8000, temperature = 3 / 10\<rparr>"

text \<open>The backend answers the first request, fails on the second and answers the third.\<close>

definition demo_reply :: "nat \<Rightarrow> outcome" where
  "demo_reply n =
     (if n = 0 then Replied \<lparr>stop_reason = Some ''end_turn'', content = [TextBlock ''overview'']\<rparr>
      else if n = 1 then APIError ''overloaded''
      else Replied \<lparr>stop_reason = Some ''end_turn'', content = [TextBlock ''capabilities'']\<rparr>)"

definition truncated_response :: message_response where
  "truncated_response = \<lparr>stop_reason = Some ''max_tokens'', content = [TextBlock ''overview'']\<rparr>"

definition demo_extractors :: "unit extractors" where
  "demo_extractors =
     \<lparr>extractTitle = (\<lambda>c. None), extractDescription = (\<lambda>c. Some (js ''about'')),
      extractTechStack = (\<lambda>c. None)\<rparr>"

definition demo_fs :: "string \<Rightarrow> file_state" where
  "demo_fs p = (if p = ''prd.md'' then Readable (replicate 100 0x61) else Missing)"

text \<open>A backend that answers the first request only.\<close>

definition failing_reply :: "nat \<Rightarrow> outcome" where
  "failing_reply n =
     (if n = 0 then Replied \<lparr>stop_reason = Some ''end_turn'', content = [TextBlock ''overview'']\<rparr>
      else APIError ''overloaded'')"

text \<open>A file system that accepts every write, and one that has no space left.\<close>

definition demo_disk :: "string \<Rightarrow> snapshot \<Rightarrow> js_error option" where
  "demo_disk path data = None"

definition full_disk :: "string \<Rightarrow> snapshot \<Rightarrow> js_error option" where
  "full_disk path data = Some (Error ''ENOSPC: no space left on device, write'')"

section \<open>Notions used to state the properties of a materialisation run\<close>

subsection \<open>Items created\<close>

fun isCreateCall :: "call \<Rightarrow> bool" where
  "isCreateCall (IssuesCreate t b ls) = True"
| "isCreateCall _ = False"

fun isCommentCall :: "call \<Rightarrow> bool" where
  "isCommentCall (IssuesCreateComment n b) = True"
| "isCommentCall _ = False"

text \<open>
  An item is created by a request \<^verbatim>\<open>issues.create\<close> that the tracker accepts.
\<close>

fun isCreated :: "event \<Rightarrow> bool" where
  "isCreated (Call c r) = (isCreateCall c \<and> \<not> isl r)"
| "isCreated _ = False"

definition created :: "event list \<Rightarrow> nat" where
  "created es = length (filter isCreated es)"

text \<open>
  The items a hierarchy asks for: one per initiative, one per capability, and one per
  deliverable of a capability that is flagged for sub-issues.
\<close>

definition itemsOfCapability :: "Capability \<Rightarrow> nat" where
  "itemsOfCapability c = 1 + (if shouldCreateSubIssues c then length (deliverables c) else 0)"

definition itemsOfInitiative :: "Initiative \<Rightarrow> nat" where
  "itemsOfInitiative i = sum_list (map itemsOfCapability (capabilities i))"

definition itemCount :: "ProjectStructure \<Rightarrow> nat" where
  "itemCount project =
     length (initiatives project) + sum_list (map itemsOfInitiative (initiatives project))"


subsection \<open>Parents before children\<close>


subsection \<open>Delays\<close>

text \<open>
  \<open>callsSeparated\<close> is the discipline that no request follows another request without a
  delay between them; \<open>busy\<close> says that a request was sent since the last delay.
\<close>

fun callsSeparated :: "bool \<Rightarrow> event list \<Rightarrow> bool" where
  "callsSeparated busy [] = True"
| "callsSeparated busy (Call c r # es) = (\<not> busy \<and> callsSeparated True es)"
| "callsSeparated busy (Delay ms # es) = callsSeparated False es"
| "callsSeparated busy (e # es) = callsSeparated busy es"

text \<open>
  \<open>createsDelayed\<close>: every request that creates an item is the first request of the log
  or the first request after a delay of 1000 ms. \<open>commentsDelayed\<close>: the event after
  every accepted comment is a delay of 1000 ms.
\<close>

fun createsDelayed :: "bool \<Rightarrow> event list \<Rightarrow> bool" where
  "createsDelayed rested [] = True"
| "createsDelayed rested (Call c r # es) = ((isCreateCall c \<longrightarrow> rested) \<and> createsDelayed False es)"
| "createsDelayed rested (Delay ms # es) = createsDelayed (ms = 1000) es"
| "createsDelayed rested (e # es) = createsDelayed rested es"

fun commentsDelayed :: "event list \<Rightarrow> bool" where
  "commentsDelayed [] = True"
| "commentsDelayed (Call c r # es) =
     ((isCommentCall c \<and> \<not> isl r \<longrightarrow> (case es of Delay ms # rest \<Rightarrow> ms = 1000 | _ \<Rightarrow> False))
      \<and> commentsDelayed es)"
| "commentsDelayed (e # es) = commentsDelayed es"

subsection \<open>One invariant for the whole run\<close>

text \<open>
  The proofs follow the log with one state: whether the run has rested (nothing sent since
  the start or since a delay of 1000 ms), whether an accepted comment still waits for its
  delay, the number of the item created last, and the two maps as registered so far.
  \<open>staged\<close> holds of a log in which every event is permitted in the state it meets.
\<close>

record stage =
  fresh :: bool
  pending :: bool
  lastCreated :: "nat option"
  regInitiatives :: "string \<rightharpoonup> nat"
  regCapabilities :: "string \<rightharpoonup> nat"

fun permitted :: "stage \<Rightarrow> event \<Rightarrow> bool" where
  "permitted s (Call c r) = (\<not> pending s \<and> (isCreateCall c \<longrightarrow> fresh s))"
| "permitted s (Delay ms) = (pending s \<longrightarrow> ms = 1000)"
| "permitted s (Registered k i n) = (\<not> pending s \<and> lastCreated s = Some n)"
| "permitted s (Invoke (CreateInitiativeIssue i)) = (\<not> pending s)"
| "permitted s (Invoke (CreateCapabilityIssue i c p)) =
     (\<not> pending s \<and> p \<noteq> None \<and> regInitiatives s i = p)"
| "permitted s (Invoke (CreateDeliverableIssue c d p)) =
     (\<not> pending s \<and> regCapabilities s c = Some p)"
| "permitted s (Attempt a b) = (\<not> pending s)"
| "permitted s (Warned w) = (\<not> pending s)"

fun advance :: "stage \<Rightarrow> event \<Rightarrow> stage" where
  "advance s (Call c r) =
     s\<lparr>fresh := False, pending := (isCommentCall c \<and> \<not> isl r),
       lastCreated := (case r of Inr d \<Rightarrow> if isCreateCall c then Some (data_number d) else lastCreated s
                       | Inl e \<Rightarrow> lastCreated s)\<rparr>"
| "advance s (Delay ms) = s\<lparr>fresh := (ms = 1000), pending := False\<rparr>"
| "advance s (Registered InitiativeK i n) = s\<lparr>regInitiatives := (regInitiatives s)(i \<mapsto> n)\<rparr>"
| "advance s (Registered CapabilityK i n) = s\<lparr>regCapabilities := (regCapabilities s)(i \<mapsto> n)\<rparr>"
| "advance s (Registered DeliverableK i n) = s"
| "advance s (Invoke m) = s"
| "advance s (Attempt a b) = s"
| "advance s (Warned w) = s"

fun staged :: "stage \<Rightarrow> event list \<Rightarrow> bool" where
  "staged s [] = True"
| "staged s (e # es) = (permitted s e \<and> staged (advance s e) es)"

definition start :: stage where
  "start = \<lparr>fresh = True, pending = False, lastCreated = None,
             regInitiatives = Map.empty, regCapabilities = Map.empty\<rparr>"

definition reached :: "generator \<Rightarrow> stage" where
  "reached g = foldl advance start (events g)"

definition Inv :: "generator \<Rightarrow> bool" where
  "Inv g \<longleftrightarrow> staged start (events g) \<and> \<not> pending (reached g)
     \<and> regInitiatives (reached g) = initiativeIdToIssueNumber g
     \<and> regCapabilities (reached g) = capabilityIdToIssueNumber g"

text \<open>
  What the events of one creating method do to that state, when the method is entered
  rested and its parent is registered (\<open>entry\<close>), and what the events of the dependency
  pass do to it.
\<close>

definition itemEffect :: "(stage \<Rightarrow> bool) \<Rightarrow> (js_error + GitHubIssue) \<Rightarrow> event list \<Rightarrow> bool" where
  "itemEffect entry r new \<longleftrightarrow>
     (\<forall>s. fresh s \<and> \<not> pending s \<and> entry s \<longrightarrow>
        staged s new \<and> \<not> pending (foldl advance s new)
        \<and> regInitiatives (foldl advance s new) = regInitiatives s
        \<and> regCapabilities (foldl advance s new) = regCapabilities s
        \<and> (\<forall>issue. r = Inr issue \<longrightarrow> lastCreated (foldl advance s new) = Some (number issue)))
     \<and> (\<not> isl r \<longrightarrow> created new = 1)"

definition capabilityEntry :: "Initiative \<Rightarrow> nat option \<Rightarrow> stage \<Rightarrow> bool" where
  "capabilityEntry initiative p s \<longleftrightarrow> p \<noteq> None \<and> regInitiatives s (ini_id initiative) = p"

definition deliverableEntry :: "Capability \<Rightarrow> nat \<Rightarrow> stage \<Rightarrow> bool" where
  "deliverableEntry capability n s \<longleftrightarrow> regCapabilities s (cap_id capability) = Some n"

definition quietEffect :: "event list \<Rightarrow> bool" where
  "quietEffect new \<longleftrightarrow>
     (\<forall>s. \<not> pending s \<longrightarrow>
        staged s new \<and> \<not> pending (foldl advance s new)
        \<and> regInitiatives (foldl advance s new) = regInitiatives s
        \<and> regCapabilities (foldl advance s new) = regCapabilities s)
     \<and> created new = 0"

subsection \<open>Dependency links\<close>

text \<open>
  The number a map has for an id; the tracker numbers its issues from 1, and an entry 0
  is no number. \<open>resolvable\<close>: the numbers of the declared dependencies that have one, in
  the declared order.
\<close>

definition numberOf :: "(string \<rightharpoonup> nat) \<Rightarrow> string \<Rightarrow> nat option" where
  "numberOf numbers i = (if numbers i = Some 0 then None else numbers i)"

definition resolvable :: "(string \<rightharpoonup> nat) \<Rightarrow> string list \<Rightarrow> nat list" where
  "resolvable numbers dependencies = List.map_filter (numberOf numbers) dependencies"

definition linkWarning :: "api_error \<Rightarrow> event" where
  "linkWarning e =
     Warned (''Could not create link relationship, will use comment instead: '' @ message e)"

text \<open>
  The events of one edge, from the blocker to the blocked issue: the node id of the blocker
  is looked up, then the node id of the blocked issue, then the native relationship is
  requested with the blocker's node id as source and the blocked issue's as target. The
  first of the three requests that the tracker rejects ends the edge with a warning; the
  edge is \<open>linked\<close> when the tracker accepts all three.
\<close>

definition edgeLinked :: "nat \<Rightarrow> nat \<Rightarrow> bool \<Rightarrow> event list \<Rightarrow> bool" where
  "edgeLinked blocker blocked linked es \<longleftrightarrow>
     (\<exists>source target e d.
        es = [Attempt blocker blocked, Call (IssuesGet blocker) (Inl e), linkWarning e]
          \<and> \<not> linked
      \<or> es = [Attempt blocker blocked, Call (IssuesGet blocker) (Inr source),
               Call (IssuesGet blocked) (Inl e), linkWarning e]
          \<and> \<not> linked
      \<or> es = [Attempt blocker blocked, Call (IssuesGet blocker) (Inr source),
               Call (IssuesGet blocked) (Inr target),
               Call (GraphqlBlocks (node_id source) (node_id target)) (Inl e), linkWarning e]
          \<and> \<not> linked
      \<or> es = [Attempt blocker blocked, Call (IssuesGet blocker) (Inr source),
               Call (IssuesGet blocked) (Inr target),
               Call (GraphqlBlocks (node_id source) (node_id target)) (Inr d)]
          \<and> linked)"

text \<open>
  The events of the edges of one blocked issue, one edge per blocker, in order; \<open>linked\<close>
  when one of them is.
\<close>

fun edgesLinked :: "nat \<Rightarrow> nat list \<Rightarrow> bool \<Rightarrow> event list \<Rightarrow> bool" where
  "edgesLinked blocked [] linked es \<longleftrightarrow> es = [] \<and> \<not> linked"
| "edgesLinked blocked (blocker # rest) linked es \<longleftrightarrow>
     (\<exists>first others l1 l2.
        es = first @ others \<and> edgeLinked blocker blocked l1 first
        \<and> edgesLinked blocked rest l2 others \<and> linked = (l1 \<or> l2))"

text \<open>The text of the comment: one of two wordings, then the numbers separated by commas.\<close>

fun listed :: "string list \<Rightarrow> string" where
  "listed [] = []"
| "listed (x # xs) = x @ concat (map (\<lambda>y. '', '' @ y) xs)"

definition commentText :: "runtime \<Rightarrow> string \<Rightarrow> bool \<Rightarrow> nat list \<Rightarrow> string" where
  "commentText rt noun linked ns =
     (if linked then ''**Dependencies** (also linked as 'blocks' relationships): ''
      else ''**Dependencies**: This '' @ noun @ '' depends on '')
     @ listed (map (\<lambda>n. ''#'' @ numberToString rt (of_nat n)) ns)"

text \<open>
  What linking the dependencies of one item adds to the log, and its result. Nothing when
  the item itself has no number or none of its dependencies has one. Otherwise the edges
  from each resolvable dependency to the item, then one comment on the item, which lists
  the resolvable dependencies in the wording chosen by whether an edge was linked, then a
  delay of 1000 ms when the tracker accepted the comment. Only a rejected comment makes
  the result an error.
\<close>

definition itemLinked ::
    "runtime \<Rightarrow> string \<Rightarrow> (string \<rightharpoonup> nat) \<Rightarrow> string \<Rightarrow> string list \<Rightarrow> js_error + unit
     \<Rightarrow> event list \<Rightarrow> bool" where
  "itemLinked rt noun numbers itemId dependencies r new \<longleftrightarrow>
     (case numberOf numbers itemId of
        None \<Rightarrow> new = [] \<and> r = Inr ()
      | Some issueNumber \<Rightarrow>
          if resolvable numbers dependencies = [] then new = [] \<and> r = Inr ()
          else (\<exists>edges linked answer.
                  edgesLinked issueNumber (resolvable numbers dependencies) linked edges
                  \<and> new = edges
                        @ [Call (IssuesCreateComment issueNumber
                                   (commentText rt noun linked (resolvable numbers dependencies)))
                             answer]
                        @ (case answer of Inl e \<Rightarrow> [] | Inr d \<Rightarrow> [Delay 1000])
                  \<and> r = (case answer of
                           Inl e \<Rightarrow> Inl (RequestError (status e) (message e))
                         | Inr d \<Rightarrow> Inr ())))"

text \<open>
  The same for a list of items (id, declared dependencies), in order: the first item whose
  comment is rejected ends the pass with that error.
\<close>

fun itemsLinked ::
    "runtime \<Rightarrow> string \<Rightarrow> (string \<rightharpoonup> nat) \<Rightarrow> (string \<times> string list) list \<Rightarrow> js_error + unit
     \<Rightarrow> event list \<Rightarrow> bool" where
  "itemsLinked rt noun numbers [] r new \<longleftrightarrow> new = [] \<and> r = Inr ()"
| "itemsLinked rt noun numbers ((itemId, dependencies) # rest) r new \<longleftrightarrow>
     (\<exists>first others r1.
        new = first @ others \<and> itemLinked rt noun numbers itemId dependencies r1 first
        \<and> (case r1 of
              Inl e \<Rightarrow> others = [] \<and> r = Inl e
            | Inr u \<Rightarrow> itemsLinked rt noun numbers rest r others))"

text \<open>
  The items of the two passes: every capability of every initiative; every deliverable of
  every capability that is flagged for sub-issues.
\<close>

definition capabilityItems :: "ProjectStructure \<Rightarrow> (string \<times> string list) list" where
  "capabilityItems project =
     [(cap_id c, cap_dependencies c). i \<leftarrow> initiatives project, c \<leftarrow> capabilities i]"

definition deliverableItems :: "ProjectStructure \<Rightarrow> (string \<times> string list) list" where
  "deliverableItems project =
     [(del_id d, del_dependencies d).
        i \<leftarrow> initiatives project, c \<leftarrow> capabilities i, shouldCreateSubIssues c,
        d \<leftarrow> deliverables c]"
subsection \<open>The fallback of the parent link\<close>

text \<open>
  The answers of the tracker, after the requests \<open>cs\<close>, to the four requests that link the
  child \<open>child\<close> to the parent number \<open>parent\<close>: it rejects the native link with
  \<open>apiError\<close>; \<open>labelAnswer\<close>, \<open>attachAnswer\<close> and \<open>updateAnswer\<close> are what it says to the
  creation of the parent label, to the attachment of the label and to the update of the
  body. Only the rejection of the native link is a condition: the other three name answers.
\<close>

definition degraded ::
    "tracker \<Rightarrow> runtime \<Rightarrow> call list \<Rightarrow> nat \<Rightarrow> string \<Rightarrow> issue_data \<Rightarrow> api_error
     \<Rightarrow> response \<Rightarrow> response \<Rightarrow> response \<Rightarrow> bool" where
  "degraded gh rt cs parent parentTitle child apiError labelAnswer attachAnswer updateAnswer \<longleftrightarrow>
     (let label = ''parent:#'' @ numberToString rt (of_nat parent);
          native = SubIssuesPost (Some parent) (data_number child);
          ensure = IssuesCreateLabel label ''E4E4E4''
                     (''Child issues of #'' @ numberToString rt (of_nat parent));
          attach = IssuesAddLabels (data_number child) [label];
          update = IssuesUpdate (data_number child)
                     (''**Parent Issue**: #'' @ numberToString rt (of_nat parent) @ '' '' @
                      parentTitle @ ''\<newline>\<newline>---\<newline>\<newline>'' @
                      (case data_body child of None \<Rightarrow> [] | Some t \<Rightarrow> t))
      in gh cs native = Inl apiError
         \<and> gh (cs @ [native]) ensure = labelAnswer
         \<and> gh (cs @ [native, ensure]) attach = attachAnswer
         \<and> gh (cs @ [native, ensure, attach]) update = updateAnswer)"

text \<open>
  The events of a degraded link: the rejected native request and its warning; the request
  that creates the label \<^verbatim>\<open>parent:#N\<close>, with a warning when it fails with a status other
  than 422; the label attached to the child; and, when that was accepted, the body of the
  child updated to the reference to the parent followed by the body as created.
\<close>

definition fallbackEvents ::
    "runtime \<Rightarrow> nat \<Rightarrow> string \<Rightarrow> issue_data \<Rightarrow> api_error \<Rightarrow> response \<Rightarrow> response \<Rightarrow> response
     \<Rightarrow> event list" where
  "fallbackEvents rt parent parentTitle child apiError labelAnswer attachAnswer updateAnswer =
     (let label = ''parent:#'' @ numberToString rt (of_nat parent)
      in [Call (SubIssuesPost (Some parent) (data_number child)) (Inl apiError),
          Warned (subIssueWarning rt apiError (data_number child)),
          Call (IssuesCreateLabel label ''E4E4E4''
                  (''Child issues of #'' @ numberToString rt (of_nat parent))) labelAnswer]
         @ (case labelAnswer of
              Inl e \<Rightarrow> if status e \<noteq> Some 422
                       then [Warned (''Failed to create parent label \"'' @ label @ ''\": '' @
                                     message e)]
                       else []
            | Inr x \<Rightarrow> [])
         @ [Call (IssuesAddLabels (data_number child) [label]) attachAnswer]
         @ (case attachAnswer of
              Inl e \<Rightarrow> []
            | Inr a \<Rightarrow>
                [Call (IssuesUpdate (data_number child)
                         (''**Parent Issue**: #'' @ numberToString rt (of_nat parent) @ '' '' @
                          parentTitle @ ''\<newline>\<newline>---\<newline>\<newline>'' @
                          (case data_body child of None \<Rightarrow> [] | Some t \<Rightarrow> t)))
                   updateAnswer]))"

text \<open>
  What the method that creates the child returns after a degraded link: the issue as
  created, when the label was attached and the body updated; else an error with the
  message of the tracker's error, behind the prefix \<open>failure\<close> of the method.
\<close>

definition fallbackResult ::
    "string \<Rightarrow> issue_data \<Rightarrow> response \<Rightarrow> response \<Rightarrow> js_error + GitHubIssue" where
  "fallbackResult failure child attachAnswer updateAnswer =
     (case attachAnswer of
        Inl e \<Rightarrow> Inl (IssueGeneratorError (failure @ message e))
      | Inr a \<Rightarrow>
          (case updateAnswer of
             Inl e \<Rightarrow> Inl (IssueGeneratorError (failure @ message e))
           | Inr b \<Rightarrow>
               Inr \<lparr>number = data_number child, url = html_url child,
                    issue_title = data_title child,
                    issue_body = (case data_body child of None \<Rightarrow> [] | Some t \<Rightarrow> t)\<rparr>))"

text \<open>An event in which the tracker rejects the second or the third step of the fallback.\<close>

fun stepRejected :: "event \<Rightarrow> bool" where
  "stepRejected (Call (IssuesAddLabels n ls) (Inl e)) = True"
| "stepRejected (Call (IssuesUpdate n b) (Inl e)) = True"
| "stepRejected _ = False"

text \<open>
  A log in which every rejected step is the last event, and the result of a run with such
  a step is an error of the generator.
\<close>

definition ends :: "js_error + 'a \<Rightarrow> event list \<Rightarrow> bool" where
  "ends r new \<longleftrightarrow>
     (\<forall>e \<in> set new. stepRejected e \<longrightarrow> (\<exists>m. r = Inl (IssueGeneratorError m)) \<and> last new = e)"

subsection \<open>Where the delays are\<close>

text \<open>
  A log in which every delay is of 1000 ms and is the event directly after the registration
  of a created item or directly after a comment that the tracker accepted; \<open>due\<close> tells
  whether the event before the log was one of these.
\<close>

fun placed :: "bool \<Rightarrow> event list \<Rightarrow> bool" where
  "placed due [] = True"
| "placed due (Delay ms # es) = (due \<and> ms = 1000 \<and> placed False es)"
| "placed due (Registered k i n # es) = placed True es"
| "placed due (Call c r # es) = placed (isCommentCall c \<and> \<not> isl r) es"
| "placed due (e # es) = placed False es"

section \<open>Concrete inputs for materialisation\<close>

text \<open>
  A hierarchy of the shape of the fixture of the integration test: one initiative, one
  capability flagged for sub-issues, one deliverable.
\<close>

definition demo_deliverable :: Deliverable where
  "demo_deliverable =
     \<lparr>del_id = ''deliverable-1-1-1'', capabilityId = ''capability-1-1'',
      del_title = ''Test Deliverable'', del_description = ''Grandchild'',
      completionCriteria = [''created''], del_dependencies = [], requiresReviewGate = False\<rparr>"

definition demo_capability :: Capability where
  "demo_capability =
     \<lparr>cap_id = ''capability-1-1'', initiativeId = ''initiative-1'',
      cap_title = ''Test Capability'', cap_description = ''Child'',
      inputOutputContract = ''N/A'', acceptanceCriteria = [''created''], edgeConstraints = [],
      cap_priority = 1, complexity = Small, estimatedHours = 1, cap_dependencies = [],
      aiContext = [], labels = [], shouldCreateSubIssues = True,
      deliverables = [demo_deliverable], tasks = []\<rparr>"

definition demo_initiative :: Initiative where
  "demo_initiative =
     \<lparr>ini_id = ''initiative-1'', ini_title = ''Test Initiative'', ini_description = ''Parent'',
      objective = ''Verify'', successMetrics = [''linked''], ini_priority = 1,
      capabilities = [demo_capability]\<rparr>"

definition demo_project :: ProjectStructure where
  "demo_project =
     \<lparr>proj_title = ''Test Sub-Issue Relationships'', proj_description = ''Minimal structure'',
      techStack = \<lparr>frontend = Some [], backend = Some [''Node.js''], database = Some [],
                   testing = Some [], deployment = Some []\<rparr>,
      initiatives = [demo_initiative], fileStructure = None, initialFiles = None\<rparr>"

text \<open>
  Three trackers. The first accepts every request and numbers the issues from 1 in the
  order of their creation. The second has no native sub-issues (status 404). The third,
  in addition, refuses to attach labels (status 403).
\<close>

definition accepting :: tracker where
  "accepting h c = Inr
     \<lparr>data_number = Suc (length (filter isCreateCall h)), html_url = [],
      data_title = (case c of IssuesCreate t b ls \<Rightarrow> t | _ \<Rightarrow> []),
      data_body = (case c of IssuesCreate t b ls \<Rightarrow> Some b | _ \<Rightarrow> None),
      node_id = (case c of IssuesGet n \<Rightarrow> ''node-'' @ showNat n | _ \<Rightarrow> [])\<rparr>"

definition withoutSubIssues :: tracker where
  "withoutSubIssues h c =
     (case c of
        SubIssuesPost p n \<Rightarrow> Inl \<lparr>status = Some 404, message = ''Not Found''\<rparr>
      | _ \<Rightarrow> accepting h c)"

definition withoutLabels :: tracker where
  "withoutLabels h c =
     (case c of
        SubIssuesPost p n \<Rightarrow> Inl \<lparr>status = Some 404, message = ''Not Found''\<rparr>
      | IssuesAddLabels n ls \<Rightarrow> Inl \<lparr>status = Some 403, message = ''Forbidden''\<rparr>
      | _ \<Rightarrow> accepting h c)"

text \<open>The requests and delays of a log, by name.\<close>

fun wire :: "event list \<Rightarrow> string list" where
  "wire [] = []"
| "wire (Call (IssuesCreate t b ls) r # es) = ''issues.create'' # wire es"
| "wire (Call (SubIssuesPost p n) r # es) = ''sub_issues'' # wire es"
| "wire (Call (IssuesCreateLabel n c d) r # es) = ''issues.createLabel'' # wire es"
| "wire (Call (IssuesAddLabels n ls) r # es) = ''issues.addLabels'' # wire es"
| "wire (Call (IssuesUpdate n b) r # es) = ''issues.update'' # wire es"
| "wire (Call (IssuesGet n) r # es) = ''issues.get'' # wire es"
| "wire (Call (GraphqlBlocks s t) r # es) = ''graphql'' # wire es"
| "wire (Call (IssuesCreateComment n b) r # es) = ''issues.createComment'' # wire es"
| "wire (Delay ms # es) = ''delay'' # wire es"
| "wire (_ # es) = wire es"



text \<open>A tracker that is down: it rejects every request with status 500.\<close>

definition down :: tracker where
  "down h c = Inl \<lparr>status = Some 500, message = ''Server Error''\<rparr>"

text \<open>
  A second capability, not flagged for sub-issues, that depends on the first one and on
  three ids that the project does not have; and the project with both capabilities.
\<close>

definition dependent_capability :: Capability where
  "dependent_capability =
     \<lparr>cap_id = ''capability-1-2'', initiativeId = ''initiative-1'',
      cap_title = ''Second Capability'', cap_description = ''Sibling'',
      inputOutputContract = ''N/A'', acceptanceCriteria = [], edgeConstraints = [],
      cap_priority = 2, complexity = Small, estimatedHours = 1,
      cap_dependencies = [''capability-1-1'', ''capability-9-9'', ''capability-1-4'',
                          ''capability-1-3''],
      aiContext = [], labels = [], shouldCreateSubIssues = False,
      deliverables = [], tasks = []\<rparr>"

definition linked_project :: ProjectStructure where
  "linked_project =
     demo_project\<lparr>initiatives :=
       [demo_initiative\<lparr>capabilities := [demo_capability, dependent_capability]\<rparr>]\<rparr>"

section \<open>Structural validation\<close>

lemma field_append2:
  "field (kvs @ [(k1, v1), (k2, v2)]) k =
     (if k = k2 then Some v2 else if k = k1 then Some v1 else field kvs k)"
  by (simp add: field_def)

lemmas schema_defs =
  CapabilitySchema_def DeliverableSchema_def field_def required_def default_to_def optional_def
  z_string_def z_string_min1_def z_priority_def z_complexity_def z_hours_def z_boolean_def
  z_array_def z_array_min1_def

text \<open>
  C6, as the claim states it, fails: the schema of a capability has no rule that relates
  \<open>shouldCreateSubIssues\<close> to \<open>deliverables\<close>. A capability that is flagged for
  sub-issues and has no deliverable is accepted with the flag set and the list empty.
\<close>

theorem flagged_capability_without_deliverables_accepted:
  "map_option shouldCreateSubIssues (CapabilitySchema flagged_without_deliverables) = Some True
   \<and> map_option deliverables (CapabilitySchema flagged_without_deliverables) = Some []"
  by (simp add: flagged_without_deliverables_def plain_capability_fields_def schema_defs)

text \<open>
  C6, amended: validation checks the flag and the list of deliverables each on its own.
  Whatever capability object is accepted, it is still accepted, with the other fields
  unchanged, when its flag is replaced by either boolean and its deliverables by any list
  of valid deliverables (the empty list included).
\<close>

theorem capability_flag_and_deliverables_unrelated:
  assumes "CapabilitySchema (JObj kvs) = Some c"
    and "z_array DeliverableSchema (JArr ds) = Some dl"
  shows "CapabilitySchema
           (JObj (kvs @ [(''shouldCreateSubIssues'', JBool b), (''deliverables'', JArr ds)]))
         = Some (c\<lparr>shouldCreateSubIssues := b, deliverables := dl\<rparr>)"
  using assms
  by (auto simp add: CapabilitySchema_def field_append2 default_to_def z_boolean_def
      Option.bind_eq_Some_conv)

theorem capability_flag_and_deliverables_unrelated_witness:
  "CapabilitySchema (JObj plain_capability_fields) = Some plain_capability
   \<and> z_array DeliverableSchema (JArr [deliverable_json]) = Some [parsed_deliverable]
   \<and> CapabilitySchema
        (JObj (plain_capability_fields @
               [(''shouldCreateSubIssues'', JBool False), (''deliverables'', JArr [deliverable_json])]))
      = Some (plain_capability\<lparr>shouldCreateSubIssues := False, deliverables := [parsed_deliverable]\<rparr>)"
proof -
  have a: "CapabilitySchema (JObj plain_capability_fields) = Some plain_capability"
    by (simp add: plain_capability_fields_def plain_capability_def schema_defs)
  have b: "z_array DeliverableSchema (JArr [deliverable_json]) = Some [parsed_deliverable]"
    by (simp add: deliverable_json_def parsed_deliverable_def schema_defs)
  from capability_flag_and_deliverables_unrelated [OF a b, of False] a b show ?thesis
    by simp
qed

section \<open>Single-pass decomposition\<close>

text \<open>
  C7: when the backend reports the stop reason \<open>max_tokens\<close>, \<open>decompose\<close> fails with
  the truncation error, whose message names the flag \<open>--two-phase\<close>. The result is the
  same for every content of the reply and every parser, so nothing of the reply is parsed
  or validated, and no hierarchy is returned.
\<close>

theorem decompose_truncated:
  assumes "stop_reason response = Some ''max_tokens''"
  shows "decompose rt cfg (Replied response) = Inl (AIDecomposerError (truncatedMessage rt cfg))
         \<and> sublist ''--two-phase'' (truncatedMessage rt cfg)"
proof
  show "decompose rt cfg (Replied response) = Inl (AIDecomposerError (truncatedMessage rt cfg))"
    using assms by (simp add: decompose_def)
  have "truncatedMessage rt cfg =
     (''AI response was truncated due to insufficient output token limit.\<newline>\<newline>'' @
      ''Current max_tokens: '' @ numberToString rt (maxTokens cfg) @ ''\<newline>'' @
      ''Response was cut off before completion (stop_reason: max_tokens)\<newline>\<newline>'' @
      ''Solutions:\<newline>'' @
      ''1. Use two-phase decomposition (RECOMMENDED for large PRDs):\<newline>'' @
      ''   Add '') @ ''--two-phase'' @ ('' flag to your command\<newline>\<newline>'' @
      ''2. Increase the output limit by adding to your .env file:\<newline>'' @
      ''   ANTHROPIC_MAX_TOKENS=8192\<newline>\<newline>'' @
      ''3. Simplify your PRD to reduce the response size\<newline>\<newline>'' @
      ''4. Split your PRD into smaller documents and process separately'')"
    by (simp add: truncatedMessage_def)
  then show "sublist ''--two-phase'' (truncatedMessage rt cfg)"
    unfolding sublist_def by blast
qed

theorem decompose_truncated_witness:
  "stop_reason truncated_response = Some ''max_tokens''
   \<and> decompose demo_rt demo_cfg (Replied truncated_response)
       = Inl (AIDecomposerError (truncatedMessage demo_rt demo_cfg))"
proof -
  have a: "stop_reason truncated_response = Some ''max_tokens''"
    by (simp add: truncated_response_def)
  from decompose_truncated [OF a, of demo_rt demo_cfg] a show ?thesis
    by simp
qed

section \<open>Staged decomposition\<close>

lemma phase2_general:
  "phase2 rt cfg reply i ss (a, b) =
     (a @ successes (map (\<lambda>(k, s). (s, decomposeInitiativeCapabilities rt cfg s (reply (k + 1))))
                      (enumerate i ss)),
      b @ failures (map (\<lambda>(k, s). (s, decomposeInitiativeCapabilities rt cfg s (reply (k + 1))))
                     (enumerate i ss)))"
proof (induction ss arbitrary: i a b)
  case Nil
  show ?case by (simp add: successes_def failures_def)
next
  case (Cons s ss)
  show ?case
    by (cases "decomposeInitiativeCapabilities rt cfg s (reply (Suc i))")
       (simp_all add: Cons.IH successes_def failures_def withCapabilities_def)
qed

lemma map_fst_attempts: "map (fst \<circ> (\<lambda>(k, s). (s, f k s))) (enumerate i ss) = ss"
  by (induction ss arbitrary: i) simp_all

lemma successes_Nil_iff: "successes as = [] \<longleftrightarrow> (\<forall>(s, r) \<in> set as. isl r)"
  by (induction as) (auto simp: successes_def split: sum.splits)

lemma failures_Nil_iff: "failures as = [] \<longleftrightarrow> (\<forall>(s, r) \<in> set as. \<not> isl r)"
  by (induction as) (auto simp: failures_def split: sum.splits)

lemma entries_failures: "map entryOf (failures as) = entries as"
  by (induction as) (auto simp: failures_def entries_def entryOf_def split: sum.splits)

lemma attempts_split:
  "length (successes as) + length (failures as) = length as"
  by (induction as) (auto simp: successes_def failures_def split: sum.splits)

lemma successes_ids:
  "map ini_id (successes as) = map (\<lambda>(s, r). ini_id s) (filter (\<lambda>(s, r). \<not> isl r) as)"
  by (induction as) (auto simp: successes_def split: sum.splits)

lemma entries_ids:
  "map entry_initiativeId (entries as) = map (\<lambda>(s, r). ini_id s) (filter (\<lambda>(s, r). isl r) as)"
  by (induction as) (auto simp: entries_def split: sum.splits)

lemma attempts_Nil_iff: "attempts rt cfg reply ss = [] \<longleftrightarrow> ss = []"
  by (cases ss) (simp_all add: attempts_def)

lemma overview_nonempty:
  "decomposeInitiatives rt cfg out = Inr overview \<Longrightarrow> ov_initiatives overview \<noteq> []"
  by (auto simp: decomposeInitiatives_def ProjectOverviewSchema_def z_array_min1_def required_def
        Option.bind_eq_Some_conv
      split: outcome.splits if_splits list.splits content_block.splits sum.splits option.splits
        json.splits)

lemmas demo_decomposition_defs =
  decomposeInitiatives_def decomposeInitiativeCapabilities_def demo_rt_def demo_reply_def
  demo_parse_def demo_overview_json_def demo_overview_def summary_A_def summary_B_def
  plain_capability_fields_def plain_capability_def
  ProjectOverviewSchema_def TechStackSchema_def InitiativeSummarySchema_def schema_defs

lemma demo_phase1: "decomposeInitiatives demo_rt demo_cfg (demo_reply 0) = Inr demo_overview"
  by (simp add: demo_decomposition_defs)

lemma failing_phase1: "decomposeInitiatives demo_rt demo_cfg (failing_reply 0) = Inr demo_overview"
  using demo_phase1 by (simp add: failing_reply_def demo_reply_def)

lemma demo_attempts:
  "attempts demo_rt demo_cfg demo_reply [summary_A, summary_B] =
     [(summary_A, Inl (AIDecomposerError ''Claude API error for initiative \"A\": overloaded'')),
      (summary_B, Inr [plain_capability])]"
  by (simp add: attempts_def enumerate_eq_zip upt_rec
        decomposeInitiativeCapabilities_def demo_rt_def demo_reply_def demo_parse_def
        summary_A_def summary_B_def plain_capability_fields_def plain_capability_def schema_defs)

lemma failing_attempts:
  "attempts demo_rt demo_cfg failing_reply [summary_A, summary_B] =
     [(summary_A, Inl (AIDecomposerError ''Claude API error for initiative \"A\": overloaded'')),
      (summary_B, Inl (AIDecomposerError ''Claude API error for initiative \"B\": overloaded''))]"
  by (simp add: attempts_def enumerate_eq_zip upt_rec
        decomposeInitiativeCapabilities_def failing_reply_def summary_A_def summary_B_def)

lemma summary_fields:
  "ini_id summary_A = ''initiative-1''" "ini_title summary_A = ''A''"
  "ini_id summary_B = ''initiative-2''" "ini_title summary_B = ''B''"
  "ini_description summary_B = []" "objective summary_B = ''O''"
  "successMetrics summary_B = []" "ini_priority summary_B = 2"
  by (simp_all add: summary_A_def summary_B_def)

lemma demo_overview_fields:
  "ov_title demo_overview = ''P''" "ov_description demo_overview = ''D''"
  "ov_techStack demo_overview =
     \<lparr>frontend = None, backend = None, database = None, testing = None, deployment = None\<rparr>"
  "ov_initiatives demo_overview = [summary_A, summary_B]"
  by (simp_all add: demo_overview_def)

text \<open>
  The method \<^verbatim>\<open>decomposeTwoPhase\<close> of the decomposer, which the create command does not
  call, runs the same two phases with no \<^verbatim>\<open>try\<close> around the request of an initiative:
  with a backend that fails for the first of two initiatives, it ends with that error.
\<close>

lemma decomposeTwoPhase_stops_at_first_failure:
  "decomposeTwoPhase demo_rt demo_cfg demo_reply =
     Inl (AIDecomposerError ''Claude API error for initiative \"A\": overloaded'')"
  by (simp add: decomposeTwoPhase_def demo_phase1)
     (simp add: demo_overview_def decomposeInitiativeCapabilities_def demo_reply_def summary_A_def)

text \<open>
  C3: the phase-2 loop of the staged branch of the create command attempts every initiative
  summary once, in order, each with its own request, whatever the other attempts did. It
  returns, for the attempts that succeeded, the initiatives with the fields of their
  summaries and the capabilities of the attempt attached, and, for the attempts that
  failed, one failure record each with the summary and the message of the error. Every
  summary ends in one of the two lists: no failure ends the loop.
\<close>

theorem phase2_absorbs_failures:
  "phase2 rt cfg reply 0 summaries ([], []) =
     (successes (attempts rt cfg reply summaries), failures (attempts rt cfg reply summaries))
   \<and> map fst (attempts rt cfg reply summaries) = summaries
   \<and> map snd (attempts rt cfg reply summaries) =
       map (\<lambda>k. decomposeInitiativeCapabilities rt cfg (summaries ! k) (reply (k + 1)))
         [0..<length summaries]
   \<and> length (successes (attempts rt cfg reply summaries))
       + length (failures (attempts rt cfg reply summaries)) = length summaries"
proof -
  have "map snd (attempts rt cfg reply summaries) =
       map (\<lambda>k. decomposeInitiativeCapabilities rt cfg (summaries ! k) (reply (k + 1)))
         [0..<length summaries]"
    by (rule nth_equalityI) (simp_all add: attempts_def nth_enumerate_eq)
  moreover have "length (successes (attempts rt cfg reply summaries))
       + length (failures (attempts rt cfg reply summaries)) = length summaries"
    unfolding attempts_split by (simp add: attempts_def)
  ultimately show ?thesis
    by (simp add: phase2_general attempts_def map_fst_attempts)
qed

theorem phase2_absorbs_failures_witness:
  "phase2 demo_rt demo_cfg demo_reply 0 [summary_A, summary_B] ([], []) =
     ([\<lparr>ini_id = ''initiative-2'', ini_title = ''B'', ini_description = [], objective = ''O'',
        successMetrics = [], ini_priority = 2, capabilities = [plain_capability]\<rparr>],
      [\<lparr>failed_initiative = summary_A,
        failed_error = ''Claude API error for initiative \"A\": overloaded''\<rparr>])"
  using phase2_absorbs_failures [of demo_rt demo_cfg demo_reply "[summary_A, summary_B]"]
  by (simp add: demo_attempts successes_def failures_def summary_fields)

text \<open>
  C4: after phase 2, with the overview of phase 1 (which has at least one initiative).
  If every attempt failed, the branch asks for the failure log to be written, with the
  time, the path of the document, the overview, and one entry (id, title, error) per
  initiative in order, and fails. If some but not all failed, it asks for the partial
  results to be written, with the hierarchy of the successful initiatives and the entries
  of the failed ones, and returns that hierarchy. If none failed, it returns the hierarchy
  and writes nothing. A write that throws makes the branch fail with what it threw.
\<close>

theorem snapshot_policy:
  assumes "decomposeInitiatives rt cfg (reply 0) = Inr overview"
  shows "(let as = attempts rt cfg reply (ov_initiatives overview);
              structure =
                \<lparr>proj_title = ov_title overview, proj_description = ov_description overview,
                 techStack = ov_techStack overview, initiatives = successes as,
                 fileStructure = None, initialFiles = None\<rparr>;
              failureLog = FailureLog now prdFile overview (entries as);
              partialResults = PartialResults now prdFile structure (entries as)
          in twoPhaseBranch rt cfg writeFileSync now prdFile reply =
               (if \<forall>(s, r) \<in> set as. isl r
                then (case writeFileSync ''.p2g-failure.json'' failureLog of
                        None \<Rightarrow> Inl (Error ''All initiatives failed to generate capabilities'')
                      | Some e \<Rightarrow> Inl e,
                      [(''.p2g-failure.json'', failureLog)])
                else if \<exists>(s, r) \<in> set as. isl r
                then (case writeFileSync ''.p2g-partial.json'' partialResults of
                        None \<Rightarrow> Inr structure
                      | Some e \<Rightarrow> Inl e,
                      [(''.p2g-partial.json'', partialResults)])
                else (Inr structure, []))
             \<and> as \<noteq> []
             \<and> map fst as = ov_initiatives overview
             \<and> map ini_id (successes as) =
                 map (\<lambda>(s, r). ini_id s) (filter (\<lambda>(s, r). \<not> isl r) as)
             \<and> map entry_initiativeId (entries as) =
                 map (\<lambda>(s, r). ini_id s) (filter (\<lambda>(s, r). isl r) as))"
proof -
  let ?as = "attempts rt cfg reply (ov_initiatives overview)"
  let ?structure = "\<lparr>proj_title = ov_title overview, proj_description = ov_description overview,
                 techStack = ov_techStack overview, initiatives = successes ?as,
                 fileStructure = None, initialFiles = None\<rparr>"
  have ne: "?as \<noteq> []"
    using overview_nonempty [OF assms] by (simp add: attempts_Nil_iff)
  have run: "phase2 rt cfg reply 0 (ov_initiatives overview) ([], []) = (successes ?as, failures ?as)"
    by (simp add: phase2_general attempts_def)
  have st: "structureOf overview (successes ?as) = ?structure"
    by (simp add: structureOf_def)
  have branch: "twoPhaseBranch rt cfg writeFileSync now prdFile reply =
      (if \<forall>(s, r) \<in> set ?as. isl r
       then (case writeFileSync ''.p2g-failure.json'' (FailureLog now prdFile overview (entries ?as)) of
               None \<Rightarrow> Inl (Error ''All initiatives failed to generate capabilities'')
             | Some e \<Rightarrow> Inl e,
             [(''.p2g-failure.json'', FailureLog now prdFile overview (entries ?as))])
       else if \<exists>(s, r) \<in> set ?as. isl r
       then (case writeFileSync ''.p2g-partial.json''
                   (PartialResults now prdFile ?structure (entries ?as)) of
               None \<Rightarrow> Inr ?structure
             | Some e \<Rightarrow> Inl e,
             [(''.p2g-partial.json'', PartialResults now prdFile ?structure (entries ?as))])
       else (Inr ?structure, []))"
    unfolding twoPhaseBranch_def using assms run
    by (auto simp: successes_Nil_iff failures_Nil_iff entries_failures st Let_def
          split: option.splits)
  have fst: "map fst ?as = ov_initiatives overview"
    by (simp add: attempts_def map_fst_attempts)
  show ?thesis
    unfolding Let_def using branch ne fst successes_ids [of ?as] entries_ids [of ?as] by blast
qed

theorem snapshot_policy_witness:
  "twoPhaseBranch demo_rt demo_cfg demo_disk ''2025-01-01T00:00:00.000Z'' ''prd.md'' demo_reply =
     (Inr \<lparr>proj_title = ''P'', proj_description = ''D'',
           techStack = \<lparr>frontend = None, backend = None, database = None, testing = None,
                        deployment = None\<rparr>,
           initiatives =
             [\<lparr>ini_id = ''initiative-2'', ini_title = ''B'', ini_description = [],
               objective = ''O'', successMetrics = [], ini_priority = 2,
               capabilities = [plain_capability]\<rparr>],
           fileStructure = None, initialFiles = None\<rparr>,
      [(''.p2g-partial.json'',
        PartialResults ''2025-01-01T00:00:00.000Z'' ''prd.md''
          \<lparr>proj_title = ''P'', proj_description = ''D'',
           techStack = \<lparr>frontend = None, backend = None, database = None, testing = None,
                        deployment = None\<rparr>,
           initiatives =
             [\<lparr>ini_id = ''initiative-2'', ini_title = ''B'', ini_description = [],
               objective = ''O'', successMetrics = [], ini_priority = 2,
               capabilities = [plain_capability]\<rparr>],
           fileStructure = None, initialFiles = None\<rparr>
          [\<lparr>entry_initiativeId = ''initiative-1'', entry_initiativeTitle = ''A'',
            entry_error = ''Claude API error for initiative \"A\": overloaded''\<rparr>])])
   \<and> fst (twoPhaseBranch demo_rt demo_cfg full_disk ''2025-01-01T00:00:00.000Z'' ''prd.md''
             demo_reply) =
       Inl (Error ''ENOSPC: no space left on device, write'')
   \<and> twoPhaseBranch demo_rt demo_cfg demo_disk ''2025-01-01T00:00:00.000Z'' ''prd.md''
        failing_reply =
       (Inl (Error ''All initiatives failed to generate capabilities''),
        [(''.p2g-failure.json'',
          FailureLog ''2025-01-01T00:00:00.000Z'' ''prd.md'' demo_overview
            [\<lparr>entry_initiativeId = ''initiative-1'', entry_initiativeTitle = ''A'',
              entry_error = ''Claude API error for initiative \"A\": overloaded''\<rparr>,
             \<lparr>entry_initiativeId = ''initiative-2'', entry_initiativeTitle = ''B'',
              entry_error = ''Claude API error for initiative \"B\": overloaded''\<rparr>])])"
proof -
  note policy = snapshot_policy [where rt = demo_rt and cfg = demo_cfg and overview = demo_overview
      and now = "''2025-01-01T00:00:00.000Z''" and prdFile = "''prd.md''"]
  from policy [where reply = demo_reply and writeFileSync = demo_disk, OF demo_phase1]
  have a: "twoPhaseBranch demo_rt demo_cfg demo_disk ''2025-01-01T00:00:00.000Z'' ''prd.md'' demo_reply =
     (Inr \<lparr>proj_title = ''P'', proj_description = ''D'',
           techStack = \<lparr>frontend = None, backend = None, database = None, testing = None,
                        deployment = None\<rparr>,
           initiatives =
             [\<lparr>ini_id = ''initiative-2'', ini_title = ''B'', ini_description = [],
               objective = ''O'', successMetrics = [], ini_priority = 2,
               capabilities = [plain_capability]\<rparr>],
           fileStructure = None, initialFiles = None\<rparr>,
      [(''.p2g-partial.json'',
        PartialResults ''2025-01-01T00:00:00.000Z'' ''prd.md''
          \<lparr>proj_title = ''P'', proj_description = ''D'',
           techStack = \<lparr>frontend = None, backend = None, database = None, testing = None,
                        deployment = None\<rparr>,
           initiatives =
             [\<lparr>ini_id = ''initiative-2'', ini_title = ''B'', ini_description = [],
               objective = ''O'', successMetrics = [], ini_priority = 2,
               capabilities = [plain_capability]\<rparr>],
           fileStructure = None, initialFiles = None\<rparr>
          [\<lparr>entry_initiativeId = ''initiative-1'', entry_initiativeTitle = ''A'',
            entry_error = ''Claude API error for initiative \"A\": overloaded''\<rparr>])])"
    by (simp add: demo_overview_fields demo_attempts Let_def successes_def entries_def
          summary_fields demo_disk_def)
  from policy [where reply = demo_reply and writeFileSync = full_disk, OF demo_phase1]
  have b: "fst (twoPhaseBranch demo_rt demo_cfg full_disk ''2025-01-01T00:00:00.000Z'' ''prd.md''
             demo_reply) =
       Inl (Error ''ENOSPC: no space left on device, write'')"
    by (simp add: demo_overview_fields demo_attempts Let_def successes_def entries_def
          summary_fields full_disk_def)
  from policy [where reply = failing_reply and writeFileSync = demo_disk, OF failing_phase1]
  have c: "twoPhaseBranch demo_rt demo_cfg demo_disk ''2025-01-01T00:00:00.000Z'' ''prd.md''
        failing_reply =
       (Inl (Error ''All initiatives failed to generate capabilities''),
        [(''.p2g-failure.json'',
          FailureLog ''2025-01-01T00:00:00.000Z'' ''prd.md'' demo_overview
            [\<lparr>entry_initiativeId = ''initiative-1'', entry_initiativeTitle = ''A'',
              entry_error = ''Claude API error for initiative \"A\": overloaded''\<rparr>,
             \<lparr>entry_initiativeId = ''initiative-2'', entry_initiativeTitle = ''B'',
              entry_error = ''Claude API error for initiative \"B\": overloaded''\<rparr>])])"
    by (simp add: demo_overview_fields failing_attempts Let_def successes_def entries_def
          summary_fields demo_disk_def)
  show ?thesis using a b c by simp
qed

section \<open>Reading the document\<close>

lemma trim_Nil_iff: "trim s = [] \<longleftrightarrow> (\<forall>u \<in> set s. isWhiteSpace u)"
proof -
  have "trim s = [] \<longleftrightarrow> (\<forall>u \<in> set (dropWhile isWhiteSpace s). isWhiteSpace u)"
    by (simp add: trim_def)
  also have "\<dots> \<longleftrightarrow> dropWhile isWhiteSpace s = []"
  proof
    assume a: "\<forall>u \<in> set (dropWhile isWhiteSpace s). isWhiteSpace u"
    show "dropWhile isWhiteSpace s = []"
    proof (rule ccontr)
      assume n: "dropWhile isWhiteSpace s \<noteq> []"
      then have "\<not> isWhiteSpace (hd (dropWhile isWhiteSpace s))" by (rule hd_dropWhile)
      moreover have "hd (dropWhile isWhiteSpace s) \<in> set (dropWhile isWhiteSpace s)"
        using n by simp
      ultimately show False using a by blast
    qed
  qed (auto dest: set_dropWhileD)
  also have "\<dots> \<longleftrightarrow> (\<forall>u \<in> set s. isWhiteSpace u)" by simp
  finally show ?thesis .
qed

text \<open>
  C10: \<open>processPRD\<close> fails exactly when the file is missing, cannot be read, consists of
  white space only (the empty file included), has fewer than 100 or more than 100000
  code units; every failure is a PRDProcessorError. An accepted document is returned
  unchanged as \<open>rawContent\<close>; the title and the description are what the extractors find,
  and the two default texts when they find nothing.
\<close>

theorem processPRD_spec:
  "(isl (processPRD ex fs prdPath) \<longleftrightarrow>
      (case fs prdPath of
         Missing \<Rightarrow> True
       | Unreadable m \<Rightarrow> True
       | Readable c \<Rightarrow> (\<forall>u \<in> set c. isWhiteSpace u) \<or> length c < 100 \<or> length c > 100000))
   \<and> (\<forall>e. processPRD ex fs prdPath = Inl e \<longrightarrow> (\<exists>m. e = PRDProcessorError m))
   \<and> (\<forall>md. processPRD ex fs prdPath = Inr md \<longrightarrow>
        fs prdPath = Readable (rawContent md)
        \<and> (extractTitle ex (rawContent md) = None \<longrightarrow> prd_title md = js ''Untitled Project'')
        \<and> (extractDescription ex (rawContent md) = None \<longrightarrow>
             prd_description md = js ''No description provided'')
        \<and> (\<forall>t. extractTitle ex (rawContent md) = Some t \<and> t \<noteq> [] \<longrightarrow> prd_title md = t)
        \<and> (\<forall>d. extractDescription ex (rawContent md) = Some d \<and> d \<noteq> [] \<longrightarrow>
               prd_description md = d))"
  by (auto simp: processPRD_def trim_Nil_iff extractMetadata_def orElse_def Let_def
      split: file_state.splits)

theorem processPRD_spec_witness:
  "\<not> isl (processPRD demo_extractors demo_fs ''prd.md'')
   \<and> rawContent (projr (processPRD demo_extractors demo_fs ''prd.md'')) = replicate 100 0x61
   \<and> prd_title (projr (processPRD demo_extractors demo_fs ''prd.md'')) = js ''Untitled Project''
   \<and> prd_description (projr (processPRD demo_extractors demo_fs ''prd.md'')) = js ''about''
   \<and> isl (processPRD demo_extractors demo_fs ''missing.md'')"
proof -
  have ws: "\<not> isWhiteSpace 0x61"
    by (simp add: isWhiteSpace_def)
  have r: "demo_fs ''prd.md'' = Readable (replicate 100 0x61)"
    by (simp add: demo_fs_def)
  have m: "demo_fs ''missing.md'' = Missing"
    by (simp add: demo_fs_def)
  have ok: "\<not> isl (processPRD demo_extractors demo_fs ''prd.md'')"
    using processPRD_spec [of demo_extractors demo_fs "''prd.md''"] ws by (simp add: r)
  then obtain md where md: "processPRD demo_extractors demo_fs ''prd.md'' = Inr md"
    by (cases "processPRD demo_extractors demo_fs ''prd.md''") simp_all
  have raw: "rawContent md = replicate 100 0x61"
    using processPRD_spec [of demo_extractors demo_fs "''prd.md''"] md r by simp
  have t: "prd_title md = js ''Untitled Project''"
    using processPRD_spec [of demo_extractors demo_fs "''prd.md''"] md
    by (simp add: demo_extractors_def)
  have d: "prd_description md = js ''about''"
    using processPRD_spec [of demo_extractors demo_fs "''prd.md''"] md
    by (simp add: demo_extractors_def js_def)
  have "isl (processPRD demo_extractors demo_fs ''missing.md'')"
    using processPRD_spec [of demo_extractors demo_fs "''missing.md''"] by (simp add: m)
  then show ?thesis using ok md raw t d by simp
qed

section \<open>Materialisation: every run is staged\<close>

lemma staged_append: "staged s (a @ b) = (staged s a \<and> staged (foldl advance s a) b)"
  by (induction a arbitrary: s) simp_all

lemma calls_append [simp]: "calls (a @ b) = calls a @ calls b"
  by (induction a rule: calls.induct) simp_all

lemma created_append [simp]: "created (a @ b) = created a + created b"
  by (simp add: created_def)

lemma created_simps [simp]:
  "created [] = 0" "created (e # es) = (if isCreated e then 1 else 0) + created es"
  by (simp_all add: created_def)

lemma createParentLabel_shape:
  "\<exists>new. createParentLabel rt gh p hist = hist @ new \<and> created new = 0 \<and>
     (\<forall>s. \<not> pending s \<longrightarrow> staged s new \<and> foldl advance s new = s\<lparr>fresh := False\<rparr>)"
  by (auto simp: createParentLabel_def request_def Let_def split: sum.splits)

lemma setParent_shape:
  assumes "setParent rt gh p title d hist = (r, h)"
  shows "\<exists>new. h = hist @ new \<and> created new = 0 \<and>
     (\<forall>s. \<not> pending s \<longrightarrow> staged s new \<and> foldl advance s new = s\<lparr>fresh := False\<rparr>)"
proof (cases "gh (calls hist) (SubIssuesPost p (data_number d))")
  case (Inr linked)
  with assms show ?thesis
    by (auto simp: setParent_def request_def Let_def)
next
  case (Inl apiError)
  let ?h1 = "hist @ [Call (SubIssuesPost p (data_number d)) (Inl apiError),
                     Warned (subIssueWarning rt apiError (data_number d))]"
  obtain lab where lab: "createParentLabel rt gh p ?h1 = ?h1 @ lab" "created lab = 0"
      "\<And>s. \<not> pending s \<Longrightarrow> staged s lab \<and> foldl advance s lab = s\<lparr>fresh := False\<rparr>"
    using createParentLabel_shape [of rt gh p ?h1] by blast
  from assms Inl lab(1) show ?thesis
    by (auto simp: setParent_def request_def Let_def staged_append lab(2) lab(3) split: sum.splits)
qed

lemma createInitiativeIssue_effect:
  assumes "createInitiativeIssue rt gh initiative hist = (r, h)"
  shows "\<exists>new. h = hist @ new \<and> itemEffect (\<lambda>s. True) r new"
  using assms
  by (auto simp: createInitiativeIssue_def request_def Let_def itemEffect_def issueOf_def
      split: sum.splits)

lemma createCapabilityIssue_effect:
  assumes "createCapabilityIssue rt gh initiative capability p hist = (r, h)"
  shows "\<exists>new. h = hist @ new \<and> itemEffect (capabilityEntry initiative p) r new"
proof (cases "gh (calls hist) (IssuesCreate (''[CAPABILITY] '' @ cap_title capability)
                (formatCapabilityBody rt initiative capability p)
                (uniq ([''type:capability'', ini_id initiative, complexityText (complexity capability)]
                       @ labels capability)))")
  case (Inl e)
  with assms show ?thesis
    by (auto simp: createCapabilityIssue_def request_def Let_def itemEffect_def capabilityEntry_def)
next
  case (Inr d)
  let ?c = "IssuesCreate (''[CAPABILITY] '' @ cap_title capability)
                (formatCapabilityBody rt initiative capability p)
                (uniq ([''type:capability'', ini_id initiative, complexityText (complexity capability)]
                       @ labels capability))"
  let ?h1 = "hist @ [Invoke (CreateCapabilityIssue (ini_id initiative) (cap_id capability) p), Call ?c (Inr d)]"
  obtain r1 h1 where sp: "setParent rt gh p (ini_title initiative) d ?h1 = (r1, h1)"
    by (cases "setParent rt gh p (ini_title initiative) d ?h1") blast
  obtain new where new: "h1 = ?h1 @ new" "created new = 0"
      "\<And>s. \<not> pending s \<Longrightarrow> staged s new \<and> foldl advance s new = s\<lparr>fresh := False\<rparr>"
    using setParent_shape [OF sp] by blast
  from assms Inr sp new(1) show ?thesis
    by (auto simp: createCapabilityIssue_def request_def Let_def itemEffect_def capabilityEntry_def
        issueOf_def staged_append new(2) new(3) split: option.splits)
qed

lemma createDeliverableIssue_effect:
  assumes "createDeliverableIssue rt gh capability deliverable n hist = (r, h)"
  shows "\<exists>new. h = hist @ new \<and> itemEffect (deliverableEntry capability n) r new"
proof (cases "gh (calls hist) (IssuesCreate (''[DELIVERABLE] '' @ del_title deliverable)
                (formatDeliverableBody rt capability deliverable n)
                [''type:deliverable'', initiativeId capability])")
  case (Inl e)
  with assms show ?thesis
    by (auto simp: createDeliverableIssue_def request_def Let_def itemEffect_def deliverableEntry_def)
next
  case (Inr d)
  let ?c = "IssuesCreate (''[DELIVERABLE] '' @ del_title deliverable)
                (formatDeliverableBody rt capability deliverable n)
                [''type:deliverable'', initiativeId capability]"
  let ?h1 = "hist @ [Invoke (CreateDeliverableIssue (cap_id capability) (del_id deliverable) n), Call ?c (Inr d)]"
  obtain r1 h1 where sp: "setParent rt gh (Some n) (cap_title capability) d ?h1 = (r1, h1)"
    by (cases "setParent rt gh (Some n) (cap_title capability) d ?h1") blast
  obtain new where new: "h1 = ?h1 @ new" "created new = 0"
      "\<And>s. \<not> pending s \<Longrightarrow> staged s new \<and> foldl advance s new = s\<lparr>fresh := False\<rparr>"
    using setParent_shape [OF sp] by blast
  from assms Inr sp new(1) show ?thesis
    by (auto simp: createDeliverableIssue_def request_def Let_def itemEffect_def deliverableEntry_def
        issueOf_def staged_append new(2) new(3) split: option.splits)
qed

lemma item_step:
  assumes inv: "Inv g" and fr: "fresh (reached g)" and entry: "entry (reached g)"
    and eff: "itemEffect entry r new"
  shows "staged start (events g @ new)"
    and "\<not> pending (foldl advance start (events g @ new))"
    and "regInitiatives (foldl advance start (events g @ new)) = initiativeIdToIssueNumber g"
    and "regCapabilities (foldl advance start (events g @ new)) = capabilityIdToIssueNumber g"
    and "\<And>issue. r = Inr issue \<Longrightarrow> lastCreated (foldl advance start (events g @ new)) = Some (number issue)"
    and "\<not> isl r \<Longrightarrow> created new = 1"
  using assms unfolding Inv_def reached_def itemEffect_def
  by (simp_all add: staged_append)

lemma createInitiatives_staged:
  assumes "createInitiatives rt gh is acc g = (r, g')" and "Inv g" and "fresh (reached g)"
  shows "Inv g' \<and> capabilityIdToIssueNumber g' = capabilityIdToIssueNumber g
     \<and> dom (initiativeIdToIssueNumber g) \<subseteq> dom (initiativeIdToIssueNumber g')
     \<and> (\<forall>acc'. r = Inr acc' \<longrightarrow>
           fresh (reached g') \<and> length acc' = length acc + length is
           \<and> created (events g') = created (events g) + length is
           \<and> (\<forall>i \<in> set is. ini_id i \<in> dom (initiativeIdToIssueNumber g')))"
  using assms
proof (induction "is" arbitrary: acc g)
  case Nil
  then show ?case by auto
next
  case (Cons i rest)
  obtain r1 h where c: "createInitiativeIssue rt gh i (events g) = (r1, h)"
    by (cases "createInitiativeIssue rt gh i (events g)") blast
  obtain new where new: "h = events g @ new" "itemEffect (\<lambda>s. True) r1 new"
    using createInitiativeIssue_effect [OF c] by blast
  note st = item_step [OF Cons.prems(2) Cons.prems(3) _ new(2), simplified]
  show ?case
  proof (cases r1)
    case (Inl e)
    with Cons.prems(1) c have "g' = g\<lparr>events := h\<rparr>" "r = Inl e" by simp_all
    with st new(1) show ?thesis by (simp add: Inv_def reached_def)
  next
    case (Inr issue)
    let ?g1 = "delay 1000 (setInitiative (ini_id i) (number issue) (g\<lparr>events := h\<rparr>))"
    from Cons.prems(1) c Inr
    have rec: "createInitiatives rt gh rest (acc @ [issue]) ?g1 = (r, g')" by simp
    have ev: "events ?g1 = events g @ new @ [Registered InitiativeK (ini_id i) (number issue), Delay 1000]"
      by (simp add: delay_def setInitiative_def new(1))
    have inv1: "Inv ?g1"
      using st Inr unfolding Inv_def reached_def ev
      by (simp add: staged_append delay_def setInitiative_def flip: append_assoc)
    have fr1: "fresh (reached ?g1)"
      unfolding reached_def ev by (simp flip: append_assoc)
    have cr1: "created (events ?g1) = created (events g) + 1"
      using st(6) Inr unfolding ev by simp
    have maps: "capabilityIdToIssueNumber ?g1 = capabilityIdToIssueNumber g"
      "initiativeIdToIssueNumber ?g1 = (initiativeIdToIssueNumber g)(ini_id i \<mapsto> number issue)"
      by (simp_all add: delay_def setInitiative_def)
    from Cons.IH [OF rec inv1 fr1] maps cr1 show ?thesis
      by (auto simp: subset_iff dom_def)
  qed
qed

lemma createDeliverables_staged:
  assumes "createDeliverables rt gh capability n ds acc g = (r, g')" and "Inv g"
    and "fresh (reached g)" and "capabilityIdToIssueNumber g (cap_id capability) = Some n"
  shows "Inv g' \<and> capabilityIdToIssueNumber g' = capabilityIdToIssueNumber g
     \<and> initiativeIdToIssueNumber g' = initiativeIdToIssueNumber g
     \<and> (\<forall>acc'. r = Inr acc' \<longrightarrow>
           fresh (reached g') \<and> length acc' = length acc + length ds
           \<and> created (events g') = created (events g) + length ds)"
  using assms
proof (induction ds arbitrary: acc g)
  case Nil
  then show ?case by auto
next
  case (Cons d rest)
  obtain r1 h where c: "createDeliverableIssue rt gh capability d n (events g) = (r1, h)"
    by (cases "createDeliverableIssue rt gh capability d n (events g)") blast
  obtain new where new: "h = events g @ new" "itemEffect (deliverableEntry capability n) r1 new"
    using createDeliverableIssue_effect [OF c] by blast
  have entry: "deliverableEntry capability n (reached g)"
    using Cons.prems(2,4) by (simp add: deliverableEntry_def Inv_def)
  note st = item_step [OF Cons.prems(2) Cons.prems(3) entry new(2)]
  show ?case
  proof (cases r1)
    case (Inl e)
    with Cons.prems(1) c have "g' = g\<lparr>events := h\<rparr>" "r = Inl e" by simp_all
    with st new(1) show ?thesis by (simp add: Inv_def reached_def)
  next
    case (Inr issue)
    let ?g1 = "delay 1000 (setDeliverable (del_id d) (number issue) (g\<lparr>events := h\<rparr>))"
    from Cons.prems(1) c Inr
    have rec: "createDeliverables rt gh capability n rest (acc @ [issue]) ?g1 = (r, g')" by simp
    have ev: "events ?g1 = events g @ new @ [Registered DeliverableK (del_id d) (number issue), Delay 1000]"
      by (simp add: delay_def setDeliverable_def new(1))
    have inv1: "Inv ?g1"
      using st Inr unfolding Inv_def reached_def ev
      by (simp add: staged_append delay_def setDeliverable_def flip: append_assoc)
    have fr1: "fresh (reached ?g1)"
      unfolding reached_def ev by (simp flip: append_assoc)
    have cr1: "created (events ?g1) = created (events g) + 1"
      using st(6) Inr unfolding ev by simp
    have maps: "capabilityIdToIssueNumber ?g1 = capabilityIdToIssueNumber g"
      "initiativeIdToIssueNumber ?g1 = initiativeIdToIssueNumber g"
      by (simp_all add: delay_def setDeliverable_def)
    from Cons.IH [OF rec inv1 fr1] maps cr1 Cons.prems(4) show ?thesis
      by auto
  qed
qed

lemma createCapabilities_staged:
  assumes "createCapabilities rt gh initiative p cs acc g = (r, g')" and "Inv g"
    and "fresh (reached g)" and "p \<noteq> None" and "initiativeIdToIssueNumber g (ini_id initiative) = p"
  shows "Inv g' \<and> initiativeIdToIssueNumber g' = initiativeIdToIssueNumber g
     \<and> (\<forall>acc'. r = Inr acc' \<longrightarrow>
           fresh (reached g')
           \<and> length acc' = length acc + sum_list (map itemsOfCapability cs)
           \<and> created (events g') = created (events g) + sum_list (map itemsOfCapability cs))"
  using assms
proof (induction cs arbitrary: acc g)
  case Nil
  then show ?case by auto
next
  case (Cons c rest)
  obtain r1 h where c: "createCapabilityIssue rt gh initiative c p (events g) = (r1, h)"
    by (cases "createCapabilityIssue rt gh initiative c p (events g)") blast
  obtain new where new: "h = events g @ new" "itemEffect (capabilityEntry initiative p) r1 new"
    using createCapabilityIssue_effect [OF c] by blast
  have entry: "capabilityEntry initiative p (reached g)"
    using Cons.prems(2,4,5) by (simp add: capabilityEntry_def Inv_def)
  note st = item_step [OF Cons.prems(2) Cons.prems(3) entry new(2)]
  show ?case
  proof (cases r1)
    case (Inl e)
    with Cons.prems(1) c have "g' = g\<lparr>events := h\<rparr>" "r = Inl e" by simp_all
    with st new(1) show ?thesis by (simp add: Inv_def reached_def)
  next
    case (Inr issue)
    let ?g1 = "delay 1000 (setCapability (cap_id c) (number issue) (g\<lparr>events := h\<rparr>))"
    have ev: "events ?g1 = events g @ new @ [Registered CapabilityK (cap_id c) (number issue), Delay 1000]"
      by (simp add: delay_def setCapability_def new(1))
    have inv1: "Inv ?g1"
      using st Inr unfolding Inv_def reached_def ev
      by (simp add: staged_append delay_def setCapability_def flip: append_assoc)
    have fr1: "fresh (reached ?g1)"
      unfolding reached_def ev by (simp flip: append_assoc)
    have cr1: "created (events ?g1) = created (events g) + 1"
      using st(6) Inr unfolding ev by simp
    have maps: "capabilityIdToIssueNumber ?g1 (cap_id c) = Some (number issue)"
      "initiativeIdToIssueNumber ?g1 = initiativeIdToIssueNumber g"
      by (simp_all add: delay_def setCapability_def)
    show ?thesis
    proof (cases "shouldCreateSubIssues c \<and> length (deliverables c) > 0")
      case False
      with Cons.prems(1) c Inr
      have rec: "createCapabilities rt gh initiative p rest (acc @ [issue]) ?g1 = (r, g')"
        by (auto simp: Let_def split: if_splits)
      have p1: "initiativeIdToIssueNumber ?g1 (ini_id initiative) = p"
        using maps(2) Cons.prems(5) by simp
      from Cons.IH [OF rec inv1 fr1 Cons.prems(4) p1] maps cr1 False show ?thesis
        by (auto simp: itemsOfCapability_def)
    next
      case True
      obtain r2 g2 where d: "createDeliverables rt gh c (number issue) (deliverables c)
                               (acc @ [issue]) ?g1 = (r2, g2)"
        by (cases "createDeliverables rt gh c (number issue) (deliverables c) (acc @ [issue]) ?g1") blast
      note ds = createDeliverables_staged [OF d inv1 fr1 maps(1)]
      show ?thesis
      proof (cases r2)
        case (Inl e)
        with Cons.prems(1) c Inr True d have "g' = g2" "r = Inl e" by (simp_all add: Let_def)
        with ds maps show ?thesis by simp
      next
        case (Inr pushed)
        with Cons.prems(1) c \<open>r1 = Inr issue\<close> True d
        have rec: "createCapabilities rt gh initiative p rest pushed g2 = (r, g')"
          by (simp add: Let_def)
        have inv2: "Inv g2" and fr2: "fresh (reached g2)"
          and len2: "length pushed = length acc + 1 + length (deliverables c)"
          and cr2: "created (events g2) = created (events g) + 1 + length (deliverables c)"
          and p2: "initiativeIdToIssueNumber g2 (ini_id initiative) = p"
          using ds Inr cr1 maps(2) Cons.prems(5) by simp_all
        have same: "initiativeIdToIssueNumber g2 = initiativeIdToIssueNumber g"
          using ds maps(2) by simp
        from Cons.IH [OF rec inv2 fr2 Cons.prems(4) p2] len2 cr2 same True show ?thesis
          by (auto simp: itemsOfCapability_def)
      qed
    qed
  qed
qed

lemma capabilityPass_staged:
  assumes "capabilityPass rt gh is acc g = (r, g')" and "Inv g" and "fresh (reached g)"
    and "\<forall>i \<in> set is. ini_id i \<in> dom (initiativeIdToIssueNumber g)"
  shows "Inv g' \<and> initiativeIdToIssueNumber g' = initiativeIdToIssueNumber g
     \<and> (\<forall>acc'. r = Inr acc' \<longrightarrow>
           fresh (reached g')
           \<and> length acc' = length acc + sum_list (map itemsOfInitiative is)
           \<and> created (events g') = created (events g) + sum_list (map itemsOfInitiative is))"
  using assms
proof (induction "is" arbitrary: acc g)
  case Nil
  then show ?case by auto
next
  case (Cons i rest)
  let ?p = "initiativeIdToIssueNumber g (ini_id i)"
  obtain r1 g1 where c: "createCapabilities rt gh i ?p (capabilities i) acc g = (r1, g1)"
    by (cases "createCapabilities rt gh i ?p (capabilities i) acc g") blast
  have pn: "?p \<noteq> None" using Cons.prems(4) by auto
  note cs = createCapabilities_staged [OF c Cons.prems(2) Cons.prems(3) pn refl]
  show ?case
  proof (cases r1)
    case (Inl e)
    with Cons.prems(1) c have "g' = g1" "r = Inl e" by simp_all
    with cs show ?thesis by simp
  next
    case (Inr pushed)
    with Cons.prems(1) c have rec: "capabilityPass rt gh rest pushed g1 = (r, g')" by simp
    have inv1: "Inv g1" and fr1: "fresh (reached g1)"
      and same: "initiativeIdToIssueNumber g1 = initiativeIdToIssueNumber g"
      using cs Inr by simp_all
    have dom1: "\<forall>i \<in> set rest. ini_id i \<in> dom (initiativeIdToIssueNumber g1)"
      using Cons.prems(4) same by simp
    from Cons.IH [OF rec inv1 fr1 dom1] cs Inr same show ?thesis
      by (auto simp: itemsOfInitiative_def)
  qed
qed

lemma quietEffect_Nil [simp]: "quietEffect []"
  by (simp add: quietEffect_def)

lemma quietEffect_append: "quietEffect a \<Longrightarrow> quietEffect b \<Longrightarrow> quietEffect (a @ b)"
  by (simp add: quietEffect_def staged_append)

lemma numberOf_lookupNumber: "numberOf numbers i = lookupNumber numbers i"
  by (auto simp: numberOf_def lookupNumber_def split: option.splits)

lemma resolvable_Nil [simp]: "resolvable numbers [] = []"
  by (simp add: resolvable_def)

lemma resolvable_Cons:
  "resolvable numbers (d # rest) =
     (case lookupNumber numbers d of
        None \<Rightarrow> resolvable numbers rest
      | Some n \<Rightarrow> n # resolvable numbers rest)"
  by (simp add: resolvable_def numberOf_lookupNumber List.map_filter_simps split: option.splits)

lemma joinWith_listed: "joinWith '', '' xs = listed xs"
  by (induction "'', ''" xs rule: joinWith.induct) simp_all

lemma quietEffect_linkWarning: "quietEffect [linkWarning e]"
  by (simp add: quietEffect_def linkWarning_def)

lemma tryLink_shape:
  assumes "tryLink gh d n hist = (r, h)"
  shows "\<exists>new. h = hist @ new \<and> quietEffect new
           \<and> (case r of
                 None \<Rightarrow> edgeLinked d n True new
               | Some e \<Rightarrow> edgeLinked d n False (new @ [linkWarning e]))"
proof (cases "gh (calls hist) (IssuesGet d)")
  case (Inl e)
  with assms show ?thesis
    by (auto simp: tryLink_def request_def Let_def quietEffect_def edgeLinked_def)
next
  case source: (Inr source)
  let ?h1 = "hist @ [Attempt d n, Call (IssuesGet d) (Inr source)]"
  show ?thesis
  proof (cases "gh (calls ?h1) (IssuesGet n)")
    case (Inl e)
    with assms source show ?thesis
      by (auto simp: tryLink_def request_def Let_def quietEffect_def edgeLinked_def)
  next
    case target: (Inr target)
    let ?h2 = "?h1 @ [Call (IssuesGet n) (Inr target)]"
    show ?thesis
    proof (cases "gh (calls ?h2) (GraphqlBlocks (node_id source) (node_id target))")
      case (Inl e)
      with assms source target show ?thesis
        by (auto simp: tryLink_def request_def Let_def quietEffect_def edgeLinked_def)
    next
      case (Inr linked)
      with assms source target show ?thesis
        by (auto simp: tryLink_def request_def Let_def quietEffect_def edgeLinked_def)
    qed
  qed
qed

lemma linkEdges_shape:
  assumes "linkEdges rt gh numbers n deps (refs, linked) hist = ((refs', linked'), h)"
  shows "\<exists>new l. h = hist @ new \<and> quietEffect new
           \<and> edgesLinked n (resolvable numbers deps) l new
           \<and> refs' = refs @ map (\<lambda>d. ''#'' @ num rt d) (resolvable numbers deps)
           \<and> (linked' \<noteq> [] \<longleftrightarrow> linked \<noteq> [] \<or> l)"
  using assms
proof (induction deps arbitrary: refs linked hist)
  case Nil
  then show ?case by auto
next
  case (Cons depId rest)
  show ?case
  proof (cases "lookupNumber numbers depId")
    case None
    with Cons.prems have "linkEdges rt gh numbers n rest (refs, linked) hist = ((refs', linked'), h)"
      by simp
    from Cons.IH [OF this] None show ?thesis
      by (simp add: resolvable_Cons)
  next
    case (Some depNumber)
    have res: "resolvable numbers (depId # rest) = depNumber # resolvable numbers rest"
      using Some by (simp add: resolvable_Cons)
    obtain r1 h1 where t: "tryLink gh depNumber n hist = (r1, h1)"
      by (cases "tryLink gh depNumber n hist") blast
    obtain new1 where new1: "h1 = hist @ new1" "quietEffect new1"
        "case r1 of None \<Rightarrow> edgeLinked depNumber n True new1
         | Some e \<Rightarrow> edgeLinked depNumber n False (new1 @ [linkWarning e])"
      using tryLink_shape [OF t] by blast
    define first where
      "first = new1 @ (case r1 of None \<Rightarrow> [] | Some e \<Rightarrow> [linkWarning e])"
    define linked1 where
      "linked1 = (case r1 of None \<Rightarrow> linked @ [depNumber] | Some e \<Rightarrow> linked)"
    have first: "edgeLinked depNumber n (r1 = None) first" "quietEffect first"
      using new1(2,3)
      by (auto simp: first_def quietEffect_linkWarning quietEffect_append split: option.splits)
    from Cons.prems Some t new1(1)
    have rec: "linkEdges rt gh numbers n rest (refs @ [''#'' @ num rt depNumber], linked1)
                 (hist @ first) = ((refs', linked'), h)"
      by (auto simp: first_def linked1_def linkWarning_def split: option.splits)
    from Cons.IH [OF rec] obtain new2 l2 where new2: "h = (hist @ first) @ new2" "quietEffect new2"
        "edgesLinked n (resolvable numbers rest) l2 new2"
        "refs' = (refs @ [''#'' @ num rt depNumber]) @ map (\<lambda>d. ''#'' @ num rt d) (resolvable numbers rest)"
        "linked' \<noteq> [] \<longleftrightarrow> linked1 \<noteq> [] \<or> l2"
      by blast
    have a: "h = hist @ (first @ new2)" using new2(1) by simp
    have b: "quietEffect (first @ new2)" using first(2) new2(2) by (rule quietEffect_append)
    have c: "edgesLinked n (resolvable numbers (depId # rest)) (r1 = None \<or> l2) (first @ new2)"
      unfolding res edgesLinked.simps using first(1) new2(3) by blast
    have d: "refs' = refs @ map (\<lambda>d. ''#'' @ num rt d) (resolvable numbers (depId # rest))"
      unfolding res new2(4) by simp
    have e: "linked' \<noteq> [] \<longleftrightarrow> linked \<noteq> [] \<or> (r1 = None \<or> l2)"
      using new2(5) by (auto simp: linked1_def split: option.splits)
    show ?thesis using a b c d e by blast
  qed
qed

lemma linkDependencies_shape:
  assumes "linkDependencies rt gh noun numbers itemId deps hist = (r, h)"
  shows "\<exists>new. h = hist @ new \<and> quietEffect new \<and> itemLinked rt noun numbers itemId deps r new"
proof (cases "lookupNumber numbers itemId")
  case None
  with assms have "h = hist" "r = Inr ()"
    by (auto simp: linkDependencies_def split: if_splits)
  with None show ?thesis by (simp add: itemLinked_def numberOf_lookupNumber)
next
  case (Some issueNumber)
  obtain refs linked h1 where e: "linkEdges rt gh numbers issueNumber deps ([], []) hist = ((refs, linked), h1)"
    by (cases "linkEdges rt gh numbers issueNumber deps ([], []) hist") auto
  obtain edges l where edges: "h1 = hist @ edges" "quietEffect edges"
      "edgesLinked issueNumber (resolvable numbers deps) l edges"
      "refs = map (\<lambda>d. ''#'' @ num rt d) (resolvable numbers deps)"
      "linked \<noteq> [] \<longleftrightarrow> l"
    using linkEdges_shape [OF e] by auto
  show ?thesis
  proof (cases "resolvable numbers deps = []")
    case True
    then have "refs = []" "edges = []" using edges(3,4) by simp_all
    with assms Some e edges(1) have "h = hist" "r = Inr ()"
      by (auto simp: linkDependencies_def split: if_splits)
    with Some True show ?thesis by (simp add: itemLinked_def numberOf_lookupNumber)
  next
    case False
    then have ne: "refs \<noteq> []" "deps \<noteq> []" using edges(4) by auto
    define body where "body = commentText rt noun l (resolvable numbers deps)"
    have body: "commentBody noun refs linked = body"
      using edges(4,5)
      by (auto simp: commentBody_def commentText_def body_def joinWith_listed num_def)
    define answer where "answer = gh (calls h1) (IssuesCreateComment issueNumber body)"
    define tail where "tail = [Call (IssuesCreateComment issueNumber body) answer]
                               @ (case answer of Inl e \<Rightarrow> [] | Inr d \<Rightarrow> [Delay 1000])"
    have res: "h = h1 @ tail"
         "r = (case answer of Inl e \<Rightarrow> Inl (RequestError (status e) (message e)) | Inr d \<Rightarrow> Inr ())"
      using assms Some e ne body
      by (auto simp: linkDependencies_def request_def Let_def answer_def tail_def split: sum.splits)
    have q: "quietEffect tail"
      by (cases answer) (simp_all add: quietEffect_def tail_def)
    have "h = hist @ (edges @ tail)" using res(1) edges(1) by simp
    moreover have "quietEffect (edges @ tail)" using edges(2) q by (rule quietEffect_append)
    moreover have "itemLinked rt noun numbers itemId deps r (edges @ tail)"
      unfolding itemLinked_def numberOf_lookupNumber Some option.case
      using False edges(3) res(2) by (auto simp: tail_def body_def)
    ultimately show ?thesis by blast
  qed
qed

lemma capabilityDependencies_quiet:
  "capabilityDependencies rt gh m cs hist = (r, h) \<Longrightarrow> \<exists>new. h = hist @ new \<and> quietEffect new"
proof (induction cs arbitrary: hist)
  case Nil
  then show ?case by auto
next
  case (Cons c rest)
  obtain r1 h1 where l: "linkDependencies rt gh ''capability'' m (cap_id c) (cap_dependencies c) hist = (r1, h1)"
    by (cases "linkDependencies rt gh ''capability'' m (cap_id c) (cap_dependencies c) hist") blast
  obtain new1 where new1: "h1 = hist @ new1" "quietEffect new1"
    using linkDependencies_shape [OF l] by blast
  show ?case
  proof (cases r1)
    case (Inl e)
    with Cons.prems l new1 show ?thesis by auto
  next
    case (Inr u)
    with Cons.prems l have "capabilityDependencies rt gh m rest h1 = (r, h)" by simp
    from Cons.IH [OF this] obtain new2 where "h = h1 @ new2" "quietEffect new2" by blast
    with new1 have "h = hist @ (new1 @ new2)" "quietEffect (new1 @ new2)"
      by (simp_all add: quietEffect_append)
    then show ?thesis by blast
  qed
qed

lemma capabilityDependenciesOf_quiet:
  "capabilityDependenciesOf rt gh m is hist = (r, h) \<Longrightarrow> \<exists>new. h = hist @ new \<and> quietEffect new"
proof (induction "is" arbitrary: hist)
  case Nil
  then show ?case by auto
next
  case (Cons i rest)
  obtain r1 h1 where l: "capabilityDependencies rt gh m (capabilities i) hist = (r1, h1)"
    by (cases "capabilityDependencies rt gh m (capabilities i) hist") blast
  obtain new1 where new1: "h1 = hist @ new1" "quietEffect new1"
    using capabilityDependencies_quiet [OF l] by blast
  show ?case
  proof (cases r1)
    case (Inl e)
    with Cons.prems l new1 show ?thesis by auto
  next
    case (Inr u)
    with Cons.prems l have "capabilityDependenciesOf rt gh m rest h1 = (r, h)" by simp
    from Cons.IH [OF this] obtain new2 where "h = h1 @ new2" "quietEffect new2" by blast
    with new1 have "h = hist @ (new1 @ new2)" "quietEffect (new1 @ new2)"
      by (simp_all add: quietEffect_append)
    then show ?thesis by blast
  qed
qed

lemma deliverableDependencies_quiet:
  "deliverableDependencies rt gh m ds hist = (r, h) \<Longrightarrow> \<exists>new. h = hist @ new \<and> quietEffect new"
proof (induction ds arbitrary: hist)
  case Nil
  then show ?case by auto
next
  case (Cons d rest)
  obtain r1 h1 where l: "linkDependencies rt gh ''deliverable'' m (del_id d) (del_dependencies d) hist = (r1, h1)"
    by (cases "linkDependencies rt gh ''deliverable'' m (del_id d) (del_dependencies d) hist") blast
  obtain new1 where new1: "h1 = hist @ new1" "quietEffect new1"
    using linkDependencies_shape [OF l] by blast
  show ?case
  proof (cases r1)
    case (Inl e)
    with Cons.prems l new1 show ?thesis by auto
  next
    case (Inr u)
    with Cons.prems l have "deliverableDependencies rt gh m rest h1 = (r, h)" by simp
    from Cons.IH [OF this] obtain new2 where "h = h1 @ new2" "quietEffect new2" by blast
    with new1 have "h = hist @ (new1 @ new2)" "quietEffect (new1 @ new2)"
      by (simp_all add: quietEffect_append)
    then show ?thesis by blast
  qed
qed

lemma deliverableDependenciesIn_quiet:
  "deliverableDependenciesIn rt gh m cs hist = (r, h) \<Longrightarrow> \<exists>new. h = hist @ new \<and> quietEffect new"
proof (induction cs arbitrary: hist)
  case Nil
  then show ?case by auto
next
  case (Cons c rest)
  show ?case
  proof (cases "shouldCreateSubIssues c")
    case False
    with Cons.prems have "deliverableDependenciesIn rt gh m rest hist = (r, h)" by simp
    from Cons.IH [OF this] show ?thesis .
  next
    case True
    obtain r1 h1 where l: "deliverableDependencies rt gh m (deliverables c) hist = (r1, h1)"
      by (cases "deliverableDependencies rt gh m (deliverables c) hist") blast
    obtain new1 where new1: "h1 = hist @ new1" "quietEffect new1"
      using deliverableDependencies_quiet [OF l] by blast
    show ?thesis
    proof (cases r1)
      case (Inl e)
      with Cons.prems l new1 True show ?thesis by auto
    next
      case (Inr u)
      with Cons.prems l True have "deliverableDependenciesIn rt gh m rest h1 = (r, h)" by simp
      from Cons.IH [OF this] obtain new2 where "h = h1 @ new2" "quietEffect new2" by blast
      with new1 have "h = hist @ (new1 @ new2)" "quietEffect (new1 @ new2)"
        by (simp_all add: quietEffect_append)
      then show ?thesis by blast
    qed
  qed
qed

lemma deliverableDependenciesOf_quiet:
  "deliverableDependenciesOf rt gh m is hist = (r, h) \<Longrightarrow> \<exists>new. h = hist @ new \<and> quietEffect new"
proof (induction "is" arbitrary: hist)
  case Nil
  then show ?case by auto
next
  case (Cons i rest)
  obtain r1 h1 where l: "deliverableDependenciesIn rt gh m (capabilities i) hist = (r1, h1)"
    by (cases "deliverableDependenciesIn rt gh m (capabilities i) hist") blast
  obtain new1 where new1: "h1 = hist @ new1" "quietEffect new1"
    using deliverableDependenciesIn_quiet [OF l] by blast
  show ?case
  proof (cases r1)
    case (Inl e)
    with Cons.prems l new1 show ?thesis by auto
  next
    case (Inr u)
    with Cons.prems l have "deliverableDependenciesOf rt gh m rest h1 = (r, h)" by simp
    from Cons.IH [OF this] obtain new2 where "h = h1 @ new2" "quietEffect new2" by blast
    with new1 have "h = hist @ (new1 @ new2)" "quietEffect (new1 @ new2)"
      by (simp_all add: quietEffect_append)
    then show ?thesis by blast
  qed
qed

lemma quiet_step:
  assumes "Inv g" and "quietEffect new"
  shows "Inv (g\<lparr>events := events g @ new\<rparr>)"
    and "created (events g @ new) = created (events g)"
  using assms unfolding Inv_def reached_def quietEffect_def
  by (simp_all add: staged_append)

lemma Inv_newGenerator: "Inv newGenerator" "fresh (reached newGenerator)"
  by (simp_all add: Inv_def reached_def newGenerator_def start_def)

lemma generateIssues_staged:
  assumes "generateIssues rt gh project newGenerator = (r, g')"
  shows "Inv g' \<and> (\<forall>issues. r = Inr issues \<longrightarrow>
            length issues = itemCount project \<and> created (events g') = itemCount project)"
proof -
  obtain r1 g1 where p1: "createInitiatives rt gh (initiatives project) [] newGenerator = (r1, g1)"
    by (cases "createInitiatives rt gh (initiatives project) [] newGenerator") blast
  note s1 = createInitiatives_staged [OF p1 Inv_newGenerator]
  show ?thesis
  proof (cases r1)
    case (Inl e)
    with assms p1 have "g' = g1" "r = Inl e" by (simp_all add: generateIssues_def)
    with s1 show ?thesis by simp
  next
    case (Inr pushed1)
    obtain r2 g2 where p2: "capabilityPass rt gh (initiatives project) pushed1 g1 = (r2, g2)"
      by (cases "capabilityPass rt gh (initiatives project) pushed1 g1") blast
    have inv1: "Inv g1" and fr1: "fresh (reached g1)"
      and dom1: "\<forall>i \<in> set (initiatives project). ini_id i \<in> dom (initiativeIdToIssueNumber g1)"
      and len1: "length pushed1 = length (initiatives project)"
      and cr1: "created (events g1) = length (initiatives project)"
      using s1 Inr by (simp_all add: newGenerator_def)
    note s2 = capabilityPass_staged [OF p2 inv1 fr1 dom1]
    show ?thesis
    proof (cases r2)
      case (Inl e)
      with assms p1 \<open>r1 = Inr pushed1\<close> p2 have "g' = g2" "r = Inl e"
        by (simp_all add: generateIssues_def)
      with s2 show ?thesis by simp
    next
      case (Inr allIssues)
      have inv2: "Inv g2" and len2: "length allIssues = itemCount project"
        and cr2: "created (events g2) = itemCount project"
        using s2 Inr len1 cr1 by (simp_all add: itemCount_def)
      obtain r3 h3 where p3: "capabilityDependenciesOf rt gh (capabilityIdToIssueNumber g2)
                                (initiatives project) (events g2) = (r3, h3)"
        by (cases "capabilityDependenciesOf rt gh (capabilityIdToIssueNumber g2)
                                (initiatives project) (events g2)") blast
      obtain new3 where new3: "h3 = events g2 @ new3" "quietEffect new3"
        using capabilityDependenciesOf_quiet [OF p3] by blast
      let ?g3 = "g2\<lparr>events := h3\<rparr>"
      have inv3: "Inv ?g3" and cr3: "created (events ?g3) = itemCount project"
        using quiet_step [OF inv2 new3(2)] new3(1) cr2 by simp_all
      show ?thesis
      proof (cases r3)
        case (Inl e)
        with assms p1 \<open>r1 = Inr pushed1\<close> p2 \<open>r2 = Inr allIssues\<close> p3
        have "g' = ?g3" "r = Inl e"
          by (simp_all add: generateIssues_def updateCapabilityDependencies_def)
        with inv3 show ?thesis by simp
      next
        case (Inr u)
        obtain r4 h4 where p4: "deliverableDependenciesOf rt gh (deliverableIdToIssueNumber ?g3)
                                  (initiatives project) (events ?g3) = (r4, h4)"
          by (cases "deliverableDependenciesOf rt gh (deliverableIdToIssueNumber ?g3)
                                  (initiatives project) (events ?g3)") blast
        obtain new4 where new4: "h4 = events ?g3 @ new4" "quietEffect new4"
          using deliverableDependenciesOf_quiet [OF p4] by blast
        let ?g4 = "?g3\<lparr>events := h4\<rparr>"
        have inv4: "Inv ?g4" and cr4: "created (events ?g4) = itemCount project"
          using quiet_step [OF inv3 new4(2)] new4(1) cr3 by simp_all
        from assms p1 \<open>r1 = Inr pushed1\<close> p2 \<open>r2 = Inr allIssues\<close> p3 Inr p4
        have res: "g' = ?g4" "r = (case r4 of Inl e \<Rightarrow> Inl e | Inr u' \<Rightarrow> Inr allIssues)"
          by (auto simp: generateIssues_def updateCapabilityDependencies_def
                updateDeliverableDependencies_def split: sum.splits)
        show ?thesis
          unfolding res using inv4 cr4 len2 by (auto split: sum.splits)
      qed
    qed
  qed
qed


lemma staged_createsDelayed: "staged s es \<Longrightarrow> createsDelayed (fresh s) es"
proof (induction es arbitrary: s)
  case Nil
  show ?case by simp
next
  case (Cons e es)
  from Cons.prems have p: "permitted s e" and rest: "staged (advance s e) es" by simp_all
  note ih = Cons.IH [OF rest]
  show ?case
  proof (cases e)
    case (Registered k i n)
    with ih show ?thesis by (cases k) simp_all
  qed (use ih p in simp_all)
qed

lemma permitted_pending: "pending s \<Longrightarrow> permitted s e \<Longrightarrow> e = Delay 1000"
  by (cases "(s, e)" rule: permitted.cases) auto

lemma staged_commentsDelayed:
  "staged s es \<Longrightarrow> \<not> pending (foldl advance s es) \<Longrightarrow> commentsDelayed es"
proof (induction es arbitrary: s)
  case Nil
  show ?case by simp
next
  case (Cons e es)
  from Cons.prems have p: "permitted s e" and rest: "staged (advance s e) es"
    and fin: "\<not> pending (foldl advance (advance s e) es)" by simp_all
  note ih = Cons.IH [OF rest fin]
  show ?case
  proof (cases e)
    case (Call c r)
    show ?thesis
    proof (cases "isCommentCall c \<and> \<not> isl r")
      case False
      with Call ih show ?thesis by auto
    next
      case True
      then have pend: "pending (advance s e)" using Call by simp
      have "case es of Delay ms # rest \<Rightarrow> ms = 1000 | _ \<Rightarrow> False"
      proof (cases es)
        case Nil
        with fin pend show ?thesis by simp
      next
        case (Cons e' es')
        with rest have "permitted (advance s e) e'" by simp
        with pend have "e' = Delay 1000" by (rule permitted_pending)
        with Cons show ?thesis by simp
      qed
      with Call ih show ?thesis by simp
    qed
  qed (use ih in simp_all)
qed




















lemma createInitiatives_append:
  "createInitiatives rt gh (xs @ ys) acc g =
     (case createInitiatives rt gh xs acc g of
        (Inl e, g1) \<Rightarrow> (Inl e, g1)
      | (Inr pushed, g1) \<Rightarrow> createInitiatives rt gh ys pushed g1)"
  by (induction xs arbitrary: acc g) (auto split: prod.splits sum.splits)

subsection \<open>The dependency passes, item by item\<close>

lemma capabilityDependencies_append:
  "capabilityDependencies rt gh m (xs @ ys) h =
     (case capabilityDependencies rt gh m xs h of
        (Inl e, h1) \<Rightarrow> (Inl e, h1)
      | (Inr u, h1) \<Rightarrow> capabilityDependencies rt gh m ys h1)"
  by (induction xs arbitrary: h) (auto split: prod.splits sum.splits)

lemma deliverableDependencies_append:
  "deliverableDependencies rt gh m (xs @ ys) h =
     (case deliverableDependencies rt gh m xs h of
        (Inl e, h1) \<Rightarrow> (Inl e, h1)
      | (Inr u, h1) \<Rightarrow> deliverableDependencies rt gh m ys h1)"
  by (induction xs arbitrary: h) (auto split: prod.splits sum.splits)

lemma capabilityDependenciesOf_flat:
  "capabilityDependenciesOf rt gh m is h =
     capabilityDependencies rt gh m (concat (map capabilities is)) h"
  by (induction "is" arbitrary: h)
     (auto simp: capabilityDependencies_append split: prod.splits sum.splits)

lemma deliverableDependenciesIn_flat:
  "deliverableDependenciesIn rt gh m cs h =
     deliverableDependencies rt gh m (concat (map deliverables (filter shouldCreateSubIssues cs))) h"
  by (induction cs arbitrary: h)
     (auto simp: deliverableDependencies_append split: prod.splits sum.splits)

lemma deliverableDependenciesOf_flat:
  "deliverableDependenciesOf rt gh m is h =
     deliverableDependencies rt gh m
       (concat (map deliverables (filter shouldCreateSubIssues (concat (map capabilities is))))) h"
  by (induction "is" arbitrary: h)
     (auto simp: deliverableDependencies_append deliverableDependenciesIn_flat
        split: prod.splits sum.splits)

lemma capabilityItems_flat:
  "capabilityItems project =
     map (\<lambda>c. (cap_id c, cap_dependencies c)) (concat (map capabilities (initiatives project)))"
  by (simp add: capabilityItems_def map_concat comp_def concat_map_singleton)

lemma deliverableItems_flat:
  "deliverableItems project =
     map (\<lambda>d. (del_id d, del_dependencies d))
       (concat (map deliverables
          (filter shouldCreateSubIssues (concat (map capabilities (initiatives project))))))"
proof -
  have inner: "concat (map (\<lambda>c. if shouldCreateSubIssues c
                  then map (\<lambda>d. (del_id d, del_dependencies d)) (deliverables c) else []) cs)
      = map (\<lambda>d. (del_id d, del_dependencies d))
          (concat (map deliverables (filter shouldCreateSubIssues cs)))" for cs
    by (induction cs) simp_all
  have "concat (map (\<lambda>i. concat (map (\<lambda>c. if shouldCreateSubIssues c
                  then map (\<lambda>d. (del_id d, del_dependencies d)) (deliverables c) else [])
                  (capabilities i))) is)
      = map (\<lambda>d. (del_id d, del_dependencies d))
          (concat (map deliverables (filter shouldCreateSubIssues (concat (map capabilities is)))))" for "is"
    by (induction "is") (simp_all add: inner)
  then show ?thesis by (simp add: deliverableItems_def)
qed

lemma capabilityDependencies_linked:
  "capabilityDependencies rt gh m cs hist = (r, h) \<Longrightarrow>
   \<exists>new. h = hist @ new
     \<and> itemsLinked rt ''capability'' m (map (\<lambda>c. (cap_id c, cap_dependencies c)) cs) r new"
proof (induction cs arbitrary: hist)
  case Nil
  then show ?case by auto
next
  case (Cons c rest)
  obtain r1 h1 where l: "linkDependencies rt gh ''capability'' m (cap_id c) (cap_dependencies c) hist = (r1, h1)"
    by (cases "linkDependencies rt gh ''capability'' m (cap_id c) (cap_dependencies c) hist") blast
  obtain new1 where new1: "h1 = hist @ new1"
      "itemLinked rt ''capability'' m (cap_id c) (cap_dependencies c) r1 new1"
    using linkDependencies_shape [OF l] by blast
  show ?case
  proof (cases r1)
    case (Inl e)
    with Cons.prems l have "h = h1" "r = Inl e" by simp_all
    have "itemsLinked rt ''capability'' m
            ((cap_id c, cap_dependencies c) # map (\<lambda>c. (cap_id c, cap_dependencies c)) rest) (Inl e) new1"
      unfolding itemsLinked.simps
      by (rule exI [of _ new1], rule exI [of _ "[]"], rule exI [of _ "Inl e"])
         (use new1(2) Inl in simp)
    with new1(1) \<open>h = h1\<close> \<open>r = Inl e\<close> show ?thesis by simp
  next
    case (Inr u)
    with Cons.prems l have "capabilityDependencies rt gh m rest h1 = (r, h)" by simp
    from Cons.IH [OF this] obtain new2 where new2: "h = h1 @ new2"
        "itemsLinked rt ''capability'' m (map (\<lambda>c. (cap_id c, cap_dependencies c)) rest) r new2"
      by blast
    have "h = hist @ (new1 @ new2)" using new1(1) new2(1) by simp
    moreover have "itemsLinked rt ''capability'' m
                     (map (\<lambda>c. (cap_id c, cap_dependencies c)) (c # rest)) r (new1 @ new2)"
      unfolding list.map prod.case itemsLinked.simps
      by (rule exI [of _ new1], rule exI [of _ new2], rule exI [of _ r1])
         (use new1(2) new2(2) Inr in simp)
    ultimately show ?thesis by blast
  qed
qed

lemma deliverableDependencies_linked:
  "deliverableDependencies rt gh m ds hist = (r, h) \<Longrightarrow>
   \<exists>new. h = hist @ new
     \<and> itemsLinked rt ''deliverable'' m (map (\<lambda>d. (del_id d, del_dependencies d)) ds) r new"
proof (induction ds arbitrary: hist)
  case Nil
  then show ?case by auto
next
  case (Cons d rest)
  obtain r1 h1 where l: "linkDependencies rt gh ''deliverable'' m (del_id d) (del_dependencies d) hist = (r1, h1)"
    by (cases "linkDependencies rt gh ''deliverable'' m (del_id d) (del_dependencies d) hist") blast
  obtain new1 where new1: "h1 = hist @ new1"
      "itemLinked rt ''deliverable'' m (del_id d) (del_dependencies d) r1 new1"
    using linkDependencies_shape [OF l] by blast
  show ?case
  proof (cases r1)
    case (Inl e)
    with Cons.prems l have "h = h1" "r = Inl e" by simp_all
    have "itemsLinked rt ''deliverable'' m
            ((del_id d, del_dependencies d) # map (\<lambda>d. (del_id d, del_dependencies d)) rest) (Inl e) new1"
      unfolding itemsLinked.simps
      by (rule exI [of _ new1], rule exI [of _ "[]"], rule exI [of _ "Inl e"])
         (use new1(2) Inl in simp)
    with new1(1) \<open>h = h1\<close> \<open>r = Inl e\<close> show ?thesis by simp
  next
    case (Inr u)
    with Cons.prems l have "deliverableDependencies rt gh m rest h1 = (r, h)" by simp
    from Cons.IH [OF this] obtain new2 where new2: "h = h1 @ new2"
        "itemsLinked rt ''deliverable'' m (map (\<lambda>d. (del_id d, del_dependencies d)) rest) r new2"
      by blast
    have "h = hist @ (new1 @ new2)" using new1(1) new2(1) by simp
    moreover have "itemsLinked rt ''deliverable'' m
                     (map (\<lambda>d. (del_id d, del_dependencies d)) (d # rest)) r (new1 @ new2)"
      unfolding list.map prod.case itemsLinked.simps
      by (rule exI [of _ new1], rule exI [of _ new2], rule exI [of _ r1])
         (use new1(2) new2(2) Inr in simp)
    ultimately show ?thesis by blast
  qed
qed

lemma updateCapabilityDependencies_linked:
  "\<exists>new. snd (updateCapabilityDependencies rt gh project g) = g\<lparr>events := events g @ new\<rparr>
     \<and> itemsLinked rt ''capability'' (capabilityIdToIssueNumber g) (capabilityItems project)
          (fst (updateCapabilityDependencies rt gh project g)) new"
proof -
  obtain r h where run: "capabilityDependencies rt gh (capabilityIdToIssueNumber g)
                           (concat (map capabilities (initiatives project))) (events g) = (r, h)"
    by (cases "capabilityDependencies rt gh (capabilityIdToIssueNumber g)
                           (concat (map capabilities (initiatives project))) (events g)") blast
  from capabilityDependencies_linked [OF run] show ?thesis
    by (auto simp: updateCapabilityDependencies_def capabilityDependenciesOf_flat run
          capabilityItems_flat)
qed

lemma updateDeliverableDependencies_linked:
  "\<exists>new. snd (updateDeliverableDependencies rt gh project g) = g\<lparr>events := events g @ new\<rparr>
     \<and> itemsLinked rt ''deliverable'' (deliverableIdToIssueNumber g) (deliverableItems project)
          (fst (updateDeliverableDependencies rt gh project g)) new"
proof -
  obtain r h where run: "deliverableDependencies rt gh (deliverableIdToIssueNumber g)
       (concat (map deliverables (filter shouldCreateSubIssues
          (concat (map capabilities (initiatives project)))))) (events g) = (r, h)"
    by (cases "deliverableDependencies rt gh (deliverableIdToIssueNumber g)
       (concat (map deliverables (filter shouldCreateSubIssues
          (concat (map capabilities (initiatives project)))))) (events g)") blast
  from deliverableDependencies_linked [OF run] show ?thesis
    by (auto simp: updateDeliverableDependencies_def deliverableDependenciesOf_flat run
          deliverableItems_flat)
qed

subsection \<open>Rejected fallback steps and the place of the delays\<close>

lemma placed_mono: "placed False es \<Longrightarrow> placed due es"
proof (cases es)
  case Nil
  then show ?thesis by simp
next
  case (Cons e rest)
  assume "placed False es"
  with Cons show ?thesis by (cases e) simp_all
qed

lemma placed_append: "placed due a \<Longrightarrow> placed False b \<Longrightarrow> placed due (a @ b)"
  by (induction due a rule: placed.induct) (simp_all add: placed_mono)

lemma placed_registered: "placed due a \<Longrightarrow> placed False b \<Longrightarrow>
    placed due (a @ [Registered k i n, Delay 1000] @ b)"
  by (induction due a rule: placed.induct) simp_all

lemma ends_Nil [simp]: "ends r []"
  by (simp add: ends_def)

lemma ends_append:
  assumes "\<forall>e \<in> set a. \<not> stepRejected e" and "ends r b"
  shows "ends r (a @ b)"
  using assms by (auto simp: ends_def last_append)

lemma ends_Inl:
  "ends (Inl e) new \<longleftrightarrow>
     (\<forall>x \<in> set new. stepRejected x \<longrightarrow> (\<exists>m. e = IssueGeneratorError m) \<and> last new = x)"
  by (simp add: ends_def)

lemma ends_Inr: "ends (Inr x) a \<longleftrightarrow> (\<forall>e \<in> set a. \<not> stepRejected e)"
  by (auto simp: ends_def)

lemma ends_quiet: "\<forall>e \<in> set a. \<not> stepRejected e \<Longrightarrow> ends r a"
  by (simp add: ends_def)

lemma setParent_orderly:
  assumes "setParent rt gh p title d hist = (r, h)"
  shows "\<exists>new. h = hist @ new \<and> placed False new
           \<and> (\<forall>e \<in> set new. stepRejected e \<longrightarrow> r \<noteq> None \<and> last new = e)
           \<and> (r \<noteq> None \<longrightarrow> new \<noteq> [] \<and> stepRejected (last new))"
  using assms
  by (auto simp: setParent_def createParentLabel_def request_def Let_def
        split: sum.splits if_splits)

lemma createInitiativeIssue_orderly:
  assumes "createInitiativeIssue rt gh initiative hist = (r, h)"
  shows "\<exists>new. h = hist @ new \<and> placed False new \<and> ends r new"
  using assms
  by (auto simp: createInitiativeIssue_def request_def Let_def ends_def split: sum.splits)

lemma createCapabilityIssue_orderly:
  assumes "createCapabilityIssue rt gh initiative capability p hist = (r, h)"
  shows "\<exists>new. h = hist @ new \<and> placed False new \<and> ends r new"
proof (cases "gh (calls hist) (IssuesCreate (''[CAPABILITY] '' @ cap_title capability)
                (formatCapabilityBody rt initiative capability p)
                (uniq ([''type:capability'', ini_id initiative, complexityText (complexity capability)]
                       @ labels capability)))")
  case (Inl e)
  with assms show ?thesis
    by (auto simp: createCapabilityIssue_def request_def Let_def ends_def)
next
  case (Inr d)
  let ?c = "IssuesCreate (''[CAPABILITY] '' @ cap_title capability)
                (formatCapabilityBody rt initiative capability p)
                (uniq ([''type:capability'', ini_id initiative, complexityText (complexity capability)]
                       @ labels capability))"
  let ?pre = "[Invoke (CreateCapabilityIssue (ini_id initiative) (cap_id capability) p), Call ?c (Inr d)]"
  obtain r1 h1 where sp: "setParent rt gh p (ini_title initiative) d (hist @ ?pre) = (r1, h1)"
    by (cases "setParent rt gh p (ini_title initiative) d (hist @ ?pre)") blast
  obtain new where new: "h1 = (hist @ ?pre) @ new" "placed False new"
      "\<forall>e \<in> set new. stepRejected e \<longrightarrow> r1 \<noteq> None \<and> last new = e"
    using setParent_orderly [OF sp] by blast
  have res: "h = hist @ (?pre @ new)"
     "r = (case r1 of None \<Rightarrow> Inr (issueOf d)
           | Some error \<Rightarrow> Inl (IssueGeneratorError
               (''Failed to create capability issue \"'' @ cap_title capability @ ''\": '' @
                message error)))"
    using assms Inr sp new(1)
    by (auto simp: createCapabilityIssue_def request_def Let_def split: option.splits)
  have "placed False (?pre @ new)" using new(2) by simp
  moreover have "ends r (?pre @ new)"
    unfolding ends_def res(2) using new(3) by (auto split: option.splits)
  ultimately show ?thesis using res(1) by blast
qed

lemma createDeliverableIssue_orderly:
  assumes "createDeliverableIssue rt gh capability deliverable n hist = (r, h)"
  shows "\<exists>new. h = hist @ new \<and> placed False new \<and> ends r new"
proof (cases "gh (calls hist) (IssuesCreate (''[DELIVERABLE] '' @ del_title deliverable)
                (formatDeliverableBody rt capability deliverable n)
                [''type:deliverable'', initiativeId capability])")
  case (Inl e)
  with assms show ?thesis
    by (auto simp: createDeliverableIssue_def request_def Let_def ends_def)
next
  case (Inr d)
  let ?c = "IssuesCreate (''[DELIVERABLE] '' @ del_title deliverable)
                (formatDeliverableBody rt capability deliverable n)
                [''type:deliverable'', initiativeId capability]"
  let ?pre = "[Invoke (CreateDeliverableIssue (cap_id capability) (del_id deliverable) n), Call ?c (Inr d)]"
  obtain r1 h1 where sp: "setParent rt gh (Some n) (cap_title capability) d (hist @ ?pre) = (r1, h1)"
    by (cases "setParent rt gh (Some n) (cap_title capability) d (hist @ ?pre)") blast
  obtain new where new: "h1 = (hist @ ?pre) @ new" "placed False new"
      "\<forall>e \<in> set new. stepRejected e \<longrightarrow> r1 \<noteq> None \<and> last new = e"
    using setParent_orderly [OF sp] by blast
  have res: "h = hist @ (?pre @ new)"
     "r = (case r1 of None \<Rightarrow> Inr (issueOf d)
           | Some error \<Rightarrow> Inl (IssueGeneratorError
               (''Failed to create deliverable issue \"'' @ del_title deliverable @ ''\": '' @
                message error)))"
    using assms Inr sp new(1)
    by (auto simp: createDeliverableIssue_def request_def Let_def split: option.splits)
  have "placed False (?pre @ new)" using new(2) by simp
  moreover have "ends r (?pre @ new)"
    unfolding ends_def res(2) using new(3) by (auto split: option.splits)
  ultimately show ?thesis using res(1) by blast
qed

lemma orderly_step:
  assumes "placed False a" "ends (Inr x) a" "placed False b" "ends r b"
  shows "placed False (a @ [Registered k i n, Delay 1000] @ b)"
    and "ends r (a @ [Registered k i n, Delay 1000] @ b)"
proof -
  show "placed False (a @ [Registered k i n, Delay 1000] @ b)"
    using assms(1,3) by (rule placed_registered)
  have "\<forall>e \<in> set (a @ [Registered k i n, Delay 1000]). \<not> stepRejected e"
    using assms(2) by (auto simp: ends_Inr)
  from ends_append [OF this assms(4)] show "ends r (a @ [Registered k i n, Delay 1000] @ b)"
    by simp
qed

lemma orderly_then:
  assumes "placed False a" "ends (Inr x) a" "placed False b" "ends r b"
  shows "placed False (a @ b)" and "ends r (a @ b)"
  using assms by (auto simp: placed_append ends_Inr intro: ends_append)

lemma createInitiatives_orderly:
  "createInitiatives rt gh is acc g = (r, g') \<Longrightarrow>
   \<exists>new. events g' = events g @ new \<and> placed False new \<and> ends r new"
proof (induction "is" arbitrary: acc g)
  case Nil
  then show ?case by auto
next
  case (Cons i rest)
  obtain r1 h1 where c: "createInitiativeIssue rt gh i (events g) = (r1, h1)"
    by (cases "createInitiativeIssue rt gh i (events g)") blast
  obtain new1 where new1: "h1 = events g @ new1" "placed False new1" "ends r1 new1"
    using createInitiativeIssue_orderly [OF c] by blast
  show ?case
  proof (cases r1)
    case (Inl e)
    with Cons.prems c new1 show ?thesis by (auto simp: ends_Inl)
  next
    case (Inr issue)
    let ?g1 = "delay 1000 (setInitiative (ini_id i) (number issue) (g\<lparr>events := h1\<rparr>))"
    from Cons.prems c Inr have "createInitiatives rt gh rest (acc @ [issue]) ?g1 = (r, g')" by simp
    from Cons.IH [OF this] obtain new2 where new2: "events g' = events ?g1 @ new2"
        "placed False new2" "ends r new2" by blast
    have e: "events g' = events g @ (new1 @ [Registered InitiativeK (ini_id i) (number issue), Delay 1000] @ new2)"
      using new2(1) new1(1) by (simp add: delay_def setInitiative_def)
    from new1(3) Inr have "ends (Inr issue) new1" by simp
    from orderly_step [OF new1(2) this new2(2,3)] e show ?thesis by blast
  qed
qed

lemma createDeliverables_orderly:
  "createDeliverables rt gh capability n ds acc g = (r, g') \<Longrightarrow>
   \<exists>new. events g' = events g @ new \<and> placed False new \<and> ends r new"
proof (induction ds arbitrary: acc g)
  case Nil
  then show ?case by auto
next
  case (Cons d rest)
  obtain r1 h1 where c: "createDeliverableIssue rt gh capability d n (events g) = (r1, h1)"
    by (cases "createDeliverableIssue rt gh capability d n (events g)") blast
  obtain new1 where new1: "h1 = events g @ new1" "placed False new1" "ends r1 new1"
    using createDeliverableIssue_orderly [OF c] by blast
  show ?case
  proof (cases r1)
    case (Inl e)
    with Cons.prems c new1 show ?thesis by (auto simp: ends_Inl)
  next
    case (Inr issue)
    let ?g1 = "delay 1000 (setDeliverable (del_id d) (number issue) (g\<lparr>events := h1\<rparr>))"
    from Cons.prems c Inr have "createDeliverables rt gh capability n rest (acc @ [issue]) ?g1 = (r, g')"
      by simp
    from Cons.IH [OF this] obtain new2 where new2: "events g' = events ?g1 @ new2"
        "placed False new2" "ends r new2" by blast
    have e: "events g' = events g @ (new1 @ [Registered DeliverableK (del_id d) (number issue), Delay 1000] @ new2)"
      using new2(1) new1(1) by (simp add: delay_def setDeliverable_def)
    from new1(3) Inr have "ends (Inr issue) new1" by simp
    from orderly_step [OF new1(2) this new2(2,3)] e show ?thesis by blast
  qed
qed

lemma createCapabilities_orderly:
  "createCapabilities rt gh initiative p cs acc g = (r, g') \<Longrightarrow>
   \<exists>new. events g' = events g @ new \<and> placed False new \<and> ends r new"
proof (induction cs arbitrary: acc g)
  case Nil
  then show ?case by auto
next
  case (Cons c rest)
  obtain r1 h1 where cr: "createCapabilityIssue rt gh initiative c p (events g) = (r1, h1)"
    by (cases "createCapabilityIssue rt gh initiative c p (events g)") blast
  obtain new1 where new1: "h1 = events g @ new1" "placed False new1" "ends r1 new1"
    using createCapabilityIssue_orderly [OF cr] by blast
  show ?case
  proof (cases r1)
    case (Inl e)
    with Cons.prems cr new1 show ?thesis by (auto simp: ends_Inl)
  next
    case (Inr issue)
    let ?g1 = "delay 1000 (setCapability (cap_id c) (number issue) (g\<lparr>events := h1\<rparr>))"
    let ?reg = "[Registered CapabilityK (cap_id c) (number issue), Delay 1000]"
    have g1: "events ?g1 = events g @ new1 @ ?reg"
      using new1(1) by (simp add: delay_def setCapability_def)
    from new1(3) Inr have q1: "ends (Inr issue) new1" by simp
    show ?thesis
    proof (cases "shouldCreateSubIssues c \<and> length (deliverables c) > 0")
      case False
      with Cons.prems cr Inr have "createCapabilities rt gh initiative p rest (acc @ [issue]) ?g1 = (r, g')"
        by (auto simp: Let_def)
      from Cons.IH [OF this] obtain new2 where new2: "events g' = events ?g1 @ new2"
          "placed False new2" "ends r new2" by blast
      have e: "events g' = events g @ (new1 @ ?reg @ new2)" using new2(1) g1 by simp
      from orderly_step [OF new1(2) q1 new2(2,3)] e show ?thesis by blast
    next
      case True
      obtain r2 g2 where d: "createDeliverables rt gh c (number issue) (deliverables c)
                               (acc @ [issue]) ?g1 = (r2, g2)"
        by (cases "createDeliverables rt gh c (number issue) (deliverables c) (acc @ [issue]) ?g1") blast
      obtain new2 where new2: "events g2 = events ?g1 @ new2" "placed False new2" "ends r2 new2"
        using createDeliverables_orderly [OF d] by blast
      show ?thesis
      proof (cases r2)
        case (Inl e)
        with Cons.prems cr \<open>r1 = Inr issue\<close> True d have "g' = g2" "r = Inl e"
          by (auto simp: Let_def)
        then have e: "events g' = events g @ (new1 @ ?reg @ new2)" using new2(1) g1 by simp
        from new2(3) Inl \<open>r = Inl e\<close> have "ends r new2" by (simp add: ends_Inl)
        from orderly_step [OF new1(2) q1 new2(2) this] e show ?thesis by blast
      next
        case (Inr pushed)
        with Cons.prems cr \<open>r1 = Inr issue\<close> True d
        have "createCapabilities rt gh initiative p rest pushed g2 = (r, g')"
          by (auto simp: Let_def)
        from Cons.IH [OF this] obtain new3 where new3: "events g' = events g2 @ new3"
            "placed False new3" "ends r new3" by blast
        from new2(3) Inr have q2: "ends (Inr pushed) new2" by simp
        note t = orderly_then [OF new2(2) q2 new3(2,3)]
        have e: "events g' = events g @ (new1 @ ?reg @ (new2 @ new3))"
          using new3(1) new2(1) g1 by simp
        from orderly_step [OF new1(2) q1 t] e show ?thesis by blast
      qed
    qed
  qed
qed

lemma capabilityPass_orderly:
  "capabilityPass rt gh is acc g = (r, g') \<Longrightarrow>
   \<exists>new. events g' = events g @ new \<and> placed False new \<and> ends r new"
proof (induction "is" arbitrary: acc g)
  case Nil
  then show ?case by auto
next
  case (Cons i rest)
  obtain r1 g1 where c: "createCapabilities rt gh i (initiativeIdToIssueNumber g (ini_id i))
                           (capabilities i) acc g = (r1, g1)"
    by (cases "createCapabilities rt gh i (initiativeIdToIssueNumber g (ini_id i))
                           (capabilities i) acc g") blast
  obtain new1 where new1: "events g1 = events g @ new1" "placed False new1" "ends r1 new1"
    using createCapabilities_orderly [OF c] by blast
  show ?case
  proof (cases r1)
    case (Inl e)
    with Cons.prems c new1 show ?thesis by (auto simp: ends_Inl)
  next
    case (Inr pushed)
    with Cons.prems c have "capabilityPass rt gh rest pushed g1 = (r, g')" by simp
    from Cons.IH [OF this] obtain new2 where new2: "events g' = events g1 @ new2"
        "placed False new2" "ends r new2" by blast
    from new1(3) Inr have "ends (Inr pushed) new1" by simp
    from orderly_then [OF new1(2) this new2(2,3)] new1(1) new2(1) show ?thesis by auto
  qed
qed

lemma placed_without_delay: "(\<forall>ms. Delay ms \<notin> set es) \<Longrightarrow> placed due es"
proof (induction es arbitrary: due)
  case Nil
  show ?case by simp
next
  case (Cons e rest)
  then show ?case by (cases e) auto
qed

lemma edgeLinked_plain:
  "edgeLinked a b l es \<Longrightarrow> (\<forall>ms. Delay ms \<notin> set es) \<and> (\<forall>e \<in> set es. \<not> stepRejected e)"
  by (auto simp: edgeLinked_def linkWarning_def)

lemma edgesLinked_plain:
  "edgesLinked b blockers l es \<Longrightarrow>
     (\<forall>ms. Delay ms \<notin> set es) \<and> (\<forall>e \<in> set es. \<not> stepRejected e)"
proof (induction blockers arbitrary: l es)
  case Nil
  then show ?case by simp
next
  case (Cons a rest)
  then obtain first others l1 l2 where s: "es = first @ others" "edgeLinked a b l1 first"
      "edgesLinked b rest l2 others"
    by auto
  from edgeLinked_plain [OF s(2)] Cons.IH [OF s(3)] show ?case
    unfolding s(1) by auto
qed

lemma itemLinked_orderly:
  assumes "itemLinked rt noun numbers itemId deps r new"
  shows "placed False new \<and> (\<forall>e \<in> set new. \<not> stepRejected e)"
proof (cases "numberOf numbers itemId")
  case None
  with assms show ?thesis by (simp add: itemLinked_def)
next
  case (Some n)
  show ?thesis
  proof (cases "resolvable numbers deps = []")
    case True
    with assms Some show ?thesis by (simp add: itemLinked_def)
  next
    case False
    with assms Some obtain edges linked answer where s:
      "edgesLinked n (resolvable numbers deps) linked edges"
      "new = edges @ [Call (IssuesCreateComment n (commentText rt noun linked (resolvable numbers deps))) answer]
                   @ (case answer of Inl e \<Rightarrow> [] | Inr d \<Rightarrow> [Delay 1000])"
      by (auto simp: itemLinked_def)
    note p = edgesLinked_plain [OF s(1)]
    have "placed False edges" using p by (simp add: placed_without_delay)
    moreover have "placed False ([Call (IssuesCreateComment n (commentText rt noun linked (resolvable numbers deps))) answer]
                   @ (case answer of Inl e \<Rightarrow> [] | Inr d \<Rightarrow> [Delay 1000]))"
      by (cases answer) simp_all
    ultimately have "placed False new" unfolding s(2) by (rule placed_append)
    moreover have "\<forall>e \<in> set new. \<not> stepRejected e"
      unfolding s(2) using p by (cases answer) auto
    ultimately show ?thesis by simp
  qed
qed

lemma itemsLinked_orderly:
  "itemsLinked rt noun numbers items r new \<Longrightarrow>
     placed False new \<and> (\<forall>e \<in> set new. \<not> stepRejected e)"
proof (induction items arbitrary: new)
  case Nil
  then show ?case by simp
next
  case (Cons item rest)
  obtain itemId deps where item: "item = (itemId, deps)" by (cases item)
  from Cons.prems obtain first others r1 where s: "new = first @ others"
      "itemLinked rt noun numbers itemId deps r1 first"
      "case r1 of Inl e \<Rightarrow> others = [] \<and> r = Inl e
       | Inr u \<Rightarrow> itemsLinked rt noun numbers rest r others"
    unfolding item by auto
  note a = itemLinked_orderly [OF s(2)]
  show ?case
  proof (cases r1)
    case (Inl e)
    with s(3) have "others = []" by simp
    with a show ?thesis unfolding s(1) by simp
  next
    case (Inr u)
    with s(3) have "itemsLinked rt noun numbers rest r others" by simp
    from Cons.IH [OF this] a show ?thesis
      unfolding s(1) by (auto simp: placed_append)
  qed
qed

lemma generateIssues_linked:
  assumes "createInitiatives rt gh (initiatives project) [] g = (Inr pushed, g1)"
    and "capabilityPass rt gh (initiatives project) pushed g1 = (Inr allIssues, g2)"
  shows "\<exists>first second r1 r2.
            snd (generateIssues rt gh project g) = g2\<lparr>events := events g2 @ first @ second\<rparr>
            \<and> itemsLinked rt ''capability'' (capabilityIdToIssueNumber g2)
                 (capabilityItems project) r1 first
            \<and> (case r1 of
                  Inl e \<Rightarrow> second = [] \<and> fst (generateIssues rt gh project g) = Inl e
                | Inr u \<Rightarrow>
                    itemsLinked rt ''deliverable'' (deliverableIdToIssueNumber g2)
                      (deliverableItems project) r2 second
                    \<and> fst (generateIssues rt gh project g) =
                        (case r2 of Inl e \<Rightarrow> Inl e | Inr u' \<Rightarrow> Inr allIssues))"
proof -
  obtain r1 g3 where c: "updateCapabilityDependencies rt gh project g2 = (r1, g3)"
    by (cases "updateCapabilityDependencies rt gh project g2") blast
  obtain first where first: "g3 = g2\<lparr>events := events g2 @ first\<rparr>"
      "itemsLinked rt ''capability'' (capabilityIdToIssueNumber g2) (capabilityItems project) r1 first"
    using updateCapabilityDependencies_linked [of rt gh project g2] c by auto
  obtain r2 g4 where d: "updateDeliverableDependencies rt gh project g3 = (r2, g4)"
    by (cases "updateDeliverableDependencies rt gh project g3") blast
  obtain second where second: "g4 = g3\<lparr>events := events g3 @ second\<rparr>"
      "itemsLinked rt ''deliverable'' (deliverableIdToIssueNumber g3) (deliverableItems project) r2 second"
    using updateDeliverableDependencies_linked [of rt gh project g3] d by auto
  show ?thesis
  proof (cases r1)
    case (Inl e)
    show ?thesis
      by (rule exI [of _ first], rule exI [of _ "[]"], rule exI [of _ r1], rule exI [of _ r2])
         (use assms c first Inl in \<open>simp add: generateIssues_def\<close>)
  next
    case (Inr u)
    show ?thesis
      by (rule exI [of _ first], rule exI [of _ second], rule exI [of _ r1], rule exI [of _ r2])
         (use assms c d first second Inr in \<open>auto simp: generateIssues_def split: sum.splits\<close>)
  qed
qed

lemma generateIssues_orderly:
  assumes "generateIssues rt gh project g = (r, g')"
  shows "\<exists>new. events g' = events g @ new \<and> placed False new \<and> ends r new"
proof -
  obtain r1 g1 where p1: "createInitiatives rt gh (initiatives project) [] g = (r1, g1)"
    by (cases "createInitiatives rt gh (initiatives project) [] g") blast
  obtain new1 where new1: "events g1 = events g @ new1" "placed False new1" "ends r1 new1"
    using createInitiatives_orderly [OF p1] by blast
  show ?thesis
  proof (cases r1)
    case (Inl e)
    with assms p1 have "g' = g1" "r = Inl e" by (simp_all add: generateIssues_def)
    with new1 Inl show ?thesis by (auto simp: ends_Inl)
  next
    case pushed: (Inr pushed)
    obtain r2 g2 where p2: "capabilityPass rt gh (initiatives project) pushed g1 = (r2, g2)"
      by (cases "capabilityPass rt gh (initiatives project) pushed g1") blast
    obtain new2 where new2: "events g2 = events g1 @ new2" "placed False new2" "ends r2 new2"
      using capabilityPass_orderly [OF p2] by blast
    from new1(3) pushed have q1: "ends (Inr pushed) new1" by simp
    show ?thesis
    proof (cases r2)
      case (Inl e)
      with assms p1 pushed p2 have "g' = g2" "r = Inl e" by (simp_all add: generateIssues_def)
      moreover from new2(3) Inl have "ends (Inl e :: js_error + GitHubIssue list) new2"
        by (simp add: ends_Inl)
      ultimately show ?thesis
        using orderly_then [OF new1(2) q1 new2(2)] new1(1) new2(1) by auto
    next
      case allIssues: (Inr allIssues)
      from new2(3) allIssues have q2: "ends (Inr allIssues) new2" by simp
      obtain first second r3 r4 where run:
        "snd (generateIssues rt gh project g) = g2\<lparr>events := events g2 @ first @ second\<rparr>"
        "itemsLinked rt ''capability'' (capabilityIdToIssueNumber g2) (capabilityItems project) r3 first"
        "case r3 of
           Inl e \<Rightarrow> second = [] \<and> fst (generateIssues rt gh project g) = Inl e
         | Inr u \<Rightarrow>
             itemsLinked rt ''deliverable'' (deliverableIdToIssueNumber g2)
               (deliverableItems project) r4 second
             \<and> fst (generateIssues rt gh project g) =
                 (case r4 of Inl e \<Rightarrow> Inl e | Inr u' \<Rightarrow> Inr allIssues)"
        using generateIssues_linked [OF p1 [unfolded pushed] p2 [unfolded allIssues]] by blast
      have third: "placed False first \<and> (\<forall>e \<in> set first. \<not> stepRejected e)"
        using itemsLinked_orderly [OF run(2)] .
      have fourth: "placed False second \<and> (\<forall>e \<in> set second. \<not> stepRejected e)"
      proof (cases r3)
        case (Inl e)
        with run(3) show ?thesis by simp
      next
        case (Inr u)
        with run(3) have "itemsLinked rt ''deliverable'' (deliverableIdToIssueNumber g2)
               (deliverableItems project) r4 second" by simp
        from itemsLinked_orderly [OF this] show ?thesis .
      qed
      have tail: "placed False (first @ second)" "ends r (first @ second)"
        using third fourth by (auto simp: placed_append ends_def)
      note a = orderly_then [OF new2(2) q2 tail]
      note b = orderly_then [OF new1(2) q1 a]
      have "events g' = events g @ (new1 @ new2 @ first @ second)"
        using run(1) assms new1(1) new2(1) by simp
      with b show ?thesis by blast
    qed
  qed
qed

lemma setParent_degraded:
  assumes "degraded gh rt (calls h) parent title child apiError labelAnswer attachAnswer updateAnswer"
  shows "setParent rt gh (Some parent) title child h =
           (case attachAnswer of
              Inl e \<Rightarrow> Some e
            | Inr a \<Rightarrow> (case updateAnswer of Inl e \<Rightarrow> Some e | Inr b \<Rightarrow> None),
            h @ fallbackEvents rt parent title child apiError labelAnswer attachAnswer updateAnswer)"
  using assms
  by (cases labelAnswer; cases attachAnswer; cases updateAnswer)
     (auto simp: degraded_def setParent_def createParentLabel_def request_def Let_def
        fallbackEvents_def parentLabel_def parentLinkSection_def numOrUndefined_def num_def)

subsection \<open>Evaluating runs on the concrete inputs\<close>

lemma demo_fields:
  "initiatives demo_project = [demo_initiative]" "capabilities demo_initiative = [demo_capability]"
  "ini_id demo_initiative = ''initiative-1''" "ini_title demo_initiative = ''Test Initiative''"
  "cap_id demo_capability = ''capability-1-1''" "cap_title demo_capability = ''Test Capability''"
  "cap_dependencies demo_capability = []" "shouldCreateSubIssues demo_capability = True"
  "deliverables demo_capability = [demo_deliverable]" "del_id demo_deliverable = ''deliverable-1-1-1''"
  "del_title demo_deliverable = ''Test Deliverable''" "del_dependencies demo_deliverable = []"
  "complexity demo_capability = Small" "labels demo_capability = []"
  "initiativeId demo_capability = ''initiative-1''"
  by (simp_all add: demo_project_def demo_initiative_def demo_capability_def demo_deliverable_def)

lemma linked_fields:
  "initiatives linked_project = [demo_initiative\<lparr>capabilities := [demo_capability, dependent_capability]\<rparr>]"
  "cap_id dependent_capability = ''capability-1-2''"
  "cap_title dependent_capability = ''Second Capability''"
  "cap_dependencies dependent_capability =
     [''capability-1-1'', ''capability-9-9'', ''capability-1-4'', ''capability-1-3'']"
  "shouldCreateSubIssues dependent_capability = False"
  "deliverables dependent_capability = []"
  "complexity dependent_capability = Small" "labels dependent_capability = []"
  "initiativeId dependent_capability = ''initiative-1''"
  by (simp_all add: linked_project_def dependent_capability_def)

lemmas run_defs = generateIssues_def createInitiativeIssue_def createCapabilityIssue_def
  createDeliverableIssue_def setParent_def createParentLabel_def request_def newGenerator_def
  delay_def setInitiative_def setCapability_def setDeliverable_def
  updateCapabilityDependencies_def updateDeliverableDependencies_def linkDependencies_def
  issueOf_def tryLink_def lookupNumber_def Let_def

lemma linked_run:
  "wire (events (snd (generateIssues demo_rt accepting linked_project newGenerator))) =
     [''issues.create'', ''delay'', ''issues.create'', ''sub_issues'', ''delay'',
      ''issues.create'', ''sub_issues'', ''delay'', ''issues.create'', ''sub_issues'', ''delay'',
      ''issues.get'', ''issues.get'', ''graphql'', ''issues.createComment'', ''delay'']"
  by (simp add: run_defs demo_fields linked_fields accepting_def)



lemma showNat_small: "showNat (Suc 0) = ''1''" "showNat 2 = ''2''"
  by (simp_all add: showNat.simps)

section \<open>Materialisation: the claims\<close>



text \<open>
  C2, as the claim states it, fails: only the creation of the parent label is best-effort.
  On a tracker without native sub-issues that also refuses to attach labels, the second
  step of the fallback ends the run with an error and the body is never updated.
\<close>

theorem attach_failure_aborts:
  "fst (generateIssues demo_rt withoutLabels demo_project newGenerator) =
     Inl (IssueGeneratorError ''Failed to create capability issue \"Test Capability\": Forbidden'')
   \<and> wire (events (snd (generateIssues demo_rt withoutLabels demo_project newGenerator))) =
       [''issues.create'', ''delay'', ''issues.create'', ''sub_issues'', ''issues.createLabel'',
        ''issues.addLabels'']"
  by (simp add: run_defs demo_fields accepting_def withoutLabels_def)

text \<open>
  C2, amended. When the tracker rejects the native link of a capability or of a deliverable
  to its parent, whatever the error: the creation of the label \<^verbatim>\<open>parent:#N\<close> is requested
  and its outcome does not matter (a failure with a status other than 422 is logged as a
  warning); then the label is attached to the child; then the body of the child is updated
  to the reference to the parent followed by the body as created. When the tracker accepts
  the last two requests the method returns the issue as created. When it rejects the
  attachment, the update is not requested; when it rejects either, the method fails with an
  error of the generator that carries the title of the child and the message of the
  tracker. In a run of \<open>generateIssues\<close> such a rejected request is the last event of the
  log, and the run fails with an error of the generator.
\<close>

theorem parent_fallback:
  "(let create = IssuesCreate (''[CAPABILITY] '' @ cap_title capability)
                   (formatCapabilityBody rt initiative capability (Some parent))
                   (uniq ([''type:capability'', ini_id initiative,
                           complexityText (complexity capability)] @ labels capability))
    in gh (calls hist) create = Inr child
       \<and> degraded gh rt (calls hist @ [create]) parent (ini_title initiative) child apiError
            labelAnswer attachAnswer updateAnswer
       \<longrightarrow> createCapabilityIssue rt gh initiative capability (Some parent) hist =
             (fallbackResult
                (''Failed to create capability issue \"'' @ cap_title capability @ ''\": '')
                child attachAnswer updateAnswer,
              hist @ [Invoke (CreateCapabilityIssue (ini_id initiative) (cap_id capability)
                                (Some parent)),
                      Call create (Inr child)]
                   @ fallbackEvents rt parent (ini_title initiative) child apiError labelAnswer
                       attachAnswer updateAnswer))
   \<and> (let create = IssuesCreate (''[DELIVERABLE] '' @ del_title deliverable)
                      (formatDeliverableBody rt capability deliverable parent)
                      [''type:deliverable'', initiativeId capability]
       in gh (calls hist) create = Inr child
          \<and> degraded gh rt (calls hist @ [create]) parent (cap_title capability) child apiError
               labelAnswer attachAnswer updateAnswer
          \<longrightarrow> createDeliverableIssue rt gh capability deliverable parent hist =
                (fallbackResult
                   (''Failed to create deliverable issue \"'' @ del_title deliverable @ ''\": '')
                   child attachAnswer updateAnswer,
                 hist @ [Invoke (CreateDeliverableIssue (cap_id capability) (del_id deliverable)
                                   parent),
                         Call create (Inr child)]
                      @ fallbackEvents rt parent (cap_title capability) child apiError labelAnswer
                          attachAnswer updateAnswer))
   \<and> (\<forall>r g. generateIssues rt gh project newGenerator = (r, g) \<longrightarrow> ends r (events g))"
proof -
  have cap: "createCapabilityIssue rt gh initiative capability (Some parent) hist =
             (fallbackResult
                (''Failed to create capability issue \"'' @ cap_title capability @ ''\": '')
                child attachAnswer updateAnswer,
              hist @ [Invoke (CreateCapabilityIssue (ini_id initiative) (cap_id capability)
                                (Some parent)),
                      Call create (Inr child)]
                   @ fallbackEvents rt parent (ini_title initiative) child apiError labelAnswer
                       attachAnswer updateAnswer)"
    if "create = IssuesCreate (''[CAPABILITY] '' @ cap_title capability)
                   (formatCapabilityBody rt initiative capability (Some parent))
                   (uniq ([''type:capability'', ini_id initiative,
                           complexityText (complexity capability)] @ labels capability))"
      and "gh (calls hist) create = Inr child"
      and "degraded gh rt (calls hist @ [create]) parent (ini_title initiative) child apiError
            labelAnswer attachAnswer updateAnswer"
    for create
  proof -
    let ?h = "hist @ [Invoke (CreateCapabilityIssue (ini_id initiative) (cap_id capability)
                                (Some parent)),
                      Call create (Inr child)]"
    have "degraded gh rt (calls ?h) parent (ini_title initiative) child apiError
            labelAnswer attachAnswer updateAnswer"
      using that(3) by simp
    from setParent_degraded [OF this] that(1,2) show ?thesis
      by (cases attachAnswer; cases updateAnswer)
         (simp_all add: createCapabilityIssue_def request_def Let_def fallbackResult_def issueOf_def)
  qed
  have del: "createDeliverableIssue rt gh capability deliverable parent hist =
                (fallbackResult
                   (''Failed to create deliverable issue \"'' @ del_title deliverable @ ''\": '')
                   child attachAnswer updateAnswer,
                 hist @ [Invoke (CreateDeliverableIssue (cap_id capability) (del_id deliverable)
                                   parent),
                         Call create (Inr child)]
                      @ fallbackEvents rt parent (cap_title capability) child apiError labelAnswer
                          attachAnswer updateAnswer)"
    if "create = IssuesCreate (''[DELIVERABLE] '' @ del_title deliverable)
                      (formatDeliverableBody rt capability deliverable parent)
                      [''type:deliverable'', initiativeId capability]"
      and "gh (calls hist) create = Inr child"
      and "degraded gh rt (calls hist @ [create]) parent (cap_title capability) child apiError
               labelAnswer attachAnswer updateAnswer"
    for create
  proof -
    let ?h = "hist @ [Invoke (CreateDeliverableIssue (cap_id capability) (del_id deliverable)
                                   parent),
                      Call create (Inr child)]"
    have "degraded gh rt (calls ?h) parent (cap_title capability) child apiError
               labelAnswer attachAnswer updateAnswer"
      using that(3) by simp
    from setParent_degraded [OF this] that(1,2) show ?thesis
      by (cases attachAnswer; cases updateAnswer)
         (simp_all add: createDeliverableIssue_def request_def Let_def fallbackResult_def issueOf_def)
  qed
  have run: "ends r (events g)" if "generateIssues rt gh project newGenerator = (r, g)" for r g
    using generateIssues_orderly [OF that] by (auto simp: newGenerator_def)
  show ?thesis
    unfolding Let_def using cap del run by blast
qed

theorem parent_fallback_witness:
  "createCapabilityIssue demo_rt withoutLabels demo_initiative demo_capability (Some 1) [] =
     (Inl (IssueGeneratorError ''Failed to create capability issue \"Test Capability\": Forbidden''),
      [Invoke (CreateCapabilityIssue ''initiative-1'' ''capability-1-1'' (Some 1)),
       Call (IssuesCreate ''[CAPABILITY] Test Capability''
               (formatCapabilityBody demo_rt demo_initiative demo_capability (Some 1))
               [''type:capability'', ''initiative-1'', ''small''])
         (Inr \<lparr>data_number = 1, html_url = [], data_title = ''[CAPABILITY] Test Capability'',
               data_body = Some (formatCapabilityBody demo_rt demo_initiative demo_capability (Some 1)),
               node_id = []\<rparr>),
       Call (SubIssuesPost (Some 1) 1) (Inl \<lparr>status = Some 404, message = ''Not Found''\<rparr>),
       Warned ''Repository doesn't support sub-issues feature yet. Check your account's Feature Preview settings.'',
       Call (IssuesCreateLabel ''parent:#1'' ''E4E4E4'' ''Child issues of #1'')
         (Inr \<lparr>data_number = 2, html_url = [], data_title = [], data_body = None, node_id = []\<rparr>),
       Call (IssuesAddLabels 1 [''parent:#1''])
         (Inl \<lparr>status = Some 403, message = ''Forbidden''\<rparr>)])
   \<and> fst (createDeliverableIssue demo_rt withoutSubIssues demo_capability demo_deliverable 2 []) =
       Inr \<lparr>number = 1, url = [], issue_title = ''[DELIVERABLE] Test Deliverable'',
            issue_body = formatDeliverableBody demo_rt demo_capability demo_deliverable 2\<rparr>
   \<and> calls (snd (createDeliverableIssue demo_rt withoutSubIssues demo_capability demo_deliverable
                    2 [])) =
       [IssuesCreate ''[DELIVERABLE] Test Deliverable''
          (formatDeliverableBody demo_rt demo_capability demo_deliverable 2)
          [''type:deliverable'', ''initiative-1''],
        SubIssuesPost (Some 2) 1,
        IssuesCreateLabel ''parent:#2'' ''E4E4E4'' ''Child issues of #2'',
        IssuesAddLabels 1 [''parent:#2''],
        IssuesUpdate 1
          (''**Parent Issue**: #2 Test Capability\<newline>\<newline>---\<newline>\<newline>'' @
           formatDeliverableBody demo_rt demo_capability demo_deliverable 2)]
   \<and> ends (fst (generateIssues demo_rt withoutLabels demo_project newGenerator))
        (events (snd (generateIssues demo_rt withoutLabels demo_project newGenerator)))
   \<and> stepRejected (last (events (snd (generateIssues demo_rt withoutLabels demo_project
                                          newGenerator))))"
proof -
  let ?other = "\<lparr>data_number = 2, html_url = [], data_title = [], data_body = None,
                  node_id = []\<rparr>"
  let ?missing = "\<lparr>status = Some 404, message = ''Not Found''\<rparr>"
  let ?forbidden = "\<lparr>status = Some 403, message = ''Forbidden''\<rparr>"
  let ?capability = "\<lparr>data_number = 1, html_url = [],
         data_title = ''[CAPABILITY] Test Capability'',
         data_body = Some (formatCapabilityBody demo_rt demo_initiative demo_capability (Some 1)),
         node_id = []\<rparr>"
  let ?deliverable = "\<lparr>data_number = 1, html_url = [],
         data_title = ''[DELIVERABLE] Test Deliverable'',
         data_body = Some (formatDeliverableBody demo_rt demo_capability demo_deliverable 2),
         node_id = []\<rparr>"
  have shown: "numberToString demo_rt 1 = ''1''" "numberToString demo_rt 2 = ''2''"
    by (simp_all add: demo_rt_def showNat_small)
  have uniq: "uniq [''type:capability'', ''initiative-1'', ''small''] =
                [''type:capability'', ''initiative-1'', ''small'']"
    by (simp add: uniq_def)
  from parent_fallback
         [where capability = demo_capability and rt = demo_rt and initiative = demo_initiative
            and parent = 1 and gh = withoutLabels and hist = "[]" and child = ?capability
            and apiError = ?missing and labelAnswer = "Inr ?other"
            and attachAnswer = "Inl ?forbidden" and updateAnswer = "Inr ?other"]
  have a: "createCapabilityIssue demo_rt withoutLabels demo_initiative demo_capability (Some 1) [] =
     (Inl (IssueGeneratorError ''Failed to create capability issue \"Test Capability\": Forbidden''),
      [Invoke (CreateCapabilityIssue ''initiative-1'' ''capability-1-1'' (Some 1)),
       Call (IssuesCreate ''[CAPABILITY] Test Capability''
               (formatCapabilityBody demo_rt demo_initiative demo_capability (Some 1))
               [''type:capability'', ''initiative-1'', ''small''])
         (Inr ?capability),
       Call (SubIssuesPost (Some 1) 1) (Inl ?missing),
       Warned ''Repository doesn't support sub-issues feature yet. Check your account's Feature Preview settings.'',
       Call (IssuesCreateLabel ''parent:#1'' ''E4E4E4'' ''Child issues of #1'') (Inr ?other),
       Call (IssuesAddLabels 1 [''parent:#1'']) (Inl ?forbidden)])"
    by (simp add: Let_def demo_fields degraded_def withoutLabels_def accepting_def shown uniq
          fallbackResult_def fallbackEvents_def subIssueWarning_def complexityText.simps)
  from parent_fallback
         [where capability = demo_capability and rt = demo_rt and deliverable = demo_deliverable
            and parent = 2 and gh = withoutSubIssues and hist = "[]" and child = ?deliverable
            and apiError = ?missing and labelAnswer = "Inr ?other"
            and attachAnswer = "Inr ?other" and updateAnswer = "Inr ?other"]
  have b: "createDeliverableIssue demo_rt withoutSubIssues demo_capability demo_deliverable 2 [] =
     (Inr \<lparr>number = 1, url = [], issue_title = ''[DELIVERABLE] Test Deliverable'',
            issue_body = formatDeliverableBody demo_rt demo_capability demo_deliverable 2\<rparr>,
      [Invoke (CreateDeliverableIssue ''capability-1-1'' ''deliverable-1-1-1'' 2),
       Call (IssuesCreate ''[DELIVERABLE] Test Deliverable''
               (formatDeliverableBody demo_rt demo_capability demo_deliverable 2)
               [''type:deliverable'', ''initiative-1''])
         (Inr ?deliverable),
       Call (SubIssuesPost (Some 2) 1) (Inl ?missing),
       Warned ''Repository doesn't support sub-issues feature yet. Check your account's Feature Preview settings.'',
       Call (IssuesCreateLabel ''parent:#2'' ''E4E4E4'' ''Child issues of #2'') (Inr ?other),
       Call (IssuesAddLabels 1 [''parent:#2'']) (Inr ?other),
       Call (IssuesUpdate 1
               (''**Parent Issue**: #2 Test Capability\<newline>\<newline>---\<newline>\<newline>'' @
                formatDeliverableBody demo_rt demo_capability demo_deliverable 2))
         (Inr ?other)])"
    by (simp add: Let_def demo_fields degraded_def withoutSubIssues_def accepting_def shown
          fallbackResult_def fallbackEvents_def subIssueWarning_def)
  from parent_fallback [where rt = demo_rt and gh = withoutLabels and project = demo_project]
  have c: "ends (fst (generateIssues demo_rt withoutLabels demo_project newGenerator))
        (events (snd (generateIssues demo_rt withoutLabels demo_project newGenerator)))"
    by (metis surjective_pairing)
  have d: "stepRejected (last (events (snd (generateIssues demo_rt withoutLabels demo_project
                                          newGenerator))))"
    by (simp add: run_defs demo_fields accepting_def withoutLabels_def)
  show ?thesis
    unfolding a b using c d by simp
qed



text \<open>
  C8: when the tracker rejects the request that creates an initiative, after the
  initiatives before it were created, the whole run fails with an IssueGeneratorError that
  carries the title of the initiative and the message of the tracker's error, and nothing
  more is sent.
\<close>

theorem initiative_failure_is_fatal:
  assumes "initiatives project = before @ initiative # after"
    and "createInitiatives rt gh before [] g = (Inr pushed, g1)"
    and "gh (calls (events g1))
            (IssuesCreate (''[INITIATIVE] '' @ ini_title initiative) (initiativeBody rt initiative)
               [''type:initiative'', ini_id initiative]) = Inl error"
  shows "generateIssues rt gh project g =
           (Inl (IssueGeneratorError
                   (''Failed to create initiative issue \"'' @ ini_title initiative @ ''\": '' @
                    message error)),
            g1\<lparr>events := events g1 @
                 [Invoke (CreateInitiativeIssue (ini_id initiative)),
                  Call (IssuesCreate (''[INITIATIVE] '' @ ini_title initiative)
                          (initiativeBody rt initiative) [''type:initiative'', ini_id initiative])
                       (Inl error)]\<rparr>)"
  using assms
  by (simp add: generateIssues_def createInitiatives_append createInitiativeIssue_def
        request_def Let_def)

theorem initiative_failure_is_fatal_witness:
  "fst (generateIssues demo_rt down demo_project newGenerator) =
     Inl (IssueGeneratorError ''Failed to create initiative issue \"Test Initiative\": Server Error'')
   \<and> wire (events (snd (generateIssues demo_rt down demo_project newGenerator))) = [''issues.create'']"
  using initiative_failure_is_fatal
          [of demo_project "[]" demo_initiative "[]" demo_rt down newGenerator "[]" newGenerator
              "\<lparr>status = Some 500, message = ''Server Error''\<rparr>"]
  by (simp add: demo_fields down_def newGenerator_def)

text \<open>
  C9, as the claim states it, fails: in the run on the accepting tracker the request that
  creates a capability is directly followed by the request that links it to its parent,
  with no delay between the two.
\<close>

theorem calls_without_delay_between:
  "wire (events (snd (generateIssues demo_rt accepting demo_project newGenerator))) =
     [''issues.create'', ''delay'', ''issues.create'', ''sub_issues'', ''delay'',
      ''issues.create'', ''sub_issues'', ''delay'']
   \<and> \<not> callsSeparated False
          (events (snd (generateIssues demo_rt accepting demo_project newGenerator)))"
  by (simp add: run_defs demo_fields accepting_def)

text \<open>
  C9, amended: in every run, every request that creates an item is the first request of
  the run or the first one after a delay of 1000 ms; every accepted dependency comment is
  directly followed by a delay of 1000 ms; and there are no other delays: every delay is
  of 1000 ms and comes directly after the registration of the number of a created item or
  directly after an accepted dependency comment.
\<close>

theorem delays_between_items:
  assumes "generateIssues rt gh project newGenerator = (r, g)"
  shows "createsDelayed True (events g) \<and> commentsDelayed (events g) \<and> placed False (events g)"
proof -
  from generateIssues_staged [OF assms]
  have st: "staged start (events g)" and fin: "\<not> pending (foldl advance start (events g))"
    by (simp_all add: Inv_def reached_def)
  from generateIssues_orderly [OF assms] have "placed False (events g)"
    by (auto simp: newGenerator_def)
  with staged_createsDelayed [OF st] staged_commentsDelayed [OF st fin]
  show ?thesis by (simp add: start_def)
qed

theorem delays_between_items_witness:
  "createsDelayed True (events (snd (generateIssues demo_rt accepting linked_project newGenerator)))
   \<and> commentsDelayed (events (snd (generateIssues demo_rt accepting linked_project newGenerator)))
   \<and> placed False (events (snd (generateIssues demo_rt accepting linked_project newGenerator)))
   \<and> wire (events (snd (generateIssues demo_rt accepting linked_project newGenerator))) =
     [''issues.create'', ''delay'', ''issues.create'', ''sub_issues'', ''delay'',
      ''issues.create'', ''sub_issues'', ''delay'', ''issues.create'', ''sub_issues'', ''delay'',
      ''issues.get'', ''issues.get'', ''graphql'', ''issues.createComment'', ''delay'']"
  using delays_between_items [OF surjective_pairing, of demo_rt accepting linked_project]
  by (simp add: linked_run)

end
